theory Spec2Isabelle
  imports Complex_Main
begin

section \<open>Smartsheet / Bind ERP synchronisation service: a model of \<open>main.py\<close>\<close>

text \<open>
  The service downloads invoices from Bind, inserts the new ones into a Smartsheet sheet and
  updates the ones already there (matched by UUID or by a composite signature), and runs
  that cycle per configuration row on a schedule. This theory embeds the functions of
  \<open>main.py\<close> that decide those outcomes and proves properties of them.

  Conventions of the model.
  \<^item> A Python \<open>str\<close> is a \<open>string\<close>; a character stands for the code point of the same
    number, so the model covers text of code points below 256. The accented letter of
    the default column title for the date is \<open>CHR 0xF3\<close>.
  \<^item> A Python \<open>float\<close> is an IEEE 754 double: a finite one is the rational number it holds,
    and the zero with a sign bit, the two infinities and NaN are values of their own.
    Conversions to \<open>float\<close> round to the nearest double, ties to the even significand.
  \<^item> Field values of an invoice and cell values of a sheet are the scalars of JSON.
  \<^item> An exception is a value \<open>Inl e\<close> of a sum type.
  \<^item> Functions of the Python library and of the Unicode and time zone databases that are not
    part of \<open>main.py\<close> are fields of a record \<open>pylib\<close> that every function takes as its first
    argument; the theorems hold for every such record.
\<close>

subsection \<open>Floats\<close>

text \<open>
  \<open>Finite q\<close> is the double of value \<open>q\<close> (\<open>Finite 0\<close> is \<open>0.0\<close>), \<open>NegZero\<close> is \<open>-0.0\<close>.
  A NaN equals nothing, itself included, and a dict finds a key that holds a NaN only through
  the very same object. So NaN objects are told apart where they become part of a key: the
  argument of \<open>NaN\<close> names the object, \<open>Some i\<close> for the one that belongs to the row with
  identifier \<open>i\<close> of a destination sheet or to the i-th configuration row, \<open>None\<close> for the one
  of an invoice. Anywhere else the argument has no meaning.
\<close>

datatype pyfloat = Finite rat | NegZero | PosInf | NegInf | NaN "int option"

text \<open>\<open>bool(x)\<close> for a float: every value but the two zeros.\<close>

fun float_truthy :: "pyfloat \<Rightarrow> bool" where
  "float_truthy (Finite x) = (x \<noteq> 0)"
| "float_truthy NegZero = False"
| "float_truthy x = True"

text \<open>The integer nearest to a rational, a tie going to the even one.\<close>

definition half_even :: "int \<Rightarrow> rat \<Rightarrow> int" where
  "half_even f d =
     (if d < 1 / 2 then f else if 1 / 2 < d then f + 1 else if even f then f else f + 1)"

definition round_half_even :: "rat \<Rightarrow> int" where
  "round_half_even q = half_even \<lfloor>q\<rfloor> (q - of_int \<lfloor>q\<rfloor>)"

text \<open>\<open>int.bit_length\<close> of a positive integer, and the powers of two.\<close>

function bit_length :: "int \<Rightarrow> int" where
  "bit_length n = (if n \<le> 0 then 0 else 1 + bit_length (n div 2))"
  by pat_completeness auto
termination
  by (relation "measure nat") auto

declare bit_length.simps [simp del]

definition pow2 :: "int \<Rightarrow> rat" where
  "pow2 k = (if 0 \<le> k then of_int (2 ^ nat k) else 1 / of_int (2 ^ nat (- k)))"

text \<open>
  The exponent \<open>e\<close> of a positive rational, \<open>2 ^ e \<le> q < 2 ^ (e + 1)\<close>: one less than the
  bits of the integer part from 1 on, and below 1 the least \<open>k\<close> with \<open>1 / q \<le> 2 ^ k\<close>,
  negated.
\<close>

definition binary_exponent :: "rat \<Rightarrow> int" where
  "binary_exponent q =
     (if 1 \<le> q then bit_length \<lfloor>q\<rfloor> - 1 else - bit_length (\<lceil>1 / q\<rceil> - 1))"

text \<open>
  The double nearest to a rational, a tie going to the even significand. A double (binary64)
  is a significand \<open>m\<close> below \<open>2 ^ 53\<close> times \<open>2 ^ (e - 52)\<close>, with \<open>e\<close> from -1022 to 1023;
  the subnormal ones have \<open>e = - 1022\<close> and \<open>m\<close> below \<open>2 ^ 52\<close>. A significand rounded up to
  \<open>2 ^ 53\<close> is the first double of the next exponent, and the value is an infinity when it
  reaches \<open>2 ^ 1024\<close>. This is how \<open>float\<close> reads an \<open>int\<close> or a numeral and how a division of
  two numbers rounds.
\<close>

definition double_of :: "bool \<Rightarrow> int \<Rightarrow> int \<Rightarrow> pyfloat" where
  "double_of neg e m =
     (if e = 1023 \<and> m = 2 ^ 53 then (if neg then NegInf else PosInf)
      else if m = 0 then (if neg then NegZero else Finite 0)
      else Finite ((if neg then - 1 else 1) * of_int m * pow2 (e - 52)))"

definition round_to_exponent :: "rat \<Rightarrow> int \<Rightarrow> pyfloat" where
  "round_to_exponent q e =
     (if 1024 \<le> e then (if q < 0 then NegInf else PosInf)
      else double_of (q < 0) e (round_half_even (\<bar>q\<bar> / pow2 (e - 52))))"

definition nearest_double :: "rat \<Rightarrow> pyfloat" where
  "nearest_double q =
     (if q = 0 then Finite 0 else round_to_exponent q (max (binary_exponent \<bar>q\<bar>) (- 1022)))"

text \<open>
  \<open>round(x, 2)\<close> on a float: the decimal with two places nearest to the value of \<open>x\<close> (a tie
  going to the even last digit), read back as a double. A zero keeps the sign of \<open>x\<close>; an
  infinity and a NaN come back as they are.
\<close>

definition hundredths :: "rat \<Rightarrow> int \<Rightarrow> pyfloat" where
  "hundredths x k =
     (if k = 0 then (if x < 0 then NegZero else Finite 0) else nearest_double (of_int k / 100))"

fun round2 :: "pyfloat \<Rightarrow> pyfloat" where
  "round2 (Finite x) = hundredths x (round_half_even (x * 100))"
| "round2 x = x"

text \<open>The quotient \<open>a / b\<close> of two numbers of values \<open>a\<close> and \<open>b\<close>, where it is finite.\<close>

definition float_div :: "rat \<Rightarrow> rat \<Rightarrow> rat" where
  "float_div a b = (case nearest_double (a / b) of Finite x \<Rightarrow> x | _ \<Rightarrow> 0)"

subsection \<open>Python values\<close>

datatype pyval = PNone | PBool bool | PInt int | PFloat pyfloat | PStr string

datatype error =
  AttributeError | TypeError | ValueError | OverflowError | JSONDecodeError

text \<open>
  The values \<open>json.loads\<close> returns. A \<open>JObj\<close> lists the items of a \<open>dict\<close> in order; a
  \<open>JNum\<close> is a number, of which the rules use the truth value only.
\<close>

datatype json =
  JNull | JBool bool | JNum pyfloat | JStr string | JArr "json list" | JObj "(string \<times> json) list"

text \<open>
  A \<open>datetime\<close>: \<open>wall\<close> is what its fields (year to microsecond) read, in microseconds
  since 0001-01-01T00:00:00; \<open>tzinfo\<close> is \<open>None\<close> for a naive value. \<open>FixedOffset\<close> carries the
  offset from UTC in microseconds.
\<close>

datatype tz = MX_TZ | FixedOffset int

record datetime =
  wall :: int
  tzinfo :: "tz option"

record pylib =
  ascii_fold :: "char \<Rightarrow> string"
    \<comment> \<open>the ASCII characters of the canonical decomposition (NFD) of one character\<close>
  upper_char :: "char \<Rightarrow> string"
    \<comment> \<open>\<open>str.upper\<close> of one character\<close>
  float_repr :: "pyfloat \<Rightarrow> string"
    \<comment> \<open>\<open>str\<close> of a float\<close>
  float_of_str :: "string \<Rightarrow> pyfloat option"
    \<comment> \<open>\<open>float\<close> of a string, \<open>"nan"\<close> and \<open>"inf"\<close> included; \<open>None\<close> is \<open>ValueError\<close>\<close>
  int_of_str :: "string \<Rightarrow> int option"
    \<comment> \<open>\<open>int\<close> of a string; \<open>None\<close> is \<open>ValueError\<close>\<close>
  date_fromisoformat :: "string \<Rightarrow> (int \<times> int \<times> int) option"
    \<comment> \<open>\<open>datetime.date.fromisoformat\<close>: year, month, day; \<open>None\<close> is \<open>ValueError\<close>\<close>
  json_loads :: "string \<Rightarrow> json option"
    \<comment> \<open>\<open>json.loads\<close> of a string; \<open>None\<close> is \<open>JSONDecodeError\<close>\<close>
  datetime_fromisoformat :: "string \<Rightarrow> datetime option"
    \<comment> \<open>\<open>datetime.datetime.fromisoformat\<close>; \<open>None\<close> is \<open>ValueError\<close>\<close>
  mx_utcoffset :: "int \<Rightarrow> int"
    \<comment> \<open>the offset of \<open>America/Mexico_City\<close> from UTC, in microseconds, at a UTC instant\<close>

text \<open>Truth value testing (\<open>if x\<close>, \<open>x or y\<close>, \<open>not x\<close>).\<close>

fun truthy :: "pyval \<Rightarrow> bool" where
  "truthy PNone = False"
| "truthy (PBool b) = b"
| "truthy (PInt i) = (i \<noteq> 0)"
| "truthy (PFloat x) = float_truthy x"
| "truthy (PStr s) = (s \<noteq> [])"

definition py_or :: "pyval \<Rightarrow> pyval \<Rightarrow> pyval" where
  "py_or a b = (if truthy a then a else b)"

fun jtruthy :: "json \<Rightarrow> bool" where
  "jtruthy JNull = False"
| "jtruthy (JBool b) = b"
| "jtruthy (JNum x) = float_truthy x"
| "jtruthy (JStr s) = (s \<noteq> [])"
| "jtruthy (JArr xs) = (xs \<noteq> [])"
| "jtruthy (JObj kvs) = (kvs \<noteq> [])"

definition jor :: "json \<Rightarrow> json \<Rightarrow> json" where
  "jor a b = (if jtruthy a then a else b)"

text \<open>\<open>d.get(k)\<close> on a dict: \<open>None\<close> for a missing key.\<close>

definition dict_get :: "(string \<rightharpoonup> pyval) \<Rightarrow> string \<Rightarrow> pyval" where
  "dict_get d k = (case d k of None \<Rightarrow> PNone | Some v \<Rightarrow> v)"

definition jget :: "(string \<times> json) list \<Rightarrow> string \<Rightarrow> json" where
  "jget kvs k = (case map_of kvs k of None \<Rightarrow> JNull | Some v \<Rightarrow> v)"

subsection \<open>Strings\<close>

text \<open>\<open>str.isspace\<close> on the code points below 256.\<close>

definition is_space :: "char \<Rightarrow> bool" where
  "is_space c =
     (let n = (of_char c :: int)
      in (9 \<le> n \<and> n \<le> 13) \<or> (28 \<le> n \<and> n \<le> 32) \<or> n = 133 \<or> n = 160)"

definition strip :: "string \<Rightarrow> string" where
  "strip s = rev (dropWhile is_space (rev (dropWhile is_space s)))"

text \<open>\<open>str.lower\<close>: on the code points below 256 it maps A-Z and the capital letters
  0xC0-0xDE (but the multiplication sign 0xD7) 32 places up.\<close>

definition lower_char :: "char \<Rightarrow> char" where
  "lower_char c =
     (let n = (of_char c :: int)
      in if (65 \<le> n \<and> n \<le> 90) \<or> (192 \<le> n \<and> n \<le> 222 \<and> n \<noteq> 215)
         then char_of (n + 32) else c)"

definition str_lower :: "string \<Rightarrow> string" where
  "str_lower s = map lower_char s"

definition str_upper :: "pylib \<Rightarrow> string \<Rightarrow> string" where
  "str_upper L s = concat (map (upper_char L) s)"

definition startswith :: "string \<Rightarrow> string \<Rightarrow> bool" where
  "startswith s p = (take (length p) s = p)"

definition endswith :: "string \<Rightarrow> string \<Rightarrow> bool" where
  "endswith s p = (length p \<le> length s \<and> drop (length s - length p) s = p)"

text \<open>\<open>str\<close> of an \<open>int\<close>: the decimal digits, after a minus sign when it is negative.\<close>

function show_digits :: "int \<Rightarrow> string" where
  "show_digits n =
     (if n < 10 then [char_of (48 + n)]
      else show_digits (n div 10) @ [char_of (48 + n mod 10)])"
  by pat_completeness auto
termination
  by (relation "measure nat") auto

declare show_digits.simps [simp del]

definition show_int :: "int \<Rightarrow> string" where
  "show_int i = (if i < 0 then CHR ''-'' # show_digits (- i) else show_digits i)"

text \<open>\<open>str(x)\<close>.\<close>

fun py_str :: "pylib \<Rightarrow> pyval \<Rightarrow> string" where
  "py_str L PNone = ''None''"
| "py_str L (PBool b) = (if b then ''True'' else ''False'')"
| "py_str L (PInt i) = show_int i"
| "py_str L (PFloat x) = float_repr L x"
| "py_str L (PStr s) = s"

text \<open>
  \<open>_slug\<close>: \<open>unicodedata.normalize("NFD", text).encode("ascii", "ignore").decode()
  .replace(" ", "").lower()\<close>. Canonical decomposition followed by dropping what is not ASCII
  works character by character.
\<close>

definition slug :: "pylib \<Rightarrow> string \<Rightarrow> string" where
  "slug L text = str_lower (filter (\<lambda>c. c \<noteq> CHR '' '') (concat (map (ascii_fold L) text)))"

subsection \<open>Dates\<close>

definition pad_int :: "nat \<Rightarrow> int \<Rightarrow> string" where
  "pad_int w n = replicate (w - length (show_digits n)) CHR ''0'' @ show_digits n"

text \<open>\<open>date.isoformat()\<close>: \<open>"%04d-%02d-%02d"\<close>.\<close>

definition date_isoformat :: "int \<times> int \<times> int \<Rightarrow> string" where
  "date_isoformat ymd =
     (case ymd of (y, m, d) \<Rightarrow> pad_int 4 y @ ''-'' @ pad_int 2 m @ ''-'' @ pad_int 2 d)"

text \<open>
  \<open>_iso\<close>. The slice \<open>d[:10]\<close> and the parse are inside the \<open>try\<close>: a value that is not a
  string, or a string that does not parse, comes back unchanged.
\<close>

definition iso :: "pylib \<Rightarrow> pyval \<Rightarrow> pyval" where
  "iso L d =
     (if \<not> truthy d then PNone
      else (case d of
              PStr s \<Rightarrow>
                (case date_fromisoformat L (take 10 s) of
                   Some ymd \<Rightarrow> PStr (date_isoformat ymd)
                 | None \<Rightarrow> d)
            | _ \<Rightarrow> d))"

subsection \<open>Signature\<close>

text \<open>
  \<open>float(val)\<close>. An \<open>int\<close> becomes the double nearest to it and raises \<open>OverflowError\<close> when
  that is no finite double; a float is returned as it is, NaN and the infinities too.
\<close>

fun py_float :: "pylib \<Rightarrow> pyval \<Rightarrow> error + pyfloat" where
  "py_float L PNone = Inl TypeError"
| "py_float L (PBool b) = Inr (Finite (if b then 1 else 0))"
| "py_float L (PInt i) =
     (case nearest_double (of_int i) of
        PosInf \<Rightarrow> Inl OverflowError
      | NegInf \<Rightarrow> Inl OverflowError
      | x \<Rightarrow> Inr x)"
| "py_float L (PFloat x) = Inr x"
| "py_float L (PStr s) = (case float_of_str L s of None \<Rightarrow> Inl ValueError | Some x \<Rightarrow> Inr x)"

text \<open>
  \<open>_coerce_total\<close>: \<open>0.0\<close> when \<open>float\<close> raises. \<open>round\<close> with two places raises on no
  float, so a total that \<open>float\<close> reads as NaN or as an infinity stays what it is.
\<close>

definition coerce_total :: "pylib \<Rightarrow> pyval \<Rightarrow> pyfloat" where
  "coerce_total L val = (case py_float L val of Inl e \<Rightarrow> Finite 0 | Inr x \<Rightarrow> round2 x)"

type_synonym signature = "pyval \<times> string \<times> pyfloat \<times> string"

text \<open>
  \<open>_make_signature\<close>. \<open>(rfc or "").strip()\<close> raises \<open>AttributeError\<close> when \<open>rfc\<close> is a truthy
  value that is not a string.
\<close>

definition make_signature ::
  "pylib \<Rightarrow> pyval \<Rightarrow> pyval \<Rightarrow> pyval \<Rightarrow> pyval \<Rightarrow> error + signature" where
  "make_signature L date rfc total_val cfdi =
     (case py_or rfc (PStr []) of
        PStr r \<Rightarrow>
          Inr (py_or (iso L (py_or date (PStr []))) (PStr []),
               str_upper L (strip r),
               coerce_total L total_val,
               strip (py_str L (py_or cfdi (PStr []))))
      | _ \<Rightarrow> Inl AttributeError)"


text \<open>
  Keys of a \<open>dict\<close> are compared with \<open>==\<close>, which identifies \<open>True\<close> with \<open>1\<close>, an \<open>int\<close>
  with the \<open>float\<close> of the same value and \<open>-0.0\<close> with \<open>0.0\<close>. \<open>sig_key\<close> is the signature as
  the key of \<open>sig_to_row\<close>: a number in it is stored by its value.
\<close>

fun float_key :: "pyfloat \<Rightarrow> pyfloat" where
  "float_key NegZero = Finite 0"
| "float_key x = x"

fun py_key :: "pyval \<Rightarrow> pyval" where
  "py_key (PBool b) = PFloat (Finite (if b then 1 else 0))"
| "py_key (PInt i) = PFloat (Finite (of_int i))"
| "py_key (PFloat x) = PFloat (float_key x)"
| "py_key v = v"

definition sig_key :: "signature \<Rightarrow> signature" where
  "sig_key sg = (case sg of (d, r, t, c) \<Rightarrow> (py_key d, r, float_key t, c))"

text \<open>
  A signature is a new tuple at every call: its total is a new float, and a date that is a
  NaN is the object of one field, of a row or of an invoice. \<open>mark_nan_sig who\<close> names the
  NaN objects of a signature after the owner of the call, so that no key of one owner that
  holds a NaN equals a key of another.
\<close>

fun mark_nan_float :: "int option \<Rightarrow> pyfloat \<Rightarrow> pyfloat" where
  "mark_nan_float who (NaN i) = NaN who"
| "mark_nan_float who x = x"

fun mark_nan :: "int option \<Rightarrow> pyval \<Rightarrow> pyval" where
  "mark_nan who (PFloat x) = PFloat (mark_nan_float who x)"
| "mark_nan who v = v"

definition mark_nan_sig :: "int option \<Rightarrow> signature \<Rightarrow> signature" where
  "mark_nan_sig who sg = (case sg of (d, r, t, c) \<Rightarrow> (mark_nan who d, r, mark_nan_float who t, c))"

text \<open>
  \<open>a == b\<close> on two different objects: on floats, on scalars, and on the signatures of two
  calls (whose dates, where they are floats, are two objects, as those of a row and of an
  invoice are).
\<close>

fun is_nan :: "pyfloat \<Rightarrow> bool" where
  "is_nan (NaN i) = True"
| "is_nan x = False"

definition float_eq :: "pyfloat \<Rightarrow> pyfloat \<Rightarrow> bool" where
  "float_eq a b = (\<not> is_nan a \<and> \<not> is_nan b \<and> float_key a = float_key b)"

fun py_eq :: "pyval \<Rightarrow> pyval \<Rightarrow> bool" where
  "py_eq (PFloat a) (PFloat b) = float_eq a b"
| "py_eq a b = (py_key a = py_key b)"

definition sig_eq :: "signature \<Rightarrow> signature \<Rightarrow> bool" where
  "sig_eq a b =
     (case a of (d, r, t, c) \<Rightarrow>
        (case b of (d', r', t', c') \<Rightarrow> py_eq d d' \<and> r = r' \<and> float_eq t t' \<and> c = c'))"

text \<open>A signature holds a NaN, as its total or as a date that is no string.\<close>

definition sig_has_nan :: "signature \<Rightarrow> bool" where
  "sig_has_nan sg =
     (case sg of (d, r, t, c) \<Rightarrow> is_nan t \<or> (case d of PFloat x \<Rightarrow> is_nan x | _ \<Rightarrow> False))"

subsection \<open>Sheets\<close>

record cell =
  column_id :: int
  cvalue :: pyval
  display_value :: pyval

record row =
  row_id :: int
  cells :: "cell list"

record column =
  col_id :: int
  title :: string

record sheet =
  columns :: "column list"
  rows :: "row list"

text \<open>An identifier looked up in a dict is used when it is truthy: not \<open>None\<close> and not 0.\<close>

definition truthy_id :: "int option \<Rightarrow> bool" where
  "truthy_id x = (case x of None \<Rightarrow> False | Some n \<Rightarrow> n \<noteq> 0)"

text \<open>\<open>col_map = {_slug(c.title): c.id for c in dest_sheet.columns}\<close>\<close>

definition col_map :: "pylib \<Rightarrow> column list \<Rightarrow> (string \<rightharpoonup> int)" where
  "col_map L cols = foldl (\<lambda>m c. m(slug L (title c) \<mapsto> col_id c)) Map.empty cols"

subsection \<open>Mapping rules\<close>

definition default_rules :: json where
  "default_rules =
     JObj [(''UUID'', JStr ''UUID''),
           (''Date'', JStr (''Fecha emisi'' @ [CHR 0xF3] @ ''n'')),
           (''RFC'', JStr ''RFC Receptor''),
           (''Total'', JStr ''Total''),
           (''CFDIUse'', JStr ''Tipo CFDI'')]"

text \<open>
  The body of the \<open>try\<close>:
  \<open>(json.loads(rules_json).get("map") if rules_json else {}) or default_rules\<close>.
  \<open>json.loads\<close> of a value that is not a string raises \<open>TypeError\<close>, \<open>.get\<close> on a value that
  is not a dict raises \<open>AttributeError\<close>.
\<close>

definition load_rules :: "pylib \<Rightarrow> pyval \<Rightarrow> error + json" where
  "load_rules L rules_json =
     (if truthy rules_json then
        (case rules_json of
           PStr s \<Rightarrow>
             (case json_loads L s of
                None \<Rightarrow> Inl JSONDecodeError
              | Some j \<Rightarrow>
                  (case j of
                     JObj kvs \<Rightarrow> Inr (jor (jget kvs ''map'') default_rules)
                   | _ \<Rightarrow> Inl AttributeError))
         | _ \<Rightarrow> Inl TypeError)
      else Inr (jor (JObj []) default_rules))"

text \<open>The \<open>try\<close> with its \<open>except Exception\<close>: any exception gives the default rules.\<close>

definition resolve_rules :: "pylib \<Rightarrow> pyval \<Rightarrow> error + json" where
  "resolve_rules L rules_json =
     (case load_rules L rules_json of Inl e \<Rightarrow> Inr default_rules | Inr rules \<Rightarrow> Inr rules)"

text \<open>
  \<open>slug_rules = {src: _slug(dst) for src, dst in rules.items()}\<close> raises \<open>AttributeError\<close>
  when \<open>rules\<close> is not a dict and \<open>TypeError\<close> at the first destination that is not a string.
  \<open>rule_items\<close> is \<open>rules.items()\<close> once that line has passed.
\<close>

fun rule_pairs :: "(string \<times> json) list \<Rightarrow> error + (string \<times> string) list" where
  "rule_pairs [] = Inr []"
| "rule_pairs ((src, dst) # kvs) =
     (case dst of
        JStr s \<Rightarrow> (case rule_pairs kvs of Inl e \<Rightarrow> Inl e | Inr ps \<Rightarrow> Inr ((src, s) # ps))
      | _ \<Rightarrow> Inl TypeError)"

definition rule_items :: "json \<Rightarrow> error + (string \<times> string) list" where
  "rule_items rules = (case rules of JObj kvs \<Rightarrow> rule_pairs kvs | _ \<Rightarrow> Inl AttributeError)"

text \<open>
  The rules of a run: the \<open>try\<close> and the line after it together. \<open>Inr\<close> holds the items of
  \<open>rules\<close>, \<open>Inl\<close> the exception that leaves \<open>_push_to_sheet\<close>.
\<close>

definition mapping_rules :: "pylib \<Rightarrow> pyval \<Rightarrow> error + (string \<times> string) list" where
  "mapping_rules L rules_json =
     (case resolve_rules L rules_json of Inl e \<Rightarrow> Inl e | Inr rules \<Rightarrow> rule_items rules)"

text \<open>\<open>slug_rules.get(k, "")\<close>\<close>

definition slug_rule :: "pylib \<Rightarrow> (string \<times> string) list \<Rightarrow> string \<Rightarrow> string" where
  "slug_rule L rules k = (case map_of rules k of None \<Rightarrow> [] | Some dst \<Rightarrow> slug L dst)"

subsection \<open>Indexing the destination sheet\<close>

text \<open>\<open>cid and c.column_id == cid\<close>\<close>

definition col_match :: "int option \<Rightarrow> cell \<Rightarrow> bool" where
  "col_match cid c = (truthy_id cid \<and> cid = Some (column_id c))"

text \<open>One cell of a row: the body of \<open>for c in r.cells\<close>, on \<open>(row_uuid, sig_vals)\<close>.\<close>

definition scan_cell ::
  "pylib \<Rightarrow> int option \<Rightarrow> int option list \<Rightarrow> string option \<times> pyval list \<Rightarrow> cell
     \<Rightarrow> string option \<times> pyval list" where
  "scan_cell L uuid_col_id sig_cols st c =
     (case st of (row_uuid, sig_vals) \<Rightarrow>
        (if col_match uuid_col_id c \<and> truthy (cvalue c)
         then Some (strip (py_str L (cvalue c))) else row_uuid,
         map (\<lambda>(cid, v). if col_match cid c then py_or (display_value c) (cvalue c) else v)
           (zip sig_cols sig_vals)))"

definition scan_row ::
  "pylib \<Rightarrow> int option \<Rightarrow> int option list \<Rightarrow> row \<Rightarrow> string option \<times> pyval list" where
  "scan_row L uuid_col_id sig_cols r =
     foldl (scan_cell L uuid_col_id sig_cols) (None, [PNone, PNone, PNone, PNone]) (cells r)"

text \<open>\<open>sig = _make_signature(*sig_vals)\<close>, the signature of a row of the sheet.\<close>

definition row_signature ::
  "pylib \<Rightarrow> int option \<Rightarrow> int option list \<Rightarrow> row \<Rightarrow> error + signature" where
  "row_signature L uuid_col_id sig_cols r =
     (let sig_vals = snd (scan_row L uuid_col_id sig_cols r)
      in case make_signature L (sig_vals ! 0) (sig_vals ! 1) (sig_vals ! 2) (sig_vals ! 3) of
           Inl e \<Rightarrow> Inl e
         | Inr sg \<Rightarrow> Inr (mark_nan_sig (Some (row_id r)) sg))"

type_synonym uuid_index = "string \<rightharpoonup> int"
type_synonym sig_index = "signature \<rightharpoonup> int"

text \<open>One row: the body of \<open>for r in dest_sheet.rows\<close>, on \<open>(uuid_to_row, sig_to_row)\<close>.\<close>

definition index_row ::
  "pylib \<Rightarrow> int option \<Rightarrow> int option list \<Rightarrow> uuid_index \<times> sig_index \<Rightarrow> row
     \<Rightarrow> error + uuid_index \<times> sig_index" where
  "index_row L uuid_col_id sig_cols ix r =
     (case ix of (uuid_to_row, sig_to_row) \<Rightarrow>
        (let row_uuid = fst (scan_row L uuid_col_id sig_cols r);
             uuid_to_row' =
               (case row_uuid of
                  None \<Rightarrow> uuid_to_row
                | Some u \<Rightarrow> if u \<noteq> [] then uuid_to_row(u \<mapsto> row_id r) else uuid_to_row)
         in case row_signature L uuid_col_id sig_cols r of
              Inl e \<Rightarrow> Inl e
            | Inr sg \<Rightarrow> Inr (uuid_to_row', sig_to_row(sig_key sg \<mapsto> row_id r))))"

fun index_rows ::
  "pylib \<Rightarrow> int option \<Rightarrow> int option list \<Rightarrow> uuid_index \<times> sig_index \<Rightarrow> row list
     \<Rightarrow> error + uuid_index \<times> sig_index" where
  "index_rows L uuid_col_id sig_cols ix [] = Inr ix"
| "index_rows L uuid_col_id sig_cols ix (r # rs) =
     (case index_row L uuid_col_id sig_cols ix r of
        Inl e \<Rightarrow> Inl e
      | Inr ix' \<Rightarrow> index_rows L uuid_col_id sig_cols ix' rs)"

subsection \<open>Reconciliation\<close>

record out_cell =
  columnId :: int
  ovalue :: pyval

record insert_row =
  toBottom :: bool
  ins_cells :: "out_cell list"

record update_row =
  upd_id :: int
  upd_cells :: "out_cell list"

text \<open>The cells of one invoice: \<open>for src_key, dest_col in rules.items()\<close>.\<close>

fun build_cells ::
  "pylib \<Rightarrow> (string \<rightharpoonup> int) \<Rightarrow> (string \<rightharpoonup> pyval) \<Rightarrow> (string \<times> string) list
     \<Rightarrow> out_cell list" where
  "build_cells L cmap fac [] = []"
| "build_cells L cmap fac ((src_key, dest_col) # rules) =
     (case cmap (slug L dest_col) of
        None \<Rightarrow> build_cells L cmap fac rules
      | Some cid \<Rightarrow>
          if cid = 0 then build_cells L cmap fac rules
          else (let val = dict_get fac src_key
                in if val = PNone then build_cells L cmap fac rules
                   else \<lparr>columnId = cid,
                         ovalue = (if startswith (str_lower src_key) ''date''
                                   then iso L (PStr (py_str L val)) else val)\<rparr>
                        # build_cells L cmap fac rules))"

definition uuid_val :: "pylib \<Rightarrow> (string \<rightharpoonup> pyval) \<Rightarrow> string" where
  "uuid_val L fac = strip (py_str L (py_or (dict_get fac ''UUID'') (PStr [])))"

text \<open>\<open>sig_key = _make_signature(fac.get("Date"), ...)\<close>, the signature of an invoice.\<close>

definition fac_signature :: "pylib \<Rightarrow> (string \<rightharpoonup> pyval) \<Rightarrow> error + signature" where
  "fac_signature L fac =
     (case make_signature L (dict_get fac ''Date'') (dict_get fac ''RFC'')
             (dict_get fac ''Total'') (dict_get fac ''CFDIUse'') of
        Inl e \<Rightarrow> Inl e
      | Inr sg \<Rightarrow> Inr (mark_nan_sig None sg))"

text \<open>
  The row an invoice resolves to:
  \<open>row_id = None; if uuid_val: row_id = uuid_to_row.get(uuid_val);
  if not row_id: row_id = sig_to_row.get(sig_key)\<close>.
\<close>

definition resolve_row :: "uuid_index \<Rightarrow> sig_index \<Rightarrow> string \<Rightarrow> signature \<Rightarrow> int option" where
  "resolve_row uuid_to_row sig_to_row u sg =
     (let row_id = (if u \<noteq> [] then uuid_to_row u else None)
      in if \<not> truthy_id row_id then sig_to_row (sig_key sg) else row_id)"

text \<open>One invoice: the body of \<open>for fac in facturas\<close>, on \<open>(inserts, updates)\<close>.\<close>

definition classify ::
  "pylib \<Rightarrow> (string \<rightharpoonup> int) \<Rightarrow> (string \<times> string) list \<Rightarrow> uuid_index \<Rightarrow> sig_index
     \<Rightarrow> insert_row list \<times> update_row list \<Rightarrow> (string \<rightharpoonup> pyval)
     \<Rightarrow> error + insert_row list \<times> update_row list" where
  "classify L cmap rules uuid_to_row sig_to_row acc fac =
     (case acc of (inserts, updates) \<Rightarrow>
        (case fac_signature L fac of
           Inl e \<Rightarrow> Inl e
         | Inr sg \<Rightarrow>
             (let cs = build_cells L cmap fac rules
              in if cs = [] then Inr (inserts, updates)
                 else (case resolve_row uuid_to_row sig_to_row (uuid_val L fac) sg of
                         None \<Rightarrow> Inr (inserts @ [\<lparr>toBottom = True, ins_cells = cs\<rparr>], updates)
                       | Some rid \<Rightarrow>
                           if rid = 0
                           then Inr (inserts @ [\<lparr>toBottom = True, ins_cells = cs\<rparr>], updates)
                           else Inr (inserts, updates @ [\<lparr>upd_id = rid, upd_cells = cs\<rparr>])))))"

fun reconcile ::
  "pylib \<Rightarrow> (string \<rightharpoonup> int) \<Rightarrow> (string \<times> string) list \<Rightarrow> uuid_index \<Rightarrow> sig_index
     \<Rightarrow> insert_row list \<times> update_row list \<Rightarrow> (string \<rightharpoonup> pyval) list
     \<Rightarrow> error + insert_row list \<times> update_row list" where
  "reconcile L cmap rules uuid_to_row sig_to_row acc [] = Inr acc"
| "reconcile L cmap rules uuid_to_row sig_to_row acc (fac # facturas) =
     (case classify L cmap rules uuid_to_row sig_to_row acc fac of
        Inl e \<Rightarrow> Inl e
      | Inr acc' \<Rightarrow> reconcile L cmap rules uuid_to_row sig_to_row acc' facturas)"

text \<open>
  \<open>_push_to_sheet\<close>, up to the two batches it hands to \<open>_smartsheet_call\<close>. \<open>dest_sheet\<close> is
  \<open>None\<close> when the sheet could not be opened: the function logs and returns, nothing is
  written. The two REST calls that follow (POST the inserts, PUT the updates, each only for a
  batch that is not empty) are outside the model.
\<close>

definition push_to_sheet ::
  "pylib \<Rightarrow> sheet option \<Rightarrow> (string \<rightharpoonup> pyval) list \<Rightarrow> pyval
     \<Rightarrow> error + insert_row list \<times> update_row list" where
  "push_to_sheet L dest_sheet facturas rules_json =
     (case dest_sheet of
        None \<Rightarrow> Inr ([], [])
      | Some sh \<Rightarrow>
          (let cmap = col_map L (columns sh)
           in case resolve_rules L rules_json of
                Inl e \<Rightarrow> Inl e
              | Inr rules_j \<Rightarrow>
                  (case rule_items rules_j of
                     Inl e \<Rightarrow> Inl e
                   | Inr rules \<Rightarrow>
                       (let uuid_col_id = cmap (slug_rule L rules ''UUID'');
                            sig_cols = [cmap (slug_rule L rules ''Date''),
                                        cmap (slug_rule L rules ''RFC''),
                                        cmap (slug_rule L rules ''Total''),
                                        cmap (slug_rule L rules ''CFDIUse'')]
                        in case index_rows L uuid_col_id sig_cols (Map.empty, Map.empty) (rows sh) of
                             Inl e \<Rightarrow> Inl e
                           | Inr (uuid_to_row, sig_to_row) \<Rightarrow>
                               reconcile L cmap rules uuid_to_row sig_to_row ([], []) facturas))))"


subsection \<open>Scheduler\<close>

text \<open>The range of \<open>datetime\<close>: 0001-01-01 to 9999-12-31, 3652059 days.\<close>

definition max_wall :: int where
  "max_wall = 3652059 * 86400 * 1000000"

text \<open>
  \<open>dt.astimezone(MX_TZ)\<close> on an aware value: the same instant, read on the clock of Mexico
  City. \<open>OverflowError\<close> when the result leaves the range of \<open>datetime\<close>.
\<close>

definition astimezone_mx :: "pylib \<Rightarrow> datetime \<Rightarrow> int \<Rightarrow> error + datetime" where
  "astimezone_mx L dt off =
     (let utc = wall dt - off
      in if utc < 0 \<or> max_wall \<le> utc then Inl OverflowError
         else (let w = utc + mx_utcoffset L utc
               in if w < 0 \<or> max_wall \<le> w then Inl OverflowError
                  else Inr \<lparr>wall = w, tzinfo = Some MX_TZ\<rparr>))"

text \<open>
  \<open>_parse_iso\<close>. \<open>s.replace("Z", "")\<close> drops every \<open>Z\<close>. Everything after the first test is
  inside the \<open>try\<close>: a value without \<open>replace\<close>, a string that does not parse and an overflow
  all give \<open>None\<close>.
\<close>

definition parse_iso :: "pylib \<Rightarrow> pyval \<Rightarrow> datetime option" where
  "parse_iso L s =
     (if \<not> truthy s then None
      else (case s of
              PStr t \<Rightarrow>
                (case datetime_fromisoformat L (filter (\<lambda>c. c \<noteq> CHR ''Z'') t) of
                   None \<Rightarrow> None
                 | Some dt \<Rightarrow>
                     (case tzinfo dt of
                        None \<Rightarrow> Some (dt\<lparr>tzinfo := Some MX_TZ\<rparr>)
                      | Some MX_TZ \<Rightarrow> Some dt
                      | Some (FixedOffset off) \<Rightarrow>
                          (case astimezone_mx L dt off of Inl e \<Rightarrow> None | Inr dt' \<Rightarrow> Some dt')))
            | _ \<Rightarrow> None))"

text \<open>
  \<open>int(x)\<close>; a float is truncated towards zero, an infinity raises \<open>OverflowError\<close> and a
  NaN \<open>ValueError\<close>.
\<close>

fun int_of_float :: "pyfloat \<Rightarrow> error + int" where
  "int_of_float (Finite x) = Inr (if x < 0 then - \<lfloor>- x\<rfloor> else \<lfloor>x\<rfloor>)"
| "int_of_float NegZero = Inr 0"
| "int_of_float PosInf = Inl OverflowError"
| "int_of_float NegInf = Inl OverflowError"
| "int_of_float (NaN i) = Inl ValueError"

fun py_int :: "pylib \<Rightarrow> pyval \<Rightarrow> error + int" where
  "py_int L PNone = Inl TypeError"
| "py_int L (PBool b) = Inr (if b then 1 else 0)"
| "py_int L (PInt i) = Inr i"
| "py_int L (PFloat x) = int_of_float x"
| "py_int L (PStr s) = (case int_of_str L s of None \<Rightarrow> Inl ValueError | Some i \<Rightarrow> Inr i)"

text \<open>One cell of a configuration row: the body of \<open>for c in row.cells\<close>, on
  \<open>(intervalo, ult_ejec)\<close>.\<close>

definition job_cell ::
  "pylib \<Rightarrow> int option \<Rightarrow> int option \<Rightarrow> int \<times> datetime option \<Rightarrow> cell \<Rightarrow> int \<times> datetime option" where
  "job_cell L col_int col_last st c =
     (case st of (intervalo, ult_ejec) \<Rightarrow>
        (if col_int = Some (column_id c) \<and> cvalue c \<noteq> PNone
         then (case py_int L (cvalue c) of Inl e \<Rightarrow> 0 | Inr i \<Rightarrow> i) else intervalo,
         if col_last = Some (column_id c)
         then parse_iso L (py_or (cvalue c) (display_value c)) else ult_ejec))"

definition row_schedule ::
  "pylib \<Rightarrow> int option \<Rightarrow> int option \<Rightarrow> row \<Rightarrow> int \<times> datetime option" where
  "row_schedule L col_int col_last r = foldl (job_cell L col_int col_last) (0, None) (cells r)"

text \<open>
  \<open>(now_aware - ult_ejec).total_seconds() / 60\<close>. Both values carry \<open>MX_TZ\<close>, and Python
  subtracts two datetimes with the same \<open>tzinfo\<close> field by field, without their offsets.
  \<open>total_seconds\<close> divides the microseconds by \<open>10 ** 6\<close>; both quotients are floats.
\<close>

definition mins_between :: "datetime \<Rightarrow> datetime \<Rightarrow> rat" where
  "mins_between a b = float_div (float_div (of_int (wall a - wall b)) 1000000) 60"

datatype decision = Skipped | Due | Waiting

text \<open>
  The decision of \<open>_job_runner\<close> for one row at the UTC instant \<open>now\<close> (microseconds since
  0001-01-01): \<open>Skipped\<close> is the \<open>continue\<close> on an interval that is not positive, \<open>Due\<close> runs
  the cycle, \<open>Waiting\<close> only logs. \<open>fila_id\<close> and \<open>cliente\<close>, the identifier handed to the
  cycle and the name in the log, take no part in the decision and are left out.
\<close>

definition job_row :: "pylib \<Rightarrow> int option \<Rightarrow> int option \<Rightarrow> int \<Rightarrow> row \<Rightarrow> decision" where
  "job_row L col_int col_last now r =
     (case row_schedule L col_int col_last r of (intervalo, ult_ejec) \<Rightarrow>
        if intervalo \<le> 0 then Skipped
        else (let now_aware = \<lparr>wall = now + mx_utcoffset L now, tzinfo = Some MX_TZ\<rparr>;
                  mins_passed = map_option (mins_between now_aware) ult_ejec
              in case mins_passed of
                   None \<Rightarrow> Due
                 | Some m \<Rightarrow> if of_int intervalo \<le> m then Due else Waiting))"

text \<open>The rows of the configuration sheet, in order, each with its decision.\<close>

definition job_tick :: "pylib \<Rightarrow> sheet \<Rightarrow> int \<Rightarrow> decision list" where
  "job_tick L sh now =
     (let col_ids = col_map L (columns sh);
          col_int = col_ids (slug L ''Intervalo (minutos)'');
          col_last = col_ids (slug L ''Ultima ejecucion'')
      in map (job_row L col_int col_last now) (rows sh))"

subsection \<open>Fetch aggregator\<close>

text \<open>\<open>sub in s\<close> and \<open>s.replace(old, new)\<close> for strings.\<close>

fun contains :: "string \<Rightarrow> string \<Rightarrow> bool" where
  "contains [] sub = (sub = [])"
| "contains (c # s) sub = (startswith (c # s) sub \<or> contains s sub)"

function str_replace :: "string \<Rightarrow> string \<Rightarrow> string \<Rightarrow> string" where
  "str_replace old new s =
     (if old = [] \<or> s = [] then s
      else if startswith s old then new @ str_replace old new (drop (length old) s)
      else hd s # str_replace old new (tl s))"
  by pat_completeness auto
termination
  by (relation "measure (\<lambda>(old, new, s). length s)") auto

declare str_replace.simps [simp del]

text \<open>An exception that reaches \<open>asyncio.gather\<close> or the caller.\<close>

datatype exn = Py error | ConnectError | ReadTimeout | HTTPStatusError int

text \<open>What the loop over the configuration rows keeps for an account it attempts: its label
  (\<open>etiquetas\<close>), its \<open>metas\<close> entry, and the arguments of its \<open>bind_get_all\<close> task.\<close>

record task =
  etiqueta :: pyval
  meta_dest_sheet :: pyval
  meta_rules :: pyval
  task_url :: string
  task_token :: pyval
  task_filtro :: string

text \<open>The two rewrites of the base URL.\<close>

definition fix_url :: "string \<Rightarrow> string" where
  "fix_url base_url =
     (let u = (if endswith (str_lower base_url) ''/invoices''
               then take (length base_url - 8) base_url @ ''Invoices'' else base_url)
      in if contains u ''/v1/'' \<and> \<not> contains u ''/api/'' then str_replace ''/v1/'' ''/api/'' u
         else u)"

text \<open>
  One configuration row: the body of \<open>for row in cfg\<close>. \<open>None\<close> is a row passed over
  (\<open>continue\<close>); \<open>.strip()\<close> and \<open>.lower()\<close> raise \<open>AttributeError\<close> on a value that is not
  a string.
\<close>

definition prepare_row :: "pylib \<Rightarrow> pyval \<Rightarrow> (string \<rightharpoonup> pyval) \<Rightarrow> error + task option" where
  "prepare_row L id_fila row =
     (if truthy id_fila \<and> \<not> py_eq (dict_get row ''ID'') id_fila then Inr None
      else (let tok = dict_get row ''API Token'';
                base_url = py_or (dict_get row ''API URL'')
                             (PStr ''https://api.bind.com.mx/api/Invoices'')
            in case py_or (dict_get row ''Filtro'') (PStr []) of
                 PStr f \<Rightarrow>
                   (let cliente = py_or (dict_get row ''Cliente'')
                                    (PStr (''ID-'' @ py_str L (dict_get row ''ID'')))
                    in if \<not> truthy tok then Inr None
                       else (case base_url of
                               PStr u \<Rightarrow>
                                 Inr (Some \<lparr>etiqueta = cliente,
                                            meta_dest_sheet = dict_get row ''Hoja destino ID'',
                                            meta_rules = dict_get row ''Reglas JSON'',
                                            task_url = fix_url u, task_token = tok,
                                            task_filtro = strip f\<rparr>)
                             | _ \<Rightarrow> Inl AttributeError))
               | _ \<Rightarrow> Inl AttributeError))"

text \<open>
  The loop over the configuration rows, from row number \<open>i\<close> on. A label is the object of a
  cell of its row: one that is a NaN is named after the row, since it is a key of the result.
\<close>

fun prepare_rows_from ::
  "int \<Rightarrow> pylib \<Rightarrow> pyval \<Rightarrow> (string \<rightharpoonup> pyval) list \<Rightarrow> error + task list" where
  "prepare_rows_from i L id_fila [] = Inr []"
| "prepare_rows_from i L id_fila (row # cfg) =
     (case prepare_row L id_fila row of
        Inl e \<Rightarrow> Inl e
      | Inr None \<Rightarrow> prepare_rows_from (i + 1) L id_fila cfg
      | Inr (Some t) \<Rightarrow>
          (case prepare_rows_from (i + 1) L id_fila cfg of
             Inl e \<Rightarrow> Inl e
           | Inr ts \<Rightarrow> Inr (t\<lparr>etiqueta := mark_nan (Some i) (etiqueta t)\<rparr> # ts)))"

definition prepare_rows ::
  "pylib \<Rightarrow> pyval \<Rightarrow> (string \<rightharpoonup> pyval) list \<Rightarrow> error + task list" where
  "prepare_rows L id_fila cfg = prepare_rows_from 0 L id_fila cfg"

text \<open>
  The push loop: an account whose fetch failed is passed over, one without a destination
  sheet too; an exception of \<open>_push_to_sheet\<close> is not caught. \<open>push\<close> is the awaited call
  with its REST traffic: \<open>None\<close> when it returns, the exception when it raises.
\<close>

fun push_all ::
  "(pyval \<Rightarrow> (string \<rightharpoonup> pyval) list \<Rightarrow> pyval \<Rightarrow> pyval \<Rightarrow> exn option)
     \<Rightarrow> (task \<times> (exn + (string \<rightharpoonup> pyval) list)) list \<Rightarrow> exn option" where
  "push_all push [] = None"
| "push_all push ((t, res) # rest) =
     (case res of
        Inl e \<Rightarrow> push_all push rest
      | Inr data \<Rightarrow>
          if truthy (meta_dest_sheet t)
          then (case push (meta_dest_sheet t) data (meta_rules t) (etiqueta t) of
                  Some e \<Rightarrow> Some e
                | None \<Rightarrow> push_all push rest)
          else push_all push rest)"

datatype entry = Captured exn | Count nat

definition result_entry :: "exn + (string \<rightharpoonup> pyval) list \<Rightarrow> entry" where
  "result_entry res = (case res of Inl e \<Rightarrow> Captured e | Inr data \<Rightarrow> Count (length data))"

text \<open>
  \<open>_traer_facturas_por_empresas\<close> on the rows \<open>cfg\<close> that \<open>bind_config\<close> returned. \<open>fetch\<close> is
  what the task \<open>bind_get_all(base_url, token, filtro)\<close> ends with under
  \<open>gather(..., return_exceptions=True)\<close>: its list of invoices or its exception. The result
  is the dict \<open>{etiquetas[i]: ...}\<close>, built in the order of the accounts.
\<close>

definition traer_facturas_por_empresas ::
  "pylib \<Rightarrow> (string \<Rightarrow> pyval \<Rightarrow> string \<Rightarrow> exn + (string \<rightharpoonup> pyval) list)
     \<Rightarrow> (pyval \<Rightarrow> (string \<rightharpoonup> pyval) list \<Rightarrow> pyval \<Rightarrow> pyval \<Rightarrow> exn option)
     \<Rightarrow> (string \<rightharpoonup> pyval) list \<Rightarrow> pyval \<Rightarrow> bool \<Rightarrow> exn + (pyval \<rightharpoonup> entry)" where
  "traer_facturas_por_empresas L fetch push cfg id_fila push_mode =
     (case prepare_rows L id_fila cfg of
        Inl e \<Rightarrow> Inl (Py e)
      | Inr tasks \<Rightarrow>
          (let resultados = map (\<lambda>t. fetch (task_url t) (task_token t) (task_filtro t)) tasks
           in case (if push_mode then push_all push (zip tasks resultados) else None) of
                Some e \<Rightarrow> Inl e
              | None \<Rightarrow>
                  Inr (foldl (\<lambda>m (t, res). m(py_key (etiqueta t) \<mapsto> result_entry res))
                         Map.empty (zip tasks resultados))))"

subsection \<open>The destination store\<close>

text \<open>
  Modelled from the spec: the write side of the destination table (section 6, "write accepts
  a batch of either append records or row-id records"), which is the Smartsheet service and
  not part of \<open>main.py\<close>. A written cell holds the value sent; \<open>render\<close> is the display value
  the store derives from it. An appended row gets the next identifier of \<open>ids\<close>; an update
  overwrites the cells it names in the row with its identifier, later entries of a batch
  after earlier ones. The inserts are sent first, then the updates, as \<open>_push_to_sheet\<close> does.
\<close>

definition set_cell :: "(pyval \<Rightarrow> pyval) \<Rightarrow> out_cell \<Rightarrow> cell list \<Rightarrow> cell list" where
  "set_cell render oc cs =
     (if \<exists>c\<in>set cs. column_id c = columnId oc
      then map (\<lambda>c. if column_id c = columnId oc
                     then c\<lparr>cvalue := ovalue oc, display_value := render (ovalue oc)\<rparr> else c) cs
      else cs @ [\<lparr>column_id = columnId oc, cvalue = ovalue oc,
                  display_value = render (ovalue oc)\<rparr>])"

definition write_cells :: "(pyval \<Rightarrow> pyval) \<Rightarrow> out_cell list \<Rightarrow> cell list \<Rightarrow> cell list" where
  "write_cells render ocs cs = foldl (\<lambda>cs oc. set_cell render oc cs) cs ocs"

definition apply_update :: "(pyval \<Rightarrow> pyval) \<Rightarrow> update_row \<Rightarrow> row list \<Rightarrow> row list" where
  "apply_update render u rs =
     map (\<lambda>r. if row_id r = upd_id u
               then r\<lparr>cells := write_cells render (upd_cells u) (cells r)\<rparr> else r) rs"

definition apply_updates :: "(pyval \<Rightarrow> pyval) \<Rightarrow> update_row list \<Rightarrow> row list \<Rightarrow> row list" where
  "apply_updates render us rs = foldl (\<lambda>rs u. apply_update render u rs) rs us"

definition apply_inserts ::
  "(pyval \<Rightarrow> pyval) \<Rightarrow> int list \<Rightarrow> insert_row list \<Rightarrow> row list \<Rightarrow> row list" where
  "apply_inserts render ids ins rs =
     rs @ map (\<lambda>(i, n). \<lparr>row_id = i, cells = write_cells render (ins_cells n) []\<rparr>) (zip ids ins)"

definition after_push ::
  "(pyval \<Rightarrow> pyval) \<Rightarrow> int list \<Rightarrow> insert_row list \<times> update_row list \<Rightarrow> sheet \<Rightarrow> sheet" where
  "after_push render ids batches sh =
     sh\<lparr>rows := apply_updates render (snd batches)
                   (apply_inserts render ids (fst batches) (rows sh))\<rparr>"

subsection \<open>Calendar\<close>

definition is_leap :: "int \<Rightarrow> bool" where
  "is_leap y = (y mod 4 = 0 \<and> (y mod 100 \<noteq> 0 \<or> y mod 400 = 0))"

definition days_in_month :: "int \<Rightarrow> int \<Rightarrow> int" where
  "days_in_month y m =
     (if m = 2 then (if is_leap y then 29 else 28)
      else if m = 4 \<or> m = 6 \<or> m = 9 \<or> m = 11 then 30 else 31)"

definition days_before_year :: "int \<Rightarrow> int" where
  "days_before_year y = (y - 1) * 365 + (y - 1) div 4 - (y - 1) div 100 + (y - 1) div 400"

definition days_before_month :: "int \<Rightarrow> int \<Rightarrow> int" where
  "days_before_month y m = sum_list (map (days_in_month y) [1..m - 1])"

text \<open>The UTC instant of a date and a time of day, in microseconds since 0001-01-01.\<close>

definition instant :: "int \<Rightarrow> int \<Rightarrow> int \<Rightarrow> int \<Rightarrow> int \<Rightarrow> int \<Rightarrow> int" where
  "instant y m d hh mm ss =
     ((days_before_year y + days_before_month y m + d - 1) * 86400 + hh * 3600 + mm * 60 + ss)
       * 1000000"

text \<open>The date of a day number (days since 0001-01-01), as \<open>datetime\<close> computes it.\<close>

definition ord2ymd :: "int \<Rightarrow> int \<times> int \<times> int" where
  "ord2ymd n0 =
     (let n400 = n0 div 146097; na = n0 mod 146097;
          n100 = na div 36524; nb = na mod 36524;
          n4 = nb div 1461; nc = nb mod 1461;
          n1 = nc div 365; n = nc mod 365;
          y = n400 * 400 + 1 + n100 * 100 + n4 * 4 + n1
      in if n1 = 4 \<or> n100 = 4 then (y - 1, 12, 31)
         else (let m = (n + 50) div 32;
                   p = days_before_month y m
               in if n < p then (y, m - 1, n - (p - days_in_month y (m - 1)) + 1)
                  else (y, m, n - p + 1)))"

text \<open>
  \<open>_actualizar_timestamps\<close>: the two strings it writes to the columns of the last and the
  next execution, for the UTC instant \<open>now\<close> cut to whole seconds:
  \<open>isoformat().replace("+00:00", "Z")\<close> of that instant and of it plus the interval.
\<close>

definition utc_isoformat_z :: "int \<Rightarrow> string" where
  "utc_isoformat_z t =
     (let secs = t div 1000000; day = secs div 86400; s = secs mod 86400
      in date_isoformat (ord2ymd day) @ ''T'' @ pad_int 2 (s div 3600) @ '':''
         @ pad_int 2 (s mod 3600 div 60) @ '':'' @ pad_int 2 (s mod 60) @ ''Z'')"

definition actualizar_timestamps :: "int \<Rightarrow> int \<Rightarrow> string \<times> string" where
  "actualizar_timestamps now intervalo_minutos =
     (let ahora_dt = now div 1000000 * 1000000
      in (utc_isoformat_z ahora_dt, utc_isoformat_z (ahora_dt + intervalo_minutos * 60000000)))"

subsection \<open>Notions used to state the properties\<close>

text \<open>The cells \<open>_push_to_sheet\<close> maps an invoice to, from the sheet's columns and the rules.\<close>

definition mapped_cells :: "pylib \<Rightarrow> sheet \<Rightarrow> pyval \<Rightarrow> (string \<rightharpoonup> pyval) \<Rightarrow> out_cell list" where
  "mapped_cells L sh rules_json fac =
     (case resolve_rules L rules_json of
        Inl e \<Rightarrow> []
      | Inr rules_j \<Rightarrow>
          (case rule_items rules_j of
             Inl e \<Rightarrow> []
           | Inr rules \<Rightarrow> build_cells L (col_map L (columns sh)) fac rules))"

text \<open>The items of the rules \<open>_push_to_sheet\<close> works with.\<close>

definition push_rules :: "pylib \<Rightarrow> pyval \<Rightarrow> (string \<times> string) list" where
  "push_rules L rules_json =
     (case resolve_rules L rules_json of
        Inl e \<Rightarrow> []
      | Inr rules_j \<Rightarrow> (case rule_items rules_j of Inl e \<Rightarrow> [] | Inr rules \<Rightarrow> rules))"

text \<open>The row an invoice is written to as an update, \<open>None\<close> when it is inserted.\<close>

definition target_row ::
  "pylib \<Rightarrow> uuid_index \<Rightarrow> sig_index \<Rightarrow> (string \<rightharpoonup> pyval) \<Rightarrow> int option" where
  "target_row L uuid_to_row sig_to_row fac =
     (case fac_signature L fac of
        Inl e \<Rightarrow> None
      | Inr sg \<Rightarrow>
          (case resolve_row uuid_to_row sig_to_row (uuid_val L fac) sg of
             None \<Rightarrow> None
           | Some rid \<Rightarrow> if rid = 0 then None else Some rid))"

text \<open>A row has signature key \<open>k\<close>; a row has identity \<open>u\<close>.\<close>

definition has_sig :: "pylib \<Rightarrow> int option \<Rightarrow> int option list \<Rightarrow> signature \<Rightarrow> row \<Rightarrow> bool" where
  "has_sig L uuid_col_id sig_cols k r =
     (case row_signature L uuid_col_id sig_cols r of
        Inl e \<Rightarrow> False
      | Inr sg \<Rightarrow> sig_key sg = k)"

definition has_uuid :: "pylib \<Rightarrow> int option \<Rightarrow> int option list \<Rightarrow> string \<Rightarrow> row \<Rightarrow> bool" where
  "has_uuid L uuid_col_id sig_cols u r =
     (u \<noteq> [] \<and> fst (scan_row L uuid_col_id sig_cols r) = Some u)"

text \<open>The identifier of the last row of a list that satisfies \<open>P\<close>.\<close>

definition last_row_id :: "(row \<Rightarrow> bool) \<Rightarrow> row list \<Rightarrow> int option" where
  "last_row_id P rs = (case rev (filter P rs) of [] \<Rightarrow> None | r # _ \<Rightarrow> Some (row_id r))"

text \<open>A list of cells has a cell in column \<open>cid\<close>, and every such cell holds \<open>v\<close>.\<close>

definition column_holds :: "int \<Rightarrow> pyval \<Rightarrow> cell list \<Rightarrow> bool" where
  "column_holds cid v cs =
     ((\<exists>c\<in>set cs. column_id c = cid) \<and> (\<forall>c\<in>set cs. column_id c = cid \<longrightarrow> cvalue c = v))"

text \<open>The cell of a row in a column: the last one, should the row list several.\<close>

definition cell_of :: "int option \<Rightarrow> row \<Rightarrow> cell option" where
  "cell_of col r =
     (case rev (filter (\<lambda>c. col = Some (column_id c)) (cells r)) of
        [] \<Rightarrow> None
      | c # _ \<Rightarrow> Some c)"

section \<open>An instance of the library\<close>

text \<open>
  \<open>sample_lib\<close> instantiates the library record so that the model can be run on examples.
  Each field accepts a plain subset of what CPython accepts and agrees with it there:
  decimal numerals with an optional sign and fraction, dates \<open>YYYY-MM-DD\<close>, the accented
  vowels and the n with tilde of Spanish, upper-casing of ASCII letters.
\<close>

definition is_digit :: "char \<Rightarrow> bool" where
  "is_digit c = (48 \<le> (of_char c :: int) \<and> (of_char c :: int) \<le> 57)"

definition int_of_digits :: "string \<Rightarrow> int option" where
  "int_of_digits s =
     (if s \<noteq> [] \<and> list_all is_digit s
      then Some (foldl (\<lambda>a c. 10 * a + (of_char c - 48)) 0 s) else None)"

definition sample_date :: "string \<Rightarrow> (int \<times> int \<times> int) option" where
  "sample_date s =
     (if length s = 10 \<and> s ! 4 = CHR ''-'' \<and> s ! 7 = CHR ''-'' then
        (case (int_of_digits (take 4 s), int_of_digits (take 2 (drop 5 s)),
               int_of_digits (drop 8 s)) of
           (Some y, Some m, Some d) \<Rightarrow>
             if 1 \<le> y \<and> 1 \<le> m \<and> m \<le> 12 \<and> 1 \<le> d \<and> d \<le> days_in_month y m
             then Some (y, m, d) else None
         | _ \<Rightarrow> None)
      else None)"

definition sample_sign :: "string \<Rightarrow> bool \<times> string" where
  "sample_sign s =
     (case s of
        [] \<Rightarrow> (False, [])
      | c # t \<Rightarrow> if c = CHR ''-'' then (True, t) else if c = CHR ''+'' then (False, t)
                 else (False, s))"

definition sample_int :: "string \<Rightarrow> int option" where
  "sample_int s =
     (case sample_sign (strip s) of (neg, t) \<Rightarrow>
        map_option (\<lambda>n. if neg then - n else n) (int_of_digits t))"

text \<open>The numerals \<open>digits\<close> and \<open>digits.digits\<close> and the words \<open>nan\<close>, \<open>inf\<close> and
  \<open>infinity\<close> in any case, each after an optional sign and between optional spaces.\<close>

definition sample_float :: "string \<Rightarrow> pyfloat option" where
  "sample_float s =
     (case sample_sign (strip s) of (neg, t) \<Rightarrow>
        if str_lower t = ''nan'' then Some (NaN None)
        else if str_lower t = ''inf'' \<or> str_lower t = ''infinity''
        then Some (if neg then NegInf else PosInf)
        else (let ip = takeWhile (\<lambda>c. c \<noteq> CHR ''.'') t;
                  fp = drop 1 (dropWhile (\<lambda>c. c \<noteq> CHR ''.'') t)
              in case int_of_digits ip of
                   None \<Rightarrow> None
                 | Some i \<Rightarrow>
                     (case (if fp = [] then Some 0 else int_of_digits fp) of
                        None \<Rightarrow> None
                      | Some f \<Rightarrow>
                          (let x = of_int i + of_int f / 10 ^ length fp
                           in if x = 0 \<and> neg then Some NegZero
                              else Some (nearest_double (if neg then - x else x))))))"

text \<open>
  \<open>str\<close> of a float: the decimal with the fewest places that reads back as the same double,
  written without an exponent (as CPython does from \<open>1e-4\<close> to below \<open>1e16\<close>).
\<close>

fun shortest_decimal :: "nat \<Rightarrow> nat \<Rightarrow> rat \<Rightarrow> nat \<times> int" where
  "shortest_decimal 0 n a = (n, round_half_even (a * 10 ^ n))"
| "shortest_decimal (Suc fuel) n a =
     (let k = round_half_even (a * 10 ^ n)
      in if nearest_double (of_int k / 10 ^ n) = Finite a then (n, k)
         else shortest_decimal fuel (Suc n) a)"

fun sample_repr :: "pyfloat \<Rightarrow> string" where
  "sample_repr (Finite x) =
     (case shortest_decimal 25 0 \<bar>x\<bar> of (n, k) \<Rightarrow>
        (if x < 0 then ''-'' else []) @ show_digits (k div 10 ^ n) @ ''.''
        @ (if n = 0 then ''0'' else pad_int n (k mod 10 ^ n)))"
| "sample_repr NegZero = ''-0.0''"
| "sample_repr PosInf = ''inf''"
| "sample_repr NegInf = ''-inf''"
| "sample_repr (NaN i) = ''nan''"

definition sample_fold :: "char \<Rightarrow> string" where
  "sample_fold c =
     (if (of_char c :: int) < 128 then [c]
      else (case map_of
                   [(CHR 0xC1, ''A''), (CHR 0xC9, ''E''), (CHR 0xCD, ''I''), (CHR 0xD3, ''O''),
                    (CHR 0xDA, ''U''), (CHR 0xD1, ''N''), (CHR 0xE1, ''a''), (CHR 0xE9, ''e''),
                    (CHR 0xED, ''i''), (CHR 0xF3, ''o''), (CHR 0xFA, ''u''), (CHR 0xF1, ''n'')] c of
              None \<Rightarrow> []
            | Some s \<Rightarrow> s))"

definition sample_upper :: "char \<Rightarrow> string" where
  "sample_upper c =
     (let n = (of_char c :: int) in if 97 \<le> n \<and> n \<le> 122 then [char_of (n - 32)] else [c])"

definition two_digits :: "string \<Rightarrow> int option" where
  "two_digits s = (if length s = 2 then int_of_digits s else None)"

text \<open>Timestamps \<open>YYYY-MM-DDTHH:MM:SS\<close>, alone or followed by an offset \<open>+HH:MM\<close> or
  \<open>-HH:MM\<close>.\<close>

definition sample_offset :: "string \<Rightarrow> tz option option" where
  "sample_offset s =
     (if s = [] then Some None
      else if length s = 6 \<and> (s ! 0 = CHR ''+'' \<or> s ! 0 = CHR ''-'') \<and> s ! 3 = CHR '':'' then
        (case (two_digits (take 2 (drop 1 s)), two_digits (drop 4 s)) of
           (Some hh, Some mm) \<Rightarrow>
             if hh < 24 \<and> mm < 60
             then Some (Some (FixedOffset
                    ((if s ! 0 = CHR ''-'' then - 1 else 1) * (hh * 3600 + mm * 60) * 1000000)))
             else None
         | _ \<Rightarrow> None)
      else None)"

definition sample_datetime :: "string \<Rightarrow> datetime option" where
  "sample_datetime s =
     (if 19 \<le> length s \<and> (s ! 10 = CHR ''T'' \<or> s ! 10 = CHR '' '') \<and> s ! 13 = CHR '':''
         \<and> s ! 16 = CHR '':'' then
        (case (sample_date (take 10 s), two_digits (take 2 (drop 11 s)),
               two_digits (take 2 (drop 14 s)), two_digits (take 2 (drop 17 s)),
               sample_offset (drop 19 s)) of
           (Some (y, m, d), Some hh, Some mm, Some ss, Some z) \<Rightarrow>
             if hh < 24 \<and> mm < 60 \<and> ss < 60
             then Some \<lparr>wall = instant y m d hh mm ss, tzinfo = z\<rparr> else None
         | _ \<Rightarrow> None)
      else None)"

text \<open>Mexico City has been six hours behind UTC all year since 2022-10-30.\<close>

definition sample_lib :: "(string \<rightharpoonup> json) \<Rightarrow> pylib" where
  "sample_lib docs =
     \<lparr>ascii_fold = sample_fold, upper_char = sample_upper, float_repr = sample_repr,
      float_of_str = sample_float, int_of_str = sample_int,
      date_fromisoformat = sample_date, json_loads = docs,
      datetime_fromisoformat = sample_datetime,
      mx_utcoffset = (\<lambda>t. - 6 * 3600 * 1000000)\<rparr>"

subsection \<open>Example data\<close>

definition example_columns :: "column list" where
  "example_columns =
     [\<lparr>col_id = 1, title = ''UUID''\<rparr>,
      \<lparr>col_id = 2, title = ''Fecha emisi'' @ [CHR 0xF3] @ ''n''\<rparr>,
      \<lparr>col_id = 3, title = ''RFC Receptor''\<rparr>,
      \<lparr>col_id = 4, title = ''Total''\<rparr>,
      \<lparr>col_id = 5, title = ''Tipo CFDI''\<rparr>]"

text \<open>An invoice and a row of the sheet. Their total is the float of the numeral \<open>t\<close>.\<close>

definition invoice :: "string \<Rightarrow> string \<Rightarrow> string \<Rightarrow> rat \<Rightarrow> string \<Rightarrow> (string \<rightharpoonup> pyval)" where
  "invoice u d r t c =
     [''UUID'' \<mapsto> PStr u, ''Date'' \<mapsto> PStr d, ''RFC'' \<mapsto> PStr r,
      ''Total'' \<mapsto> PFloat (nearest_double t), ''CFDIUse'' \<mapsto> PStr c]"

definition text_cell :: "int \<Rightarrow> string \<Rightarrow> cell" where
  "text_cell cid s = \<lparr>column_id = cid, cvalue = PStr s, display_value = PStr s\<rparr>"

definition invoice_row :: "int \<Rightarrow> string \<Rightarrow> string \<Rightarrow> string \<Rightarrow> rat \<Rightarrow> string \<Rightarrow> row" where
  "invoice_row rid u d r t c =
     \<lparr>row_id = rid,
      cells = [text_cell 1 u, text_cell 2 d, text_cell 3 r,
               \<lparr>column_id = 4, cvalue = PFloat (nearest_double t), display_value = PNone\<rparr>,
               text_cell 5 c]\<rparr>"

text \<open>The items of the default rules.\<close>

definition default_pairs :: "(string \<times> string) list" where
  "default_pairs =
     [(''UUID'', ''UUID''), (''Date'', ''Fecha emisi'' @ [CHR 0xF3] @ ''n''),
      (''RFC'', ''RFC Receptor''), (''Total'', ''Total''), (''CFDIUse'', ''Tipo CFDI'')]"

text \<open>What \<open>json.loads\<close> returns on five documents; it rejects every other string.\<close>

definition rules_docs :: "string \<rightharpoonup> json" where
  \<open>rules_docs =
     [''{"map": {"UUID": "Folio"}}'' \<mapsto> JObj [(''map'', JObj [(''UUID'', JStr ''Folio'')])],
      ''{"map": null}'' \<mapsto> JObj [(''map'', JNull)],
      ''[1]'' \<mapsto> JArr [JNum (Finite 1)],
      ''{"map": "x"}'' \<mapsto> JObj [(''map'', JStr ''x'')],
      ''{"map": {"UUID": 5}}'' \<mapsto> JObj [(''map'', JObj [(''UUID'', JNum (Finite 5))])]]\<close>

text \<open>The invoice of the scenario: a new invoice with total 100.004.\<close>

definition scenario_invoice :: "string \<rightharpoonup> pyval" where
  "scenario_invoice = invoice ''A1'' ''2025-07-01'' ''abc123'' (100004 / 1000) ''G01''"

text \<open>A configuration row with an interval and a cell for the last execution.\<close>

definition config_row :: "int \<Rightarrow> string \<Rightarrow> row" where
  "config_row minutes last_run =
     \<lparr>row_id = 1,
      cells = [\<lparr>column_id = 8, cvalue = PInt minutes, display_value = PStr (show_int minutes)\<rparr>,
               \<lparr>column_id = 9, cvalue = PStr last_run, display_value = PStr last_run\<rparr>]\<rparr>"

text \<open>A configuration row of an account.\<close>

definition account_row :: "string \<Rightarrow> string \<Rightarrow> string \<Rightarrow> (string \<rightharpoonup> pyval)" where
  "account_row i cliente tok = [''ID'' \<mapsto> PStr i, ''Cliente'' \<mapsto> PStr cliente, ''API Token'' \<mapsto> PStr tok]"

text \<open>A remote source where the account with token \<open>bad\<close> times out and every other account
  has three invoices.\<close>

definition fetch_but :: "string \<Rightarrow> string \<Rightarrow> pyval \<Rightarrow> string \<Rightarrow> exn + (string \<rightharpoonup> pyval) list" where
  "fetch_but bad url tok filtro =
     (if tok = PStr bad then Inl ReadTimeout else Inr [Map.empty, Map.empty, Map.empty])"

definition account_task :: "string \<Rightarrow> string \<Rightarrow> task" where
  "account_task cliente tok =
     \<lparr>etiqueta = PStr cliente, meta_dest_sheet = PNone, meta_rules = PNone,
      task_url = ''https://api.bind.com.mx/api/Invoices'', task_token = PStr tok,
      task_filtro = []\<rparr>"

text \<open>A push that always returns.\<close>

definition push_ok :: "pyval \<Rightarrow> (string \<rightharpoonup> pyval) list \<Rightarrow> pyval \<Rightarrow> pyval \<Rightarrow> exn option" where
  "push_ok dest data rules_json cliente = None"

text \<open>A store that shows no display value.\<close>

definition no_display :: "pyval \<Rightarrow> pyval" where
  "no_display v = PNone"

text \<open>A sheet with one invoice, and a batch that updates it and adds another.\<close>

definition example_sheet :: sheet where
  "example_sheet =
     \<lparr>columns = example_columns,
      rows = [invoice_row 11 ''U1'' ''2025-07-01'' ''abc'' 100 ''G01'']\<rparr>"

definition example_batch :: "(string \<rightharpoonup> pyval) list" where
  "example_batch =
     [invoice ''U1'' ''2025-07-09'' ''xyz'' 5 ''G03'', invoice ''U2'' ''2025-07-02'' ''abc'' 7 ''G01'']"

text \<open>
  A sheet whose only row has the UUID of one invoice of the batch and the signature of the
  other.
\<close>

definition clash_sheet :: sheet where
  "clash_sheet =
     \<lparr>columns = example_columns,
      rows = [invoice_row 10 ''B1'' ''2025-01-01'' ''X'' 1 ''G01'']\<rparr>"

definition clash_batch :: "(string \<rightharpoonup> pyval) list" where
  "clash_batch =
     [invoice ''A1'' ''2025-01-01'' ''X'' 1 ''G01'', invoice ''B1'' ''2025-02-02'' ''Y'' 2 ''G03'']"

section \<open>Properties\<close>


subsection \<open>Rounding and the signature\<close>

lemma round_half_even_bound: "\<bar>of_int (round_half_even q) - q\<bar> \<le> 1 / 2"
proof -
  have a: "of_int \<lfloor>q\<rfloor> \<le> q" and b: "q < of_int \<lfloor>q\<rfloor> + 1" by linarith+
  show ?thesis
    unfolding round_half_even_def half_even_def using a b
    by (auto simp: abs_le_iff)
qed

text \<open>
  The functions that round to a double do what their names say: the bit length and the
  exponent bracket their argument between two powers of two, and a finite result of
  \<open>nearest_double\<close> lies within half a unit in the last place of the argument.
\<close>

lemma bit_length_pos: "0 < n \<Longrightarrow> 1 \<le> bit_length n"
proof -
  assume n: "0 < n"
  have "0 \<le> bit_length k" for k
    by (induction k rule: bit_length.induct) (subst bit_length.simps, simp)
  from this [of "n div 2"] n show ?thesis by (subst bit_length.simps) simp
qed

lemma bit_length_bounds:
  "0 < n \<Longrightarrow> 2 ^ nat (bit_length n - 1) \<le> n \<and> n < 2 ^ nat (bit_length n)"
proof (induction n rule: bit_length.induct)
  case (1 n)
  show ?case
  proof (cases "n div 2 = 0")
    case True
    with 1(2) have n: "n = 1" by presburger
    have "bit_length 0 = 0" by (subst bit_length.simps) simp
    then have "bit_length 1 = 1" by (subst bit_length.simps) simp
    with n show ?thesis by simp
  next
    case False
    with 1(2) have p: "0 < n div 2" by presburger
    from 1(1) 1(2) p have ih: "2 ^ nat (bit_length (n div 2) - 1) \<le> n div 2"
      "n div 2 < 2 ^ nat (bit_length (n div 2))" by simp_all
    have b: "bit_length n = 1 + bit_length (n div 2)"
      using 1(2) by (subst bit_length.simps) simp
    from bit_length_pos [OF p] have c: "nat (bit_length (n div 2)) = Suc (nat (bit_length (n div 2) - 1))"
      by simp
    have d: "nat (1 + bit_length (n div 2) - 1) = nat (bit_length (n div 2))" by simp
    have e: "nat (1 + bit_length (n div 2)) = Suc (nat (bit_length (n div 2)))"
      using bit_length_pos [OF p] by simp
    have "(2::int) ^ nat (bit_length (n div 2)) = 2 * 2 ^ nat (bit_length (n div 2) - 1)"
      by (subst c) simp
    with ih(1) have "2 ^ nat (bit_length (n div 2)) \<le> 2 * (n div 2)" by simp
    also have "\<dots> \<le> n" by presburger
    finally have lo: "2 ^ nat (bit_length n - 1) \<le> n" by (simp add: b d)
    from ih(2) have "n div 2 + 1 \<le> 2 ^ nat (bit_length (n div 2))" by simp
    then have "2 * (n div 2) + 2 \<le> 2 * 2 ^ nat (bit_length (n div 2))" by simp
    moreover have "n < 2 * (n div 2) + 2" by presburger
    ultimately have hi: "n < 2 ^ nat (bit_length n)" by (simp add: b e)
    from lo hi show ?thesis by simp
  qed
qed

lemma pow2_pos: "0 < pow2 k"
  by (simp add: pow2_def)

lemma pow2_Suc: "pow2 (k + 1) = 2 * pow2 k"
proof (cases "0 \<le> k")
  case True
  then have "nat (k + 1) = Suc (nat k)" by simp
  with True show ?thesis by (simp add: pow2_def)
next
  case False
  show ?thesis
  proof (cases "k = - 1")
    case True then show ?thesis by (simp add: pow2_def)
  next
    case False
    with \<open>\<not> 0 \<le> k\<close> have k: "k + 1 < 0" by simp
    then have "nat (- k) = Suc (nat (- (k + 1)))" by simp
    then have "(2::int) ^ nat (- k) = 2 * 2 ^ nat (- (k + 1))" by simp
    with k \<open>\<not> 0 \<le> k\<close> show ?thesis by (simp add: pow2_def)
  qed
qed

lemma binary_exponent_bounds:
  assumes "0 < q"
  shows "pow2 (binary_exponent q) \<le> q \<and> q < pow2 (binary_exponent q + 1)"
proof (cases "1 \<le> q")
  case True
  then have n: "0 < \<lfloor>q\<rfloor>" by linarith
  let ?b = "bit_length \<lfloor>q\<rfloor>"
  from bit_length_bounds [OF n] have lo: "2 ^ nat (?b - 1) \<le> \<lfloor>q\<rfloor>" and hi: "\<lfloor>q\<rfloor> < 2 ^ nat ?b"
    by simp_all
  from bit_length_pos [OF n] have b: "0 \<le> ?b - 1" "0 \<le> ?b" by simp_all
  have e: "binary_exponent q = ?b - 1" using True by (simp add: binary_exponent_def)
  from lo have "(of_int (2 ^ nat (?b - 1)) :: rat) \<le> of_int \<lfloor>q\<rfloor>" by (simp only: of_int_le_iff)
  also have "\<dots> \<le> q" by simp
  finally have 1: "pow2 (?b - 1) \<le> q" using b by (simp add: pow2_def)
  from hi have "\<lfloor>q\<rfloor> + 1 \<le> 2 ^ nat ?b" by simp
  then have "(of_int (\<lfloor>q\<rfloor> + 1) :: rat) \<le> of_int (2 ^ nat ?b)" by (simp only: of_int_le_iff)
  moreover have "q < of_int (\<lfloor>q\<rfloor> + 1)" by simp linarith
  ultimately have 2: "q < pow2 ?b" using b by (simp add: pow2_def)
  from 1 2 e show ?thesis by simp
next
  case False
  with assms have r: "1 < 1 / q" by simp
  let ?N = "\<lceil>1 / q\<rceil>"
  let ?k = "bit_length (?N - 1)"
  from r have n: "0 < ?N - 1" by linarith
  from bit_length_bounds [OF n] have lo: "2 ^ nat (?k - 1) \<le> ?N - 1" and hi: "?N - 1 < 2 ^ nat ?k"
    by simp_all
  from bit_length_pos [OF n] have k: "1 \<le> ?k" .
  have e: "binary_exponent q = - ?k" using False by (simp add: binary_exponent_def)
  define P :: rat where "P = of_int (2 ^ nat ?k)"
  define Q :: rat where "Q = of_int (2 ^ nat (?k - 1))"
  have Ppos: "0 < P" and Qpos: "0 < Q" by (simp_all add: P_def Q_def)
  from hi have "?N \<le> 2 ^ nat ?k" by simp
  then have "(of_int ?N :: rat) \<le> P" unfolding P_def by (simp only: of_int_le_iff)
  with le_of_int_ceiling [of "1 / q"] have "1 / q \<le> P" by (rule order_trans)
  with assms Ppos have "1 / P \<le> q" by (simp add: field_simps)
  moreover have "pow2 (- ?k) = 1 / P" using k by (simp add: pow2_def P_def)
  ultimately have 1: "pow2 (- ?k) \<le> q" by simp
  from lo have "(of_int (2 ^ nat (?k - 1)) :: rat) \<le> of_int (?N - 1)"
    by (simp only: of_int_le_iff)
  then have "Q \<le> of_int (?N - 1)" by (simp only: Q_def)
  moreover have "of_int (?N - 1) < 1 / q" by simp linarith
  ultimately have "Q < 1 / q" by (rule le_less_trans)
  with assms Qpos have "q < 1 / Q" by (simp add: field_simps)
  moreover have "pow2 (- ?k + 1) = 1 / Q"
  proof (cases "?k = 1")
    case True then show ?thesis by (simp add: pow2_def Q_def)
  next
    case False
    with k have "- ?k + 1 < 0" by simp
    moreover have "nat (- (- ?k + 1)) = nat (?k - 1)" by simp
    ultimately show ?thesis by (simp add: pow2_def Q_def)
  qed
  ultimately have 2: "q < pow2 (- ?k + 1)" by simp
  from 1 2 e show ?thesis by simp
qed

lemma pow2_powi: "pow2 k = 2 powi k"
  by (simp add: pow2_def power_int_def power_inverse field_simps)

lemma pow2_mono: "k \<le> l \<Longrightarrow> pow2 k \<le> pow2 l"
  by (simp add: pow2_powi power_int_increasing)

lemma pow2_diff: "pow2 (k - l) = pow2 k / pow2 l"
  by (simp add: pow2_powi power_int_diff)

text \<open>A finite result of \<open>nearest_double\<close> is at most half a unit in the last place away.\<close>

lemma nearest_double_error:
  assumes "nearest_double q = Finite v"
  shows "\<bar>v - q\<bar> \<le> pow2 (max (binary_exponent \<bar>q\<bar>) (- 1022) - 52) / 2"
proof (cases "q = 0")
  case True
  with assms have "v = 0" by (simp add: nearest_double_def)
  with True pow2_pos [of "max (binary_exponent \<bar>q\<bar>) (- 1022) - 52"] show ?thesis by simp
next
  case False
  define e where "e = max (binary_exponent \<bar>q\<bar>) (- 1022)"
  define ulp where "ulp = pow2 (e - 52)"
  define m where "m = round_half_even (\<bar>q\<bar> / ulp)"
  have ulp: "0 < ulp" by (simp add: ulp_def pow2_pos)
  from round_half_even_bound [of "\<bar>q\<bar> / ulp"] have "\<bar>of_int m - \<bar>q\<bar> / ulp\<bar> \<le> 1 / 2"
    by (simp add: m_def)
  then have "\<bar>of_int m - \<bar>q\<bar> / ulp\<bar> * ulp \<le> 1 / 2 * ulp"
    using ulp by (simp only: mult_le_cancel_right_pos)
  moreover have "\<bar>of_int m - \<bar>q\<bar> / ulp\<bar> * ulp = \<bar>of_int m * ulp - \<bar>q\<bar>\<bar>"
  proof -
    have "\<bar>of_int m - \<bar>q\<bar> / ulp\<bar> * ulp = \<bar>(of_int m - \<bar>q\<bar> / ulp) * ulp\<bar>"
      using ulp by (simp add: abs_mult)
    also have "(of_int m - \<bar>q\<bar> / ulp) * ulp = of_int m * ulp - \<bar>q\<bar>"
      using ulp by (simp add: field_simps)
    finally show ?thesis .
  qed
  ultimately have b: "\<bar>of_int m * ulp - \<bar>q\<bar>\<bar> \<le> ulp / 2" by simp
  from assms False have d: "double_of (q < 0) e m = Finite v"
    by (simp add: nearest_double_def round_to_exponent_def e_def m_def ulp_def
        split: if_splits)
  have "\<bar>v - q\<bar> = \<bar>of_int m * ulp - \<bar>q\<bar>\<bar>"
  proof (cases "m = 0")
    case True
    with d have "v = 0" by (simp add: double_of_def split: if_splits)
    with True show ?thesis by simp
  next
    case False
    with d have "v = (if q < 0 then - 1 else 1) * of_int m * ulp"
      by (simp add: double_of_def ulp_def split: if_splits)
    then show ?thesis by (cases "q < 0") (simp_all add: abs_minus_commute)
  qed
  with b show ?thesis by (simp add: ulp_def e_def)
qed

lemma nearest_double_relative:
  assumes "nearest_double q = Finite v" and "pow2 (- 1022) \<le> \<bar>q\<bar>"
  shows "\<bar>v - q\<bar> \<le> \<bar>q\<bar> / 2 ^ 53"
proof -
  from assms(2) pow2_pos [of "- 1022"] have q: "0 < \<bar>q\<bar>" by linarith
  let ?e = "binary_exponent \<bar>q\<bar>"
  from binary_exponent_bounds [OF q] have lo: "pow2 ?e \<le> \<bar>q\<bar>" and hi: "\<bar>q\<bar> < pow2 (?e + 1)"
    by simp_all
  have e: "- 1022 \<le> ?e"
  proof (rule ccontr)
    assume "\<not> - 1022 \<le> ?e"
    then have "?e + 1 \<le> - 1022" by simp
    from pow2_mono [OF this] hi assms(2) show False by linarith
  qed
  then have m: "max ?e (- 1022) = ?e" by simp
  have "pow2 (?e - 52) / 2 = pow2 ?e / 2 ^ 53"
    by (simp add: pow2_diff) (simp add: pow2_def)
  also have "\<dots> \<le> \<bar>q\<bar> / 2 ^ 53" using lo by (simp add: divide_right_mono)
  finally show ?thesis using nearest_double_error [OF assms(1)] by (simp add: m)
qed

text \<open>\<open>round(x, 2)\<close> of a finite float: the result is within 1/200 and the rounding of one
  conversion of the value.\<close>

lemma round2_error:
  assumes "round2 (Finite q) = Finite v"
  shows "\<bar>v - q\<bar> \<le> 1 / 200 + (\<bar>q\<bar> + 1 / 200) / 2 ^ 53"
proof -
  define k where "k = round_half_even (q * 100)"
  have "\<bar>of_int k - q * 100\<bar> \<le> 1 / 2" unfolding k_def by (rule round_half_even_bound)
  then have kq: "\<bar>of_int k / 100 - q\<bar> \<le> 1 / 200" by (simp add: abs_le_iff field_simps)
  show ?thesis
  proof (cases "k = 0")
    case True
    with assms have "v = 0" by (simp add: hundredths_def k_def split: if_splits)
    with kq True have "\<bar>v - q\<bar> \<le> 1 / 200" by simp
    moreover have "0 \<le> (\<bar>q\<bar> + 1 / 200) / 2 ^ 53" by simp
    ultimately show ?thesis by linarith
  next
    case False
    with assms have nd: "nearest_double (of_int k / 100) = Finite v"
      by (simp add: hundredths_def k_def)
    from False have "1 \<le> \<bar>k\<bar>" by simp
    then have "(1::rat) \<le> \<bar>of_int k\<bar>" by (metis of_int_1_le_iff of_int_abs)
    then have k1: "1 / 100 \<le> \<bar>of_int k / 100 :: rat\<bar>" by simp
    have "pow2 (- 1022) \<le> pow2 (- 7)" by (rule pow2_mono) simp
    also have "pow2 (- 7) \<le> 1 / 100" by (simp add: pow2_def)
    finally have "pow2 (- 1022) \<le> \<bar>of_int k / 100 :: rat\<bar>" using k1 by linarith
    from nearest_double_relative [OF nd this]
    have a: "\<bar>v - of_int k / 100\<bar> \<le> \<bar>of_int k / 100\<bar> / 2 ^ 53" .
    from kq have "\<bar>of_int k / 100 :: rat\<bar> \<le> \<bar>q\<bar> + 1 / 200" by linarith
    then have "\<bar>of_int k / 100 :: rat\<bar> / 2 ^ 53 \<le> (\<bar>q\<bar> + 1 / 200) / 2 ^ 53"
      by (simp add: divide_right_mono)
    with a kq show ?thesis by linarith
  qed
qed

lemma float_of_int_error:
  assumes "py_float L (PInt i) = Inr (Finite v)"
  shows "\<bar>v - of_int i\<bar> \<le> \<bar>of_int i\<bar> / 2 ^ 53"
proof -
  from assms have nd: "nearest_double (of_int i) = Finite v"
    by (simp split: pyfloat.splits)
  show ?thesis
  proof (cases "i = 0")
    case True
    with nd show ?thesis by (simp add: nearest_double_def)
  next
    case False
    then have "1 \<le> \<bar>i\<bar>" by simp
    then have i1: "(1::rat) \<le> \<bar>of_int i\<bar>" by (metis of_int_1_le_iff of_int_abs)
    have "pow2 (- 1022) \<le> pow2 0" by (rule pow2_mono) simp
    also have "pow2 0 = 1" by (simp add: pow2_def)
    finally have "pow2 (- 1022) \<le> \<bar>of_int i :: rat\<bar>" using i1 by linarith
    from nearest_double_relative [OF nd this] show ?thesis .
  qed
qed

lemma round2_finite:
  "\<exists>k::int. \<bar>of_int k / 100 - q\<bar> \<le> 1 / 200
     \<and> round2 (Finite q) = (if k = 0 then (if q < 0 then NegZero else Finite 0)
                             else nearest_double (of_int k / 100))"
proof -
  have "\<bar>of_int (round_half_even (q * 100)) - q * 100\<bar> \<le> 1 / 2"
    by (rule round_half_even_bound)
  then have "\<bar>of_int (round_half_even (q * 100)) / 100 - q\<bar> \<le> 1 / 200"
    by (simp add: abs_le_iff field_simps)
  then show ?thesis
    by (intro exI [of _ "round_half_even (q * 100)"]) (simp add: hundredths_def)
qed

lemma round2_one: "round2 (Finite 1) = Finite 1"
  by code_simp

lemma round2_zero: "round2 (Finite 0) = Finite 0"
  by code_simp

lemma coerce_total_bool: "coerce_total L (PBool b) = Finite (if b then 1 else 0)"
  by (simp add: coerce_total_def round2_one round2_zero del: round2.simps)

lemma coerce_total_int:
  "coerce_total L (PInt i) =
     (if nearest_double (of_int i) \<in> {PosInf, NegInf} then Finite 0
      else round2 (nearest_double (of_int i)))"
  by (cases "nearest_double (of_int i)") (simp_all add: coerce_total_def)

lemma coerce_total_str:
  "coerce_total L (PStr s) = (case float_of_str L s of None \<Rightarrow> Finite 0 | Some x \<Rightarrow> round2 x)"
  by (simp add: coerce_total_def split: option.splits)

lemma sig_date_not_None: "py_or (iso L (py_or d (PStr []))) (PStr []) \<noteq> PNone"
  by (cases "iso L (py_or d (PStr []))") (auto simp: py_or_def)

lemma sig_date_nan:
  "(case py_or (iso L (py_or d (PStr []))) (PStr []) of PFloat x \<Rightarrow> is_nan x | _ \<Rightarrow> False)
     = (\<exists>n. d = PFloat (NaN n))"
proof (cases d)
  case (PFloat x)
  then show ?thesis by (cases x) (simp_all add: py_or_def iso_def)
next
  case (PStr t)
  then show ?thesis by (simp add: py_or_def iso_def split: option.splits)
qed (simp_all add: py_or_def iso_def)

lemma nearest_double_not_nan: "\<not> is_nan (nearest_double q)"
  by (simp add: nearest_double_def round_to_exponent_def double_of_def)

lemma round2_nan: "is_nan (round2 x) = is_nan x"
  by (cases x) (simp_all add: hundredths_def nearest_double_not_nan)

lemma coerce_total_nan: "is_nan (coerce_total L tv) = (\<exists>n. py_float L tv = Inr (NaN n))"
proof (cases "py_float L tv")
  case (Inl e)
  then show ?thesis by (simp add: coerce_total_def)
next
  case (Inr x)
  then show ?thesis by (cases x) (simp_all add: coerce_total_def round2_nan del: round2.simps)
qed

lemma str_upper_Nil: "str_upper L [] = []"
  by (simp add: str_upper_def)

lemma strip_Nil: "strip [] = []"
  by (simp add: strip_def)

lemma float_eq_refl: "float_eq t t = (\<not> is_nan t)"
  by (simp add: float_eq_def)

lemma py_eq_refl: "py_eq d d = (case d of PFloat x \<Rightarrow> \<not> is_nan x | _ \<Rightarrow> True)"
  by (cases d) (simp_all add: float_eq_refl)

lemma sig_eq_refl: "sig_eq sg sg = (\<not> sig_has_nan sg)"
  by (cases sg) (auto simp: sig_eq_def sig_has_nan_def float_eq_refl py_eq_refl split: pyval.splits)

text \<open>
  Two signatures built for different owners are the same key exactly when they are equal as
  Python tuples.
\<close>

lemma float_key_mark:
  "who \<noteq> who' \<Longrightarrow>
     (float_key (mark_nan_float who a) = float_key (mark_nan_float who' b)) = float_eq a b"
  by (cases a; cases b) (simp_all add: float_eq_def)

lemma py_key_mark:
  "who \<noteq> who' \<Longrightarrow> (py_key (mark_nan who a) = py_key (mark_nan who' b)) = py_eq a b"
proof (cases a)
  case (PFloat x)
  assume w: "who \<noteq> who'"
  show ?thesis
  proof (cases b)
    case (PFloat y)
    with \<open>a = PFloat x\<close> float_key_mark [OF w, of x y] show ?thesis by simp
  next
    case PNone with \<open>a = PFloat x\<close> show ?thesis by (cases x) simp_all
  next
    case (PBool c) with \<open>a = PFloat x\<close> show ?thesis by (cases x) simp_all
  next
    case (PInt i) with \<open>a = PFloat x\<close> show ?thesis by (cases x) simp_all
  next
    case (PStr s) with \<open>a = PFloat x\<close> show ?thesis by (cases x) simp_all
  qed
next
  case PNone then show ?thesis by (cases b) simp_all
next
  case (PBool c)
  show ?thesis
  proof (cases b)
    case (PFloat y) with PBool show ?thesis by (cases y) simp_all
  qed (simp_all add: PBool)
next
  case (PInt i)
  show ?thesis
  proof (cases b)
    case (PFloat y) with PInt show ?thesis by (cases y) simp_all
  qed (simp_all add: PInt)
next
  case (PStr s) then show ?thesis by (cases b) simp_all
qed

lemma sig_key_mark:
  "who \<noteq> who' \<Longrightarrow>
     (sig_key (mark_nan_sig who a) = sig_key (mark_nan_sig who' b)) = sig_eq a b"
  by (cases a; cases b)
    (simp add: sig_key_def mark_nan_sig_def sig_eq_def py_key_mark float_key_mark)

text \<open>
  Claim C6. \<open>_make_signature\<close> is a function of its four arguments: on a tax id that is a
  string it returns the 4-tuple of the normalised date, the tax id stripped and upper-cased,
  the coerced total and the stripped document type; tax ids that differ in case and in
  spaces around them give the same tuple. A missing date gives the empty string, never
  \<open>None\<close>, and a missing tax id the empty string; a tax id that is neither missing nor a string
  raises \<open>AttributeError\<close>. The total is \<open>round(float(total), 2)\<close>: \<open>0.0\<close> for a missing total, for a
  string that \<open>float\<close> rejects and for an \<open>int\<close> beyond the doubles; otherwise the float of
  the total (the double nearest to an \<open>int\<close>, what \<open>float\<close> reads from a string) rounded to
  the double nearest to a decimal with two places at most 1/200 away, each conversion to
  a double changing its argument by at most one part in \<open>2 ^ 53\<close>. A total that \<open>float\<close>
  reads as an infinity or as NaN stays one. The tuples of two calls on equal arguments are
  equal when the total is not read as NaN and the date is no NaN, and unequal when the
  total is read as NaN.
\<close>

theorem make_signature_tuple:
  "make_signature L date (PStr r) tv cfdi =
     Inr (py_or (iso L (py_or date (PStr []))) (PStr []), str_upper L (strip r),
          coerce_total L tv, strip (py_str L (py_or cfdi (PStr []))))
   \<and> make_signature L PNone PNone PNone PNone = Inr (PStr [], [], Finite 0, [])
   \<and> (\<forall>sg. make_signature L PNone rfc tv cfdi = Inr sg \<longrightarrow> fst sg = PStr [])
   \<and> (\<forall>sg. make_signature L date rfc tv cfdi = Inr sg \<longrightarrow>
         fst sg \<noteq> PNone \<and> fst (snd (snd sg)) = coerce_total L tv
         \<and> (\<not> is_nan (coerce_total L tv) \<and> (\<forall>n. date \<noteq> PFloat (NaN n)) \<longrightarrow> sig_eq sg sg)
         \<and> (is_nan (coerce_total L tv) \<longrightarrow> \<not> sig_eq sg sg))
   \<and> coerce_total L PNone = Finite 0
   \<and> coerce_total L (PBool b) = Finite (if b then 1 else 0)
   \<and> coerce_total L (PInt i) =
       (if nearest_double (of_int i) \<in> {PosInf, NegInf} then Finite 0
        else round2 (nearest_double (of_int i)))
   \<and> coerce_total L (PFloat x) = round2 x
   \<and> coerce_total L (PStr s) =
       (case float_of_str L s of None \<Rightarrow> Finite 0 | Some y \<Rightarrow> round2 y)
   \<and> (\<exists>k::int. \<bar>of_int k / 100 - q\<bar> \<le> 1 / 200
         \<and> round2 (Finite q) = (if k = 0 then (if q < 0 then NegZero else Finite 0)
                                 else nearest_double (of_int k / 100)))
   \<and> round2 NegZero = NegZero \<and> round2 PosInf = PosInf \<and> round2 NegInf = NegInf
   \<and> round2 (NaN n) = NaN n
   \<and> (\<not> truthy rfc \<longrightarrow>
         make_signature L date rfc tv cfdi =
           Inr (py_or (iso L (py_or date (PStr []))) (PStr []), [], coerce_total L tv,
                strip (py_str L (py_or cfdi (PStr [])))))
   \<and> (truthy rfc \<and> (\<forall>t. rfc \<noteq> PStr t) \<longrightarrow>
         make_signature L date rfc tv cfdi = Inl AttributeError)
   \<and> (str_upper L (strip r) = str_upper L (strip r') \<longrightarrow>
         make_signature L date (PStr r) tv cfdi = make_signature L date (PStr r') tv cfdi)
   \<and> (\<forall>v. coerce_total L (PFloat (Finite q)) = Finite v \<longrightarrow>
         \<bar>v - q\<bar> \<le> 1 / 200 + (\<bar>q\<bar> + 1 / 200) / 2 ^ 53)
   \<and> (\<forall>v. py_float L (PInt i) = Inr (Finite v) \<longrightarrow>
         \<bar>v - of_int i\<bar> \<le> \<bar>of_int i\<bar> / 2 ^ 53)
   \<and> is_nan (coerce_total L tv) = (\<exists>n. py_float L tv = Inr (NaN n))"
proof -
  have 1: "make_signature L date (PStr r) tv cfdi =
     Inr (py_or (iso L (py_or date (PStr []))) (PStr []), str_upper L (strip r),
          coerce_total L tv, strip (py_str L (py_or cfdi (PStr []))))" for r
    by (cases "r = []") (simp_all add: make_signature_def py_or_def str_upper_Nil strip_Nil)
  have 2: "make_signature L PNone PNone PNone PNone = Inr (PStr [], [], Finite 0, [])"
    by (simp add: make_signature_def py_or_def iso_def str_upper_Nil strip_Nil coerce_total_def)
  have 3: "\<forall>sg. make_signature L PNone rfc tv cfdi = Inr sg \<longrightarrow> fst sg = PStr []"
    by (auto simp: make_signature_def py_or_def iso_def split: pyval.splits if_splits)
  have 4: "\<forall>sg. make_signature L date rfc tv cfdi = Inr sg \<longrightarrow>
         fst sg \<noteq> PNone \<and> fst (snd (snd sg)) = coerce_total L tv
         \<and> (\<not> is_nan (coerce_total L tv) \<and> (\<forall>n. date \<noteq> PFloat (NaN n)) \<longrightarrow> sig_eq sg sg)
         \<and> (is_nan (coerce_total L tv) \<longrightarrow> \<not> sig_eq sg sg)"
    using sig_date_not_None [of L date] sig_date_nan [of L date]
    by (auto simp: make_signature_def sig_eq_refl sig_has_nan_def split: pyval.splits)
  have 5: "coerce_total L PNone = Finite 0" "coerce_total L (PFloat x) = round2 x"
    by (simp_all add: coerce_total_def round2_zero del: round2.simps)
  have 6: "round2 NegZero = NegZero" "round2 PosInf = PosInf" "round2 NegInf = NegInf"
    "round2 (NaN n) = NaN n"
    by simp_all
  have 7: "\<not> truthy rfc \<longrightarrow>
         make_signature L date rfc tv cfdi =
           Inr (py_or (iso L (py_or date (PStr []))) (PStr []), [], coerce_total L tv,
                strip (py_str L (py_or cfdi (PStr []))))"
    by (simp add: make_signature_def py_or_def str_upper_Nil strip_Nil)
  have 8: "truthy rfc \<and> (\<forall>t. rfc \<noteq> PStr t) \<longrightarrow>
         make_signature L date rfc tv cfdi = Inl AttributeError"
    by (cases rfc) (simp_all add: make_signature_def py_or_def)
  have 9: "str_upper L (strip r) = str_upper L (strip r') \<longrightarrow>
         make_signature L date (PStr r) tv cfdi = make_signature L date (PStr r') tv cfdi"
    using 1 [of r] 1 [of r'] by simp
  have 10: "\<forall>v. coerce_total L (PFloat (Finite q)) = Finite v \<longrightarrow>
         \<bar>v - q\<bar> \<le> 1 / 200 + (\<bar>q\<bar> + 1 / 200) / 2 ^ 53"
    using round2_error [of q] by (simp add: coerce_total_def del: round2.simps)
  have 11: "\<forall>v. py_float L (PInt i) = Inr (Finite v) \<longrightarrow>
         \<bar>v - of_int i\<bar> \<le> \<bar>of_int i\<bar> / 2 ^ 53"
    using float_of_int_error [of L i] by blast
  from 1 [of r] 2 3 4 5(1) coerce_total_bool [of L b] coerce_total_int [of L i] 5(2)
    coerce_total_str [of L s] round2_finite [of q] 6 7 8 9 10 11 coerce_total_nan [of L tv]
  show ?thesis by (intro conjI)
qed

theorem make_signature_tuple_witness:
  "make_signature (sample_lib Map.empty) PNone (PStr ''x'') (PStr ''n/a'') PNone
     = Inr (PStr [], ''X'', Finite 0, [])
   \<and> make_signature (sample_lib Map.empty) (PStr ''2025-07-01T10:00:00'') (PStr '' abc123 '')
        (PStr ''100.004'') (PStr ''G01'')
      = Inr (PStr ''2025-07-01'', ''ABC123'', Finite 100, ''G01'')
   \<and> sig_eq (PStr ''2025-07-01'', ''ABC123'', Finite 100, ''G01'')
        (PStr ''2025-07-01'', ''ABC123'', Finite 100, ''G01'')
   \<and> coerce_total (sample_lib Map.empty) (PInt (2 ^ 53 + 1)) = Finite (2 ^ 53)
   \<and> coerce_total (sample_lib Map.empty) (PInt (2 ^ 1024)) = Finite 0
   \<and> coerce_total (sample_lib Map.empty) (PStr ''12.345'') = nearest_double (1235 / 100)
   \<and> coerce_total (sample_lib Map.empty) (PFloat (nearest_double (2675 / 1000)))
      = nearest_double (267 / 100)"
proof -
  let ?L = "sample_lib Map.empty"
  let ?sg = "(PStr ''2025-07-01'', ''ABC123'', Finite 100, ''G01'')"
  have a: "make_signature ?L PNone (PStr ''x'') (PStr ''n/a'') PNone
             = Inr (PStr [], ''X'', Finite 0, [])"
    by code_simp
  have b: "make_signature ?L (PStr ''2025-07-01T10:00:00'') (PStr '' abc123 '')
             (PStr ''100.004'') (PStr ''G01'') = Inr ?sg"
    by code_simp
  have c: "\<not> is_nan (coerce_total ?L (PStr ''100.004''))
           \<and> (\<forall>n. PStr ''2025-07-01T10:00:00'' \<noteq> PFloat (NaN n))"
    by (rule conjI, code_simp, simp)
  have d: "(if nearest_double (of_int (2 ^ 53 + 1)) \<in> {PosInf, NegInf} then Finite 0
            else round2 (nearest_double (of_int (2 ^ 53 + 1)))) = Finite (2 ^ 53)"
    "(if nearest_double (of_int (2 ^ 1024)) \<in> {PosInf, NegInf} then Finite 0
      else round2 (nearest_double (of_int (2 ^ 1024)))) = Finite 0"
    "(case float_of_str ?L ''12.345'' of None \<Rightarrow> Finite 0 | Some y \<Rightarrow> round2 y)
       = nearest_double (1235 / 100)"
    "round2 (nearest_double (2675 / 1000)) = nearest_double (267 / 100)"
    by code_simp+
  note t = make_signature_tuple [where L = ?L and date = "PStr ''2025-07-01T10:00:00''"
      and rfc = "PStr '' abc123 ''" and tv = "PStr ''100.004''" and cfdi = "PStr ''G01''"
      and i = "2 ^ 53 + 1" and s = "''12.345''" and x = "nearest_double (2675 / 1000)"]
  note t4 = t [THEN conjunct2, THEN conjunct2, THEN conjunct2, THEN conjunct1, rule_format, OF b]
  note t7 = t [THEN conjunct2, THEN conjunct2, THEN conjunct2, THEN conjunct2, THEN conjunct2,
      THEN conjunct2]
  have 1: "sig_eq ?sg ?sg"
    by (rule t4 [THEN conjunct2, THEN conjunct2, THEN conjunct1, THEN mp, OF c])
  have 2: "coerce_total ?L (PInt (2 ^ 53 + 1)) = Finite (2 ^ 53)"
    by (rule trans [OF t7 [THEN conjunct1] d(1)])
  have 3: "coerce_total ?L (PFloat (nearest_double (2675 / 1000))) = nearest_double (267 / 100)"
    by (rule trans [OF t7 [THEN conjunct2, THEN conjunct1] d(4)])
  have 4: "coerce_total ?L (PStr ''12.345'') = nearest_double (1235 / 100)"
    by (rule trans [OF t7 [THEN conjunct2, THEN conjunct2, THEN conjunct1] d(3)])
  note u = make_signature_tuple [where L = ?L and rfc = "PStr ''x''" and tv = "PStr ''n/a''"
      and cfdi = PNone and i = "2 ^ 1024"]
  have 5: "coerce_total ?L (PInt (2 ^ 1024)) = Finite 0"
    by (rule trans [OF u [THEN conjunct2, THEN conjunct2, THEN conjunct2, THEN conjunct2,
            THEN conjunct2, THEN conjunct2, THEN conjunct1] d(2)])
  have 6: "fst (PStr [], ''X'', Finite 0 :: pyfloat, [] :: string) = PStr []"
    by (rule u [THEN conjunct2, THEN conjunct2, THEN conjunct1, rule_format, OF a])
  from a b 1 2 3 4 5 show ?thesis by (intro conjI)
qed

text \<open>
  A total that reads \<open>nan\<close> is not coerced to \<open>0.0\<close>, and the signatures of two calls on it
  are not equal: a row of the sheet and an invoice that agree on date, tax id, total \<open>nan\<close>
  and document type do not match, and the invoice is inserted.
\<close>

theorem nan_total_never_matches:
  "coerce_total (sample_lib Map.empty) (PStr ''nan'') = NaN None
   \<and> coerce_total (sample_lib Map.empty) (PStr ''inf'') = PosInf
   \<and> make_signature (sample_lib Map.empty) (PStr ''2025-07-01'') (PStr ''abc'') (PStr ''nan'')
        (PStr ''G01'')
      = Inr (PStr ''2025-07-01'', ''ABC'', NaN None, ''G01'')
   \<and> \<not> sig_eq (PStr ''2025-07-01'', ''ABC'', NaN None, ''G01'')
          (PStr ''2025-07-01'', ''ABC'', NaN None, ''G01'')
   \<and> push_to_sheet (sample_lib Map.empty)
        (Some \<lparr>columns = example_columns,
               rows = [\<lparr>row_id = 11,
                        cells = [text_cell 1 ''U1'', text_cell 2 ''2025-07-01'', text_cell 3 ''abc'',
                                 text_cell 4 ''nan'', text_cell 5 ''G01'']\<rparr>]\<rparr>)
        [[''UUID'' \<mapsto> PStr ''U2'', ''Date'' \<mapsto> PStr ''2025-07-01'', ''RFC'' \<mapsto> PStr ''abc'',
          ''Total'' \<mapsto> PStr ''nan'', ''CFDIUse'' \<mapsto> PStr ''G01'']] PNone
      = Inr ([\<lparr>toBottom = True,
                ins_cells = [\<lparr>columnId = 1, ovalue = PStr ''U2''\<rparr>,
                             \<lparr>columnId = 2, ovalue = PStr ''2025-07-01''\<rparr>,
                             \<lparr>columnId = 3, ovalue = PStr ''abc''\<rparr>,
                             \<lparr>columnId = 4, ovalue = PStr ''nan''\<rparr>,
                             \<lparr>columnId = 5, ovalue = PStr ''G01''\<rparr>]\<rparr>], [])"
  by code_simp


subsection \<open>The two indexes of the destination sheet\<close>

lemma last_row_id_Nil: "last_row_id P [] = None"
  by (simp add: last_row_id_def)

lemma last_row_id_snoc:
  "last_row_id P (rs @ [r]) = (if P r then Some (row_id r) else last_row_id P rs)"
  by (simp add: last_row_id_def)

lemma last_row_id_Cons:
  "last_row_id P (r # rs) =
     (case last_row_id P rs of None \<Rightarrow> (if P r then Some (row_id r) else None) | Some i \<Rightarrow> Some i)"
  by (cases "rev (filter P rs)") (auto simp: last_row_id_def)

lemma last_row_id_mem:
  "last_row_id P rs = Some i \<Longrightarrow> \<exists>r\<in>set rs. P r \<and> row_id r = i"
proof -
  assume a: "last_row_id P rs = Some i"
  then obtain r xs where r: "rev (filter P rs) = r # xs" "row_id r = i"
    by (auto simp: last_row_id_def split: list.splits)
  have "r \<in> set (filter P rs)"
    using r(1) by (metis list.set_intros(1) set_rev)
  then show ?thesis using r(2) by auto
qed

lemma last_row_id_ex:
  "r \<in> set rs \<Longrightarrow> P r \<Longrightarrow> last_row_id P rs \<noteq> None"
proof -
  assume "r \<in> set rs" "P r"
  then have "r \<in> set (rev (filter P rs))" by simp
  then show ?thesis by (cases "rev (filter P rs)") (auto simp: last_row_id_def)
qed

lemma index_rows_sig:
  "index_rows L uc sc (u0, s0) rs = Inr (u, s) \<Longrightarrow>
     s k = (case last_row_id (has_sig L uc sc k) rs of None \<Rightarrow> s0 k | Some i \<Rightarrow> Some i)"
proof (induction rs arbitrary: u0 s0)
  case Nil
  then show ?case by (simp add: last_row_id_Nil)
next
  case (Cons r rs)
  from Cons.prems obtain sg where sg: "row_signature L uc sc r = Inr sg"
    by (auto simp: index_row_def Let_def split: sum.splits)
  with Cons.prems obtain u1 where
    step: "index_rows L uc sc (u1, s0(sig_key sg \<mapsto> row_id r)) rs = Inr (u, s)"
    by (auto simp: index_row_def Let_def split: sum.splits)
  from Cons.IH [OF step] sg show ?case
    by (auto simp: last_row_id_Cons has_sig_def split: option.splits)
qed

lemma index_rows_uuid:
  "index_rows L uc sc (u0, s0) rs = Inr (u, s) \<Longrightarrow>
     u k = (case last_row_id (has_uuid L uc sc k) rs of None \<Rightarrow> u0 k | Some i \<Rightarrow> Some i)"
proof (induction rs arbitrary: u0 s0)
  case Nil
  then show ?case by (simp add: last_row_id_Nil)
next
  case (Cons r rs)
  from Cons.prems obtain u1 s1 where
    one: "index_row L uc sc (u0, s0) r = Inr (u1, s1)" and
    step: "index_rows L uc sc (u1, s1) rs = Inr (u, s)"
    by (auto split: sum.splits)
  from one have u1: "u1 k = (if has_uuid L uc sc k r then Some (row_id r) else u0 k)"
    by (auto simp: index_row_def Let_def has_uuid_def split: sum.splits option.splits if_splits)
  from Cons.IH [OF step] u1 show ?case
    by (auto simp: last_row_id_Cons split: option.splits)
qed

lemma index_rows_total:
  "index_rows L uc sc ix rs = Inr ix' \<Longrightarrow> r \<in> set rs \<Longrightarrow>
     \<exists>sg. row_signature L uc sc r = Inr sg"
proof (induction rs arbitrary: ix)
  case Nil
  then show ?case by simp
next
  case (Cons a rs)
  from Cons.prems(1) obtain ix1 where
    one: "index_row L uc sc ix a = Inr ix1" and step: "index_rows L uc sc ix1 rs = Inr ix'"
    by (auto split: sum.splits)
  from one have "\<exists>sg. row_signature L uc sc a = Inr sg"
    by (cases ix) (auto simp: index_row_def Let_def split: sum.splits)
  with Cons.IH [OF step] Cons.prems(2) show ?case by auto
qed

lemma scan_cells_no_match:
  "length sv = length sc \<Longrightarrow> \<forall>c\<in>set cs. \<forall>cid\<in>set sc. \<not> col_match cid c \<Longrightarrow>
     snd (foldl (scan_cell L uc sc) (ru, sv) cs) = sv"
proof (induction cs arbitrary: ru sv)
  case Nil
  then show ?case by simp
next
  case (Cons c cs)
  have "map (\<lambda>(cid, v). if col_match cid c then py_or (display_value c) (cvalue c) else v)
          (zip sc sv) = map snd (zip sc sv)"
    using Cons.prems(2) by (auto dest: set_zip_leftD)
  also have "\<dots> = sv" using Cons.prems(1) by simp
  finally have step: "scan_cell L uc sc (ru, sv) c =
      (if col_match uc c \<and> truthy (cvalue c) then Some (strip (py_str L (cvalue c))) else ru, sv)"
    by (simp add: scan_cell_def)
  show ?case using Cons.IH [OF Cons.prems(1)] Cons.prems(2) by (simp add: step)
qed

lemma row_signature_default:
  assumes "length sc = 4" "\<forall>c\<in>set (cells r). \<forall>cid\<in>set sc. \<not> col_match cid c"
  shows "row_signature L uc sc r = Inr (PStr [], [], Finite 0, [])"
proof -
  have "snd (scan_row L uc sc r) = [PNone, PNone, PNone, PNone]"
    unfolding scan_row_def using assms by (intro scan_cells_no_match) simp_all
  then show ?thesis
    by (simp add: row_signature_def make_signature_def py_or_def iso_def str_upper_def
        strip_def coerce_total_def mark_nan_sig_def)
qed


text \<open>
  Claim C9. Once every row is indexed, \<open>sig_to_row\<close> maps a signature to the identifier of
  the last row of the sheet, in row order, that has it: a later row replaces an earlier one
  with the same signature. Every row has an entry, and a row none of whose cells lies in a
  signature column is indexed under \<open>("", "", 0.0, "")\<close>.
\<close>

theorem signature_index_last_row:
  assumes "index_rows L uc sc (Map.empty, Map.empty) rs = Inr (uuid_to_row, sig_to_row)"
  shows "(\<forall>k. sig_to_row k = last_row_id (has_sig L uc sc k) rs)
       \<and> (\<forall>r\<in>set rs. \<exists>sg. row_signature L uc sc r = Inr sg \<and> sig_to_row (sig_key sg) \<noteq> None)
       \<and> (\<forall>r\<in>set rs. length sc = 4 \<and> (\<forall>c\<in>set (cells r). \<forall>cid\<in>set sc. \<not> col_match cid c)
             \<longrightarrow> row_signature L uc sc r = Inr (PStr [], [], Finite 0, [])
                 \<and> sig_to_row (PStr [], [], Finite 0, []) \<noteq> None)"
proof -
  have a: "\<forall>k. sig_to_row k = last_row_id (has_sig L uc sc k) rs"
    using index_rows_sig [OF assms] by (auto split: option.splits)
  have b: "\<exists>sg. row_signature L uc sc r = Inr sg \<and> sig_to_row (sig_key sg) \<noteq> None"
    if r: "r \<in> set rs" for r
  proof -
    from index_rows_total [OF assms r] obtain sg where sg: "row_signature L uc sc r = Inr sg"
      by blast
    then have "has_sig L uc sc (sig_key sg) r" by (simp add: has_sig_def)
    from last_row_id_ex [of r rs "has_sig L uc sc (sig_key sg)", OF r this]
    have "last_row_id (has_sig L uc sc (sig_key sg)) rs \<noteq> None" .
    with sg show ?thesis by (simp add: a [rule_format])
  qed
  have c: "row_signature L uc sc r = Inr (PStr [], [], Finite 0, [])
             \<and> sig_to_row (PStr [], [], Finite 0, []) \<noteq> None"
    if r: "r \<in> set rs" and l: "length sc = 4"
      and n: "\<forall>c\<in>set (cells r). \<forall>cid\<in>set sc. \<not> col_match cid c" for r
  proof -
    have d: "row_signature L uc sc r = Inr (PStr [], [], Finite 0, [])"
      by (rule row_signature_default [OF l n])
    from b [OF r] d have "sig_to_row (sig_key (PStr [], [], Finite 0, [])) \<noteq> None" by auto
    with d show ?thesis by (simp add: sig_key_def)
  qed
  from a b c show ?thesis by blast
qed

theorem signature_index_last_row_witness:
  "\<exists>u s. index_rows (sample_lib Map.empty) (Some 1) [Some 2, Some 3, Some 4, Some 5]
            (Map.empty, Map.empty)
            [invoice_row 11 ''U1'' ''2025-07-01'' ''abc'' 100 ''G01'',
             invoice_row 12 ''U2'' ''2025-07-01'' ''ABC '' (100004 / 1000) ''G01'',
             \<lparr>row_id = 13, cells = []\<rparr>] = Inr (u, s)
     \<and> s (PStr ''2025-07-01'', ''ABC'', Finite 100, ''G01'') = Some 12
     \<and> s (PStr [], [], Finite 0, []) = Some 13"
proof -
  let ?rs = "[invoice_row 11 ''U1'' ''2025-07-01'' ''abc'' 100 ''G01'',
             invoice_row 12 ''U2'' ''2025-07-01'' ''ABC '' (100004 / 1000) ''G01'',
             \<lparr>row_id = 13, cells = []\<rparr>]"
  let ?L = "sample_lib Map.empty"
  let ?sc = "[Some 2, Some 3, Some 4, Some (5::int)]"
  have "\<not> isl (index_rows ?L (Some 1) ?sc (Map.empty, Map.empty) ?rs)"
    by code_simp
  then obtain u s where e: "index_rows ?L (Some 1) ?sc (Map.empty, Map.empty) ?rs = Inr (u, s)"
    by (cases "index_rows ?L (Some 1) ?sc (Map.empty, Map.empty) ?rs") auto
  from signature_index_last_row [OF e]
  have k: "\<And>k. s k = last_row_id (has_sig ?L (Some 1) ?sc k) ?rs" by blast
  have 1: "last_row_id (has_sig ?L (Some 1) ?sc (PStr ''2025-07-01'', ''ABC'', Finite 100, ''G01'')) ?rs
             = Some 12" by code_simp
  have 2: "last_row_id (has_sig ?L (Some 1) ?sc (PStr [], [], Finite 0, [])) ?rs = Some 13"
    by code_simp
  from e k 1 2 show ?thesis by auto
qed

subsection \<open>Classification of the invoices\<close>

lemma classify_result:
  "classify L cmap rules u s (ins, ups) fac =
     (case fac_signature L fac of
        Inl e \<Rightarrow> Inl e
      | Inr sg \<Rightarrow>
          if build_cells L cmap fac rules = [] then Inr (ins, ups)
          else (case target_row L u s fac of
                  None \<Rightarrow> Inr (ins @ [\<lparr>toBottom = True, ins_cells = build_cells L cmap fac rules\<rparr>], ups)
                | Some rid \<Rightarrow>
                    Inr (ins, ups @ [\<lparr>upd_id = rid, upd_cells = build_cells L cmap fac rules\<rparr>])))"
  by (auto simp: classify_def target_row_def Let_def split: sum.splits option.splits)

lemma reconcile_result:
  "reconcile L cmap rules u s (ins0, ups0) facs = Inr (ins, ups) \<Longrightarrow>
     ins = ins0 @ map (\<lambda>f. \<lparr>toBottom = True, ins_cells = build_cells L cmap f rules\<rparr>)
                    (filter (\<lambda>f. build_cells L cmap f rules \<noteq> [] \<and> target_row L u s f = None) facs)
     \<and> ups = ups0 @ map (\<lambda>f. \<lparr>upd_id = the (target_row L u s f),
                               upd_cells = build_cells L cmap f rules\<rparr>)
                    (filter (\<lambda>f. build_cells L cmap f rules \<noteq> [] \<and> target_row L u s f \<noteq> None) facs)"
proof (induction facs arbitrary: ins0 ups0)
  case Nil
  then show ?case by simp
next
  case (Cons f facs)
  from Cons.prems obtain ins1 ups1 where
    one: "classify L cmap rules u s (ins0, ups0) f = Inr (ins1, ups1)" and
    rest: "reconcile L cmap rules u s (ins1, ups1) facs = Inr (ins, ups)"
    by (auto split: sum.splits)
  from one have
    "(ins1, ups1) =
       (if build_cells L cmap f rules = [] then (ins0, ups0)
        else (case target_row L u s f of
                None \<Rightarrow> (ins0 @ [\<lparr>toBottom = True, ins_cells = build_cells L cmap f rules\<rparr>], ups0)
              | Some rid \<Rightarrow> (ins0, ups0 @ [\<lparr>upd_id = rid, upd_cells = build_cells L cmap f rules\<rparr>])))"
    by (auto simp: classify_result split: sum.splits if_splits option.splits)
  with Cons.IH [OF rest] show ?case
    by (auto split: if_splits option.splits)
qed

lemma reconcile_signatures:
  "reconcile L cmap rules u s acc facs = Inr acc' \<Longrightarrow> f \<in> set facs \<Longrightarrow>
     \<exists>sg. fac_signature L f = Inr sg"
proof (induction facs arbitrary: acc)
  case Nil
  then show ?case by simp
next
  case (Cons a facs)
  from Cons.prems(1) obtain acc1 where
    one: "classify L cmap rules u s acc a = Inr acc1" and
    rest: "reconcile L cmap rules u s acc1 facs = Inr acc'"
    by (auto split: sum.splits)
  from one have "\<exists>sg. fac_signature L a = Inr sg"
    by (cases acc) (auto simp: classify_result split: sum.splits)
  with Cons.IH [OF rest] Cons.prems(2) show ?case by auto
qed

text \<open>What \<open>_push_to_sheet\<close> returns when it does not raise.\<close>

lemma push_to_sheet_result:
  assumes "push_to_sheet L (Some sh) facs rules_json = Inr (ins, ups)"
  shows "\<exists>rules u s.
           (\<exists>rj. resolve_rules L rules_json = Inr rj \<and> rule_items rj = Inr rules)
         \<and> index_rows L (col_map L (columns sh) (slug_rule L rules ''UUID''))
              [col_map L (columns sh) (slug_rule L rules ''Date''),
               col_map L (columns sh) (slug_rule L rules ''RFC''),
               col_map L (columns sh) (slug_rule L rules ''Total''),
               col_map L (columns sh) (slug_rule L rules ''CFDIUse'')]
              (Map.empty, Map.empty) (rows sh) = Inr (u, s)
         \<and> reconcile L (col_map L (columns sh)) rules u s ([], []) facs = Inr (ins, ups)
         \<and> (\<forall>f. mapped_cells L sh rules_json f = build_cells L (col_map L (columns sh)) f rules)"
  using assms
  by (auto simp: push_to_sheet_def mapped_cells_def Let_def split: sum.splits prod.splits)

text \<open>
  Claim C1. An invoice whose stripped UUID is not empty and is in the identity index, and
  whose signature is in the signature index under another row, becomes an update of the row
  the identity index gives, whatever the signature index holds. The signature index decides
  only when the UUID is empty or is not in the identity index. Row identifiers of Smartsheet
  are positive; the code tests them for truth, so the identity row is taken to be non-zero.
\<close>

theorem identity_precedence:
  assumes "uuid_val L fac \<noteq> []"
    and "uuid_to_row (uuid_val L fac) = Some r1" and "r1 \<noteq> 0"
    and "fac_signature L fac = Inr sg"
    and "sig_to_row (sig_key sg) = Some r2" and "r1 \<noteq> r2"
    and "build_cells L cmap fac rules \<noteq> []"
  shows "classify L cmap rules uuid_to_row sig_to_row (inserts, updates) fac =
           Inr (inserts, updates @ [\<lparr>upd_id = r1, upd_cells = build_cells L cmap fac rules\<rparr>])
       \<and> (\<forall>sig_to_row'. resolve_row uuid_to_row sig_to_row' (uuid_val L fac) sg = Some r1)
       \<and> (\<forall>u. u = [] \<or> uuid_to_row u = None \<longrightarrow>
              resolve_row uuid_to_row sig_to_row u sg = sig_to_row (sig_key sg))"
proof -
  have r: "resolve_row uuid_to_row s' (uuid_val L fac) sg = Some r1" for s'
    using assms(1-3) by (simp add: resolve_row_def truthy_id_def)
  then have "target_row L uuid_to_row sig_to_row fac = Some r1"
    using assms(3,4) by (simp add: target_row_def)
  then have c: "classify L cmap rules uuid_to_row sig_to_row (inserts, updates) fac =
           Inr (inserts, updates @ [\<lparr>upd_id = r1, upd_cells = build_cells L cmap fac rules\<rparr>])"
    using assms(4,7) by (simp add: classify_result)
  have n: "resolve_row uuid_to_row sig_to_row u sg = sig_to_row (sig_key sg)"
    if "u = [] \<or> uuid_to_row u = None" for u
    using that by (auto simp: resolve_row_def truthy_id_def)
  from r c n show ?thesis by blast
qed

theorem identity_precedence_witness:
  "classify (sample_lib Map.empty) (col_map (sample_lib Map.empty) example_columns) default_pairs
     [''A1'' \<mapsto> 7] [(PStr ''2025-07-01'', ''ABC123'', Finite 100, ''G01'') \<mapsto> 9] ([], [])
     (invoice '' A1 '' ''2025-07-01'' ''abc123'' (100004 / 1000) ''G01'')
   = Inr ([], [\<lparr>upd_id = 7,
                upd_cells = build_cells (sample_lib Map.empty)
                  (col_map (sample_lib Map.empty) example_columns)
                  (invoice '' A1 '' ''2025-07-01'' ''abc123'' (100004 / 1000) ''G01'')
                  default_pairs\<rparr>])"
proof -
  let ?L = "sample_lib Map.empty"
  let ?f = "invoice '' A1 '' ''2025-07-01'' ''abc123'' (100004 / 1000) ''G01''"
  let ?u = "[''A1'' \<mapsto> (7::int)]"
  let ?s = "[(PStr ''2025-07-01'', ''ABC123'', Finite 100, ''G01'') \<mapsto> (9::int)]"
  have 1: "uuid_val ?L ?f \<noteq> []" by code_simp
  have 2: "?u (uuid_val ?L ?f) = Some 7" by code_simp
  have 4: "fac_signature ?L ?f = Inr (PStr ''2025-07-01'', ''ABC123'', Finite 100, ''G01'')"
    by code_simp
  have 5: "?s (sig_key (PStr ''2025-07-01'', ''ABC123'', Finite 100, ''G01'')) = Some 9"
    by code_simp
  have 7: "build_cells ?L (col_map ?L example_columns) ?f default_pairs \<noteq> []" by code_simp
  from identity_precedence [where L = ?L and fac = ?f and uuid_to_row = ?u and sig_to_row = ?s
      and ?r1.0 = 7 and ?r2.0 = 9 and cmap = "col_map ?L example_columns" and rules = default_pairs
      and inserts = "[]" and updates = "[]", OF 1 2 _ 4 5 _ 7]
  show ?thesis by simp
qed

text \<open>
  Claim C2. When \<open>_push_to_sheet\<close> returns, the inserts and the updates together are as many
  as the invoices that map to at least one cell, and they split those invoices in two: the
  inserts carry the cells of the ones that resolve to no row, the updates the cells of the
  others, both in the order of the batch. An invoice that maps to no cell is in neither.
\<close>

theorem insert_update_partition:
  assumes "push_to_sheet L (Some sh) facturas rules_json = Inr (inserts, updates)"
  shows "length inserts + length updates =
           length (filter (\<lambda>fac. mapped_cells L sh rules_json fac \<noteq> []) facturas)
       \<and> (\<exists>P. map ins_cells inserts =
                 map (mapped_cells L sh rules_json)
                   (filter (\<lambda>fac. mapped_cells L sh rules_json fac \<noteq> [] \<and> P fac) facturas)
              \<and> map upd_cells updates =
                 map (mapped_cells L sh rules_json)
                   (filter (\<lambda>fac. mapped_cells L sh rules_json fac \<noteq> [] \<and> \<not> P fac) facturas))"
proof -
  from push_to_sheet_result [OF assms] obtain rules u s where
    rec: "reconcile L (col_map L (columns sh)) rules u s ([], []) facturas = Inr (inserts, updates)"
    and mc: "\<And>f. mapped_cells L sh rules_json f = build_cells L (col_map L (columns sh)) f rules"
    by blast
  let ?c = "mapped_cells L sh rules_json"
  let ?P = "\<lambda>f. target_row L u s f = None"
  from reconcile_result [OF rec]
  have i: "inserts = map (\<lambda>f. \<lparr>toBottom = True, ins_cells = ?c f\<rparr>)
                       (filter (\<lambda>f. ?c f \<noteq> [] \<and> ?P f) facturas)"
    and up: "updates = map (\<lambda>f. \<lparr>upd_id = the (target_row L u s f), upd_cells = ?c f\<rparr>)
                       (filter (\<lambda>f. ?c f \<noteq> [] \<and> \<not> ?P f) facturas)"
    by (simp_all add: mc)
  have "length (filter (\<lambda>f. ?c f \<noteq> [] \<and> ?P f) facturas)
          + length (filter (\<lambda>f. ?c f \<noteq> [] \<and> \<not> ?P f) facturas)
        = length (filter (\<lambda>f. ?c f \<noteq> []) facturas)"
    using sum_length_filter_compl [of ?P "filter (\<lambda>f. ?c f \<noteq> []) facturas"]
    by (simp add: conj_commute)
  then have n: "length inserts + length updates = length (filter (\<lambda>f. ?c f \<noteq> []) facturas)"
    by (simp add: i up)
  have mi: "map ins_cells inserts = map ?c (filter (\<lambda>f. ?c f \<noteq> [] \<and> ?P f) facturas)"
    by (simp add: i comp_def)
  have mu: "map upd_cells updates = map ?c (filter (\<lambda>f. ?c f \<noteq> [] \<and> \<not> ?P f) facturas)"
    by (simp add: up comp_def)
  show ?thesis
    by (intro conjI exI [of _ ?P]) (use n mi mu in simp_all)
qed

theorem insert_update_partition_witness:
  "push_to_sheet (sample_lib Map.empty)
     (Some \<lparr>columns = example_columns,
            rows = [invoice_row 11 ''U1'' ''2025-07-01'' ''abc'' 100 ''G01'']\<rparr>)
     [invoice ''U1'' ''2025-07-09'' ''xyz'' 5 ''G03'', Map.empty,
      invoice ''U2'' ''2025-07-02'' ''abc'' 7 ''G01''] PNone
   = Inr ([\<lparr>toBottom = True,
            ins_cells = [\<lparr>columnId = 1, ovalue = PStr ''U2''\<rparr>,
                         \<lparr>columnId = 2, ovalue = PStr ''2025-07-02''\<rparr>,
                         \<lparr>columnId = 3, ovalue = PStr ''abc''\<rparr>,
                         \<lparr>columnId = 4, ovalue = PFloat (Finite 7)\<rparr>,
                         \<lparr>columnId = 5, ovalue = PStr ''G01''\<rparr>]\<rparr>],
          [\<lparr>upd_id = 11,
            upd_cells = [\<lparr>columnId = 1, ovalue = PStr ''U1''\<rparr>,
                         \<lparr>columnId = 2, ovalue = PStr ''2025-07-09''\<rparr>,
                         \<lparr>columnId = 3, ovalue = PStr ''xyz''\<rparr>,
                         \<lparr>columnId = 4, ovalue = PFloat (Finite 5)\<rparr>,
                         \<lparr>columnId = 5, ovalue = PStr ''G03''\<rparr>]\<rparr>])
   \<and> length (filter (\<lambda>fac. mapped_cells (sample_lib Map.empty)
                 \<lparr>columns = example_columns,
                  rows = [invoice_row 11 ''U1'' ''2025-07-01'' ''abc'' 100 ''G01'']\<rparr> PNone fac \<noteq> [])
        [invoice ''U1'' ''2025-07-09'' ''xyz'' 5 ''G03'', Map.empty,
         invoice ''U2'' ''2025-07-02'' ''abc'' 7 ''G01'']) = 2"
proof -
  have e: "push_to_sheet (sample_lib Map.empty)
     (Some \<lparr>columns = example_columns,
            rows = [invoice_row 11 ''U1'' ''2025-07-01'' ''abc'' 100 ''G01'']\<rparr>)
     [invoice ''U1'' ''2025-07-09'' ''xyz'' 5 ''G03'', Map.empty,
      invoice ''U2'' ''2025-07-02'' ''abc'' 7 ''G01''] PNone
   = Inr ([\<lparr>toBottom = True,
            ins_cells = [\<lparr>columnId = 1, ovalue = PStr ''U2''\<rparr>,
                         \<lparr>columnId = 2, ovalue = PStr ''2025-07-02''\<rparr>,
                         \<lparr>columnId = 3, ovalue = PStr ''abc''\<rparr>,
                         \<lparr>columnId = 4, ovalue = PFloat (Finite 7)\<rparr>,
                         \<lparr>columnId = 5, ovalue = PStr ''G01''\<rparr>]\<rparr>],
          [\<lparr>upd_id = 11,
            upd_cells = [\<lparr>columnId = 1, ovalue = PStr ''U1''\<rparr>,
                         \<lparr>columnId = 2, ovalue = PStr ''2025-07-09''\<rparr>,
                         \<lparr>columnId = 3, ovalue = PStr ''xyz''\<rparr>,
                         \<lparr>columnId = 4, ovalue = PFloat (Finite 5)\<rparr>,
                         \<lparr>columnId = 5, ovalue = PStr ''G03''\<rparr>]\<rparr>])"
    by code_simp
  from insert_update_partition [OF e] e show ?thesis by simp
qed

subsection \<open>Mapping rules\<close>

lemma rule_items_default: "rule_items default_rules = Inr default_pairs"
  by (simp add: rule_items_def default_rules_def default_pairs_def)

lemma rule_pairs_strings: "rule_pairs (map (\<lambda>(k, v). (k, JStr v)) ps) = Inr ps"
  by (induction ps) auto

lemma rule_pairs_not_string:
  "\<exists>(k, v)\<in>set kvs. \<forall>t. v \<noteq> JStr t \<Longrightarrow> rule_pairs kvs = Inl TypeError"
proof (induction kvs)
  case Nil
  then show ?case by simp
next
  case (Cons a kvs)
  obtain k v where a: "a = (k, v)" by (cases a)
  show ?case
  proof (cases v)
    case (JStr t)
    with Cons.prems a have "\<exists>(k, v)\<in>set kvs. \<forall>t. v \<noteq> JStr t" by auto
    from Cons.IH [OF this] a JStr show ?thesis by simp
  qed (simp_all add: a)
qed

lemma mapping_rules_default:
  "resolve_rules L rules_json = Inr default_rules \<Longrightarrow> mapping_rules L rules_json = Inr default_pairs"
  by (simp add: mapping_rules_def rule_items_default)

lemma resolve_rules_map:
  "s \<noteq> [] \<Longrightarrow> json_loads L s = Some (JObj kvs) \<Longrightarrow> map_of kvs ''map'' = Some m \<Longrightarrow> jtruthy m
     \<Longrightarrow> resolve_rules L (PStr s) = Inr m"
  by (simp add: resolve_rules_def load_rules_def jor_def jget_def)

lemma push_to_sheet_rules_error:
  "mapping_rules L rules_json = Inl e \<Longrightarrow> push_to_sheet L (Some sh) facturas rules_json = Inl e"
  by (auto simp: mapping_rules_def push_to_sheet_def Let_def split: sum.splits)

lemma push_to_sheet_nothing:
  "mapping_rules L rules_json = Inr rules \<Longrightarrow> rows sh = [] \<Longrightarrow>
     push_to_sheet L (Some sh) [] rules_json = Inr ([], [])"
  by (auto simp: mapping_rules_def push_to_sheet_def Let_def split: sum.splits)

text \<open>
  Claim C7, as amended. A rules cell that is empty or absent, a value that is not a string, a
  string that \<open>json.loads\<close> rejects, a document that is not an object, and an object whose
  \<open>map\<close> is missing, null or empty all give the five built-in default rules, and the run
  goes on without an error. An object whose \<open>map\<close> is an object of strings that is not empty
  gives the items of that \<open>map\<close>, in order. Any other \<open>map\<close> that is not empty does not fall
  back to the defaults: the line that builds \<open>slug_rules\<close> is outside the \<open>try\<close>, and the
  run ends there with \<open>AttributeError\<close> for a \<open>map\<close> that is no object and with \<open>TypeError\<close>
  for one with a destination that is no string.
\<close>

theorem rule_resolution:
  "(\<not> truthy rules_json \<longrightarrow> mapping_rules L rules_json = Inr default_pairs)
   \<and> ((\<forall>t. rules_json \<noteq> PStr t) \<longrightarrow> mapping_rules L rules_json = Inr default_pairs)
   \<and> (json_loads L s = None \<longrightarrow> mapping_rules L (PStr s) = Inr default_pairs)
   \<and> (json_loads L s = Some j \<and> (\<forall>kvs. j \<noteq> JObj kvs) \<longrightarrow>
        mapping_rules L (PStr s) = Inr default_pairs)
   \<and> (json_loads L s = Some (JObj kvs) \<and> \<not> jtruthy (jget kvs ''map'') \<longrightarrow>
        mapping_rules L (PStr s) = Inr default_pairs)
   \<and> (s \<noteq> [] \<and> json_loads L s = Some (JObj kvs) \<and> ps \<noteq> []
        \<and> map_of kvs ''map'' = Some (JObj (map (\<lambda>(k, v). (k, JStr v)) ps)) \<longrightarrow>
        mapping_rules L (PStr s) = Inr ps)
   \<and> (s \<noteq> [] \<and> json_loads L s = Some (JObj kvs) \<and> map_of kvs ''map'' = Some m \<and> jtruthy m
        \<and> (\<forall>items. m \<noteq> JObj items) \<longrightarrow>
        mapping_rules L (PStr s) = Inl AttributeError)
   \<and> (s \<noteq> [] \<and> json_loads L s = Some (JObj kvs) \<and> map_of kvs ''map'' = Some (JObj items)
        \<and> (\<exists>(k, v)\<in>set items. \<forall>t. v \<noteq> JStr t) \<longrightarrow>
        mapping_rules L (PStr s) = Inl TypeError)
   \<and> (\<forall>e. mapping_rules L rules_json = Inl e \<longrightarrow>
         push_to_sheet L (Some sh) facturas rules_json = Inl e)
   \<and> (\<forall>rules. mapping_rules L rules_json = Inr rules \<and> rows sh = [] \<longrightarrow>
         push_to_sheet L (Some sh) [] rules_json = Inr ([], []))
   \<and> default_pairs =
        [(''UUID'', ''UUID''), (''Date'', ''Fecha emisi'' @ [CHR 0xF3] @ ''n''),
         (''RFC'', ''RFC Receptor''), (''Total'', ''Total''), (''CFDIUse'', ''Tipo CFDI'')]"
proof -
  have 1: "\<not> truthy rules_json \<longrightarrow> mapping_rules L rules_json = Inr default_pairs"
    by (simp add: mapping_rules_default resolve_rules_def load_rules_def jor_def)
  have 2: "(\<forall>t. rules_json \<noteq> PStr t) \<longrightarrow> mapping_rules L rules_json = Inr default_pairs"
    by (cases rules_json)
      (simp_all add: mapping_rules_default resolve_rules_def load_rules_def jor_def)
  have 3: "json_loads L s = None \<longrightarrow> mapping_rules L (PStr s) = Inr default_pairs"
    by (simp add: mapping_rules_default resolve_rules_def load_rules_def jor_def)
  have 4: "json_loads L s = Some j \<and> (\<forall>kvs. j \<noteq> JObj kvs) \<longrightarrow>
        mapping_rules L (PStr s) = Inr default_pairs"
    by (cases j) (simp_all add: mapping_rules_default resolve_rules_def load_rules_def jor_def)
  have 5: "json_loads L s = Some (JObj kvs) \<and> \<not> jtruthy (jget kvs ''map'') \<longrightarrow>
        mapping_rules L (PStr s) = Inr default_pairs"
    by (simp add: mapping_rules_default resolve_rules_def load_rules_def jor_def)
  have 6: "s \<noteq> [] \<and> json_loads L s = Some (JObj kvs) \<and> ps \<noteq> []
        \<and> map_of kvs ''map'' = Some (JObj (map (\<lambda>(k, v). (k, JStr v)) ps)) \<longrightarrow>
        mapping_rules L (PStr s) = Inr ps"
    by (simp add: mapping_rules_def resolve_rules_map rule_items_def rule_pairs_strings)
  have 7: "s \<noteq> [] \<and> json_loads L s = Some (JObj kvs) \<and> map_of kvs ''map'' = Some m \<and> jtruthy m
        \<and> (\<forall>items. m \<noteq> JObj items) \<longrightarrow> mapping_rules L (PStr s) = Inl AttributeError"
    by (cases m) (simp_all add: mapping_rules_def resolve_rules_map rule_items_def)
  have 8: "s \<noteq> [] \<and> json_loads L s = Some (JObj kvs) \<and> map_of kvs ''map'' = Some (JObj items)
        \<and> (\<exists>(k, v)\<in>set items. \<forall>t. v \<noteq> JStr t) \<longrightarrow> mapping_rules L (PStr s) = Inl TypeError"
  proof (intro impI, elim conjE)
    assume a: "s \<noteq> []" "json_loads L s = Some (JObj kvs)" "map_of kvs ''map'' = Some (JObj items)"
      and b: "\<exists>(k, v)\<in>set items. \<forall>t. v \<noteq> JStr t"
    from b have "items \<noteq> []" by auto
    then have "jtruthy (JObj items)" by simp
    from resolve_rules_map [OF a this] rule_pairs_not_string [OF b]
    show "mapping_rules L (PStr s) = Inl TypeError"
      by (simp add: mapping_rules_def rule_items_def)
  qed
  have 9: "\<forall>e. mapping_rules L rules_json = Inl e \<longrightarrow>
         push_to_sheet L (Some sh) facturas rules_json = Inl e"
    by (simp add: push_to_sheet_rules_error)
  have 10: "\<forall>rules. mapping_rules L rules_json = Inr rules \<and> rows sh = [] \<longrightarrow>
         push_to_sheet L (Some sh) [] rules_json = Inr ([], [])"
    by (auto simp: push_to_sheet_nothing)
  have 11: "default_pairs =
        [(''UUID'', ''UUID''), (''Date'', ''Fecha emisi'' @ [CHR 0xF3] @ ''n''),
         (''RFC'', ''RFC Receptor''), (''Total'', ''Total''), (''CFDIUse'', ''Tipo CFDI'')]"
    by (simp add: default_pairs_def)
  from 1 2 3 4 5 6 7 8 9 10 11 show ?thesis by (intro conjI)
qed

theorem rule_resolution_witness:
  \<open>mapping_rules (sample_lib rules_docs) PNone = Inr default_pairs
   \<and> mapping_rules (sample_lib rules_docs) (PInt 5) = Inr default_pairs
   \<and> mapping_rules (sample_lib rules_docs) (PStr ''{"map": '') = Inr default_pairs
   \<and> mapping_rules (sample_lib rules_docs) (PStr ''[1]'') = Inr default_pairs
   \<and> mapping_rules (sample_lib rules_docs) (PStr ''{"map": null}'') = Inr default_pairs
   \<and> mapping_rules (sample_lib rules_docs) (PStr ''{"map": {"UUID": "Folio"}}'')
       = Inr [(''UUID'', ''Folio'')]
   \<and> push_to_sheet (sample_lib rules_docs) (Some \<lparr>columns = example_columns, rows = []\<rparr>) []
         (PStr ''{"map": {"UUID": "Folio"}}'')
       = Inr ([], [])\<close>
proof -
  let ?L = "sample_lib rules_docs"
  let ?sh = "\<lparr>columns = example_columns, rows = []\<rparr>"
  have a: "\<not> truthy PNone" "\<forall>t. PInt 5 \<noteq> PStr t" by simp_all
  have b: \<open>json_loads ?L ''{"map": '' = None\<close> by code_simp
  have c: \<open>json_loads ?L ''[1]'' = Some (JArr [JNum (Finite 1)])
           \<and> (\<forall>kvs. JArr [JNum (Finite 1)] \<noteq> JObj kvs)\<close>
    by (rule conjI, code_simp, simp)
  have d: \<open>json_loads ?L ''{"map": null}'' = Some (JObj [(''map'', JNull)])
           \<and> \<not> jtruthy (jget [(''map'', JNull)] ''map'')\<close>
    by code_simp
  have e: \<open>''{"map": {"UUID": "Folio"}}'' \<noteq> []
           \<and> json_loads ?L ''{"map": {"UUID": "Folio"}}''
               = Some (JObj [(''map'', JObj [(''UUID'', JStr ''Folio'')])])
           \<and> [(''UUID'', ''Folio'')] \<noteq> []
           \<and> map_of [(''map'', JObj [(''UUID'', JStr ''Folio'')])] ''map''
               = Some (JObj (map (\<lambda>(k, v). (k, JStr v)) [(''UUID'', ''Folio'')]))\<close>
    by code_simp
  note t = rule_resolution [where L = ?L and sh = ?sh]
  have 1: "mapping_rules ?L PNone = Inr default_pairs"
    by (rule t [where rules_json = PNone, THEN conjunct1, THEN mp, OF a(1)])
  have 2: "mapping_rules ?L (PInt 5) = Inr default_pairs"
    by (rule t [where rules_json = "PInt 5", THEN conjunct2, THEN conjunct1, THEN mp, OF a(2)])
  have 3: \<open>mapping_rules ?L (PStr ''{"map": '') = Inr default_pairs\<close>
    by (rule t [THEN conjunct2, THEN conjunct2, THEN conjunct1, THEN mp, OF b])
  have 4: \<open>mapping_rules ?L (PStr ''[1]'') = Inr default_pairs\<close>
    by (rule t [THEN conjunct2, THEN conjunct2, THEN conjunct2, THEN conjunct1, THEN mp, OF c])
  have 5: \<open>mapping_rules ?L (PStr ''{"map": null}'') = Inr default_pairs\<close>
    by (rule t [THEN conjunct2, THEN conjunct2, THEN conjunct2, THEN conjunct2, THEN conjunct1,
          THEN mp, OF d])
  have 6: \<open>mapping_rules ?L (PStr ''{"map": {"UUID": "Folio"}}'') = Inr [(''UUID'', ''Folio'')]\<close>
    by (rule t [THEN conjunct2, THEN conjunct2, THEN conjunct2, THEN conjunct2, THEN conjunct2,
          THEN conjunct1, THEN mp, OF e])
  have 7: \<open>push_to_sheet ?L (Some ?sh) [] (PStr ''{"map": {"UUID": "Folio"}}'') = Inr ([], [])\<close>
    using t [where rules_json = \<open>PStr ''{"map": {"UUID": "Folio"}}''\<close>, THEN conjunct2,
        THEN conjunct2, THEN conjunct2, THEN conjunct2, THEN conjunct2, THEN conjunct2,
        THEN conjunct2, THEN conjunct2, THEN conjunct2, THEN conjunct1, rule_format,
        of "[(''UUID'', ''Folio'')]"] 6
    by simp
  from 1 2 3 4 5 6 7 show ?thesis by (intro conjI)
qed

text \<open>
  A \<open>map\<close> that is a string passes the \<open>try\<close> and the run ends with \<open>AttributeError\<close> at
  \<open>rules.items()\<close>; a \<open>map\<close> with a number as destination ends it with \<open>TypeError\<close>.
\<close>

theorem truthy_map_not_replaced:
  \<open>resolve_rules (sample_lib rules_docs) (PStr ''{"map": "x"}'') = Inr (JStr ''x'')
   \<and> mapping_rules (sample_lib rules_docs) (PStr ''{"map": "x"}'') = Inl AttributeError
   \<and> push_to_sheet (sample_lib rules_docs) (Some example_sheet) example_batch
         (PStr ''{"map": "x"}'')
       = Inl AttributeError
   \<and> mapping_rules (sample_lib rules_docs) (PStr ''{"map": {"UUID": 5}}'') = Inl TypeError
   \<and> push_to_sheet (sample_lib rules_docs) (Some example_sheet) example_batch
         (PStr ''{"map": {"UUID": 5}}'')
       = Inl TypeError\<close>
  by code_simp

subsection \<open>The scenario of one new invoice\<close>

lemma scenario_facts:
  "dict_get scenario_invoice ''UUID'' = PStr ''A1''"
  "dict_get scenario_invoice ''Date''
     = PStr ''2025-07-01''"
  "dict_get scenario_invoice ''RFC''
     = PStr ''abc123''"
  "dict_get scenario_invoice ''Total''
     = PFloat (nearest_double (100004 / 1000))"
  "dict_get scenario_invoice ''CFDIUse''
     = PStr ''G01''"
  "startswith (str_lower ''UUID'') ''date'' = False"
  "startswith (str_lower ''Date'') ''date'' = True"
  "startswith (str_lower ''RFC'') ''date'' = False"
  "startswith (str_lower ''Total'') ''date'' = False"
  "startswith (str_lower ''CFDIUse'') ''date'' = False"
  "date_isoformat (2025, 7, 1) = ''2025-07-01''"
  "strip ''A1'' = ''A1''" "strip ''abc123'' = ''abc123''" "strip ''G01'' = ''G01''"
  "round2 (nearest_double (100004 / 1000)) = Finite 100"
  "round2 (nearest_double (25001 / 250)) = Finite 100"
  by code_simp+

text \<open>
  Claim C8, as amended. The invoice with UUID A1, date 2025-07-01, RFC abc123, total 100.004
  and use G01, reconciled with the default rules against a sheet without rows whose columns
  resolve the five default titles, gives exactly one insert and no update. Its cells carry
  the UUID, the date as \<open>2025-07-01\<close>, the RFC as fetched and the total as fetched, 100.004.
  Only the signature holds the total rounded to 100 and the RFC in upper case.
\<close>

theorem scenario_one_insert:
  assumes "date_fromisoformat L ''2025-07-01'' = Some (2025, 7, 1)"
    and "rows sh = []" and "\<not> truthy rules_json"
    and "col_map L (columns sh) (slug L ''UUID'') = Some c1" and "c1 \<noteq> 0"
    and "col_map L (columns sh) (slug L (''Fecha emisi'' @ [CHR 0xF3] @ ''n'')) = Some c2"
    and "c2 \<noteq> 0"
    and "col_map L (columns sh) (slug L ''RFC Receptor'') = Some c3" and "c3 \<noteq> 0"
    and "col_map L (columns sh) (slug L ''Total'') = Some c4" and "c4 \<noteq> 0"
    and "col_map L (columns sh) (slug L ''Tipo CFDI'') = Some c5" and "c5 \<noteq> 0"
  shows "push_to_sheet L (Some sh)
           [scenario_invoice] rules_json
         = Inr ([\<lparr>toBottom = True,
                  ins_cells = [\<lparr>columnId = c1, ovalue = PStr ''A1''\<rparr>,
                               \<lparr>columnId = c2, ovalue = PStr ''2025-07-01''\<rparr>,
                               \<lparr>columnId = c3, ovalue = PStr ''abc123''\<rparr>,
                               \<lparr>columnId = c4,
                                ovalue = PFloat (nearest_double (100004 / 1000))\<rparr>,
                               \<lparr>columnId = c5, ovalue = PStr ''G01''\<rparr>]\<rparr>], [])
       \<and> fac_signature L scenario_invoice
         = Inr (PStr ''2025-07-01'', str_upper L ''abc123'', Finite 100, ''G01'')"
proof -
  let ?f = "scenario_invoice"
  let ?cm = "col_map L (columns sh)"
  have iso: "iso L (PStr ''2025-07-01'') = PStr ''2025-07-01''"
    using assms(1) by (simp add: iso_def scenario_facts)
  have sg: "fac_signature L ?f
              = Inr (PStr ''2025-07-01'', str_upper L ''abc123'', Finite 100, ''G01'')"
    by (simp add: fac_signature_def make_signature_def scenario_facts py_or_def iso
        coerce_total_def mark_nan_sig_def)
  have rules: "resolve_rules L rules_json = Inr default_rules"
    using assms(3) by (simp add: resolve_rules_def load_rules_def jor_def)
  have cells: "build_cells L ?cm ?f default_pairs =
      [\<lparr>columnId = c1, ovalue = PStr ''A1''\<rparr>,
       \<lparr>columnId = c2, ovalue = PStr ''2025-07-01''\<rparr>,
       \<lparr>columnId = c3, ovalue = PStr ''abc123''\<rparr>,
       \<lparr>columnId = c4, ovalue = PFloat (nearest_double (100004 / 1000))\<rparr>,
       \<lparr>columnId = c5, ovalue = PStr ''G01''\<rparr>]"
    using assms(4-13) by (simp add: default_pairs_def scenario_facts iso)
  have tr: "target_row L Map.empty Map.empty ?f = None"
    by (simp add: target_row_def sg resolve_row_def truthy_id_def)
  have "classify L ?cm default_pairs Map.empty Map.empty ([], []) ?f =
      Inr ([\<lparr>toBottom = True, ins_cells = build_cells L ?cm ?f default_pairs\<rparr>], [])"
    by (simp add: classify_result sg tr cells)
  then have "push_to_sheet L (Some sh) [?f] rules_json =
      Inr ([\<lparr>toBottom = True, ins_cells = build_cells L ?cm ?f default_pairs\<rparr>], [])"
    using assms(2) by (simp add: push_to_sheet_def rules rule_items_default)
  with cells sg show ?thesis by simp
qed

theorem scenario_one_insert_witness:
  "push_to_sheet (sample_lib Map.empty) (Some \<lparr>columns = example_columns, rows = []\<rparr>)
     [scenario_invoice] PNone
   = Inr ([\<lparr>toBottom = True,
            ins_cells = [\<lparr>columnId = 1, ovalue = PStr ''A1''\<rparr>,
                         \<lparr>columnId = 2, ovalue = PStr ''2025-07-01''\<rparr>,
                         \<lparr>columnId = 3, ovalue = PStr ''abc123''\<rparr>,
                         \<lparr>columnId = 4, ovalue = PFloat (nearest_double (100004 / 1000))\<rparr>,
                         \<lparr>columnId = 5, ovalue = PStr ''G01''\<rparr>]\<rparr>], [])"
proof -
  let ?L = "sample_lib Map.empty"
  let ?sh = "\<lparr>columns = example_columns, rows = []\<rparr>"
  have 1: "date_fromisoformat ?L ''2025-07-01'' = Some (2025, 7, 1)" by code_simp
  have 2: "rows ?sh = []" by simp
  have 3: "\<not> truthy PNone" by simp
  have 4: "col_map ?L (columns ?sh) (slug ?L ''UUID'') = Some 1" by code_simp
  have 5: "col_map ?L (columns ?sh) (slug ?L (''Fecha emisi'' @ [CHR 0xF3] @ ''n'')) = Some 2"
    by code_simp
  have 6: "col_map ?L (columns ?sh) (slug ?L ''RFC Receptor'') = Some 3" by code_simp
  have 7: "col_map ?L (columns ?sh) (slug ?L ''Total'') = Some 4" by code_simp
  have 8: "col_map ?L (columns ?sh) (slug ?L ''Tipo CFDI'') = Some 5" by code_simp
  from scenario_one_insert [OF 1 2 3 4 _ 5 _ 6 _ 7 _ 8] show ?thesis by simp
qed

text \<open>The Total cell holds the amount as fetched, not the amount rounded to 100.\<close>

theorem scenario_total_cell_not_rounded:
  "push_to_sheet (sample_lib Map.empty) (Some \<lparr>columns = example_columns, rows = []\<rparr>)
     [scenario_invoice] PNone
   \<noteq> Inr ([\<lparr>toBottom = True,
            ins_cells = [\<lparr>columnId = 1, ovalue = PStr ''A1''\<rparr>,
                         \<lparr>columnId = 2, ovalue = PStr ''2025-07-01''\<rparr>,
                         \<lparr>columnId = 3, ovalue = PStr ''abc123''\<rparr>,
                         \<lparr>columnId = 4, ovalue = PFloat (Finite 100)\<rparr>,
                         \<lparr>columnId = 5, ovalue = PStr ''G01''\<rparr>]\<rparr>], [])
   \<and> map ovalue (concat (map ins_cells (fst (projr
        (push_to_sheet (sample_lib Map.empty) (Some \<lparr>columns = example_columns, rows = []\<rparr>)
           [scenario_invoice] PNone)))))
     = [PStr ''A1'', PStr ''2025-07-01'', PStr ''abc123'',
        PFloat (nearest_double (100004 / 1000)), PStr ''G01'']"
  by code_simp

subsection \<open>Scheduler\<close>

lemma snd_job_cell:
  "snd (job_cell L ci cl st c) =
     (if cl = Some (column_id c) then parse_iso L (py_or (cvalue c) (display_value c))
      else snd st)"
  by (cases st) (simp add: job_cell_def)

lemma job_cells_last:
  "snd (foldl (job_cell L ci cl) (n, u) cs) =
     (case rev (filter (\<lambda>c. cl = Some (column_id c)) cs) of
        [] \<Rightarrow> u
      | c # _ \<Rightarrow> parse_iso L (py_or (cvalue c) (display_value c)))"
proof (induction cs rule: rev_induct)
  case Nil
  then show ?case by simp
next
  case (snoc c cs)
  then show ?case by (simp add: snd_job_cell)
qed

lemma row_schedule_last:
  "snd (row_schedule L ci cl r) =
     (case cell_of cl r of
        None \<Rightarrow> None
      | Some c \<Rightarrow> parse_iso L (py_or (cvalue c) (display_value c)))"
  by (simp add: row_schedule_def cell_of_def job_cells_last split: list.splits)

text \<open>The decision on the timestamp \<open>_parse_iso\<close> returned.\<close>

lemma job_row_due_iff:
  assumes "row_schedule L ci cl r = (n, u)" and "0 < n"
  shows "job_row L ci cl now r = Due \<longleftrightarrow>
           (u = None \<or> (\<exists>d. u = Some d \<and>
              of_int n \<le> mins_between \<lparr>wall = now + mx_utcoffset L now, tzinfo = Some MX_TZ\<rparr> d))"
  using assms by (cases u) (simp_all add: job_row_def Let_def)

lemma parse_iso_mx: "parse_iso L s = Some d \<Longrightarrow> tzinfo d = Some MX_TZ"
  by (auto simp: parse_iso_def astimezone_mx_def Let_def
      split: if_splits pyval.splits option.splits tz.splits sum.splits)

text \<open>
  Claim C5, evaluated. The scheduler finishes a cycle at 18:00:00 UTC on 2025-07-05 and
  \<open>_actualizar_timestamps\<close> writes \<open>2025-07-05T18:00:00Z\<close> as the last execution. With an
  interval of 30 minutes the row is still waiting at 18:30:00 UTC, thirty minutes later:
  \<open>_parse_iso\<close> drops the \<open>Z\<close> and reads the rest as a time of day in Mexico City, six
  hours later than the instant written. The row becomes due at 00:30:00 UTC on the next day.
\<close>

theorem written_timestamp_read_as_local:
  "fst (actualizar_timestamps (instant 2025 7 5 18 0 0) 30) = ''2025-07-05T18:00:00Z''
   \<and> job_row (sample_lib Map.empty) (Some 8) (Some 9) (instant 2025 7 5 18 30 0)
        (config_row 30 (fst (actualizar_timestamps (instant 2025 7 5 18 0 0) 30))) = Waiting
   \<and> job_row (sample_lib Map.empty) (Some 8) (Some 9) (instant 2025 7 6 0 29 59)
        (config_row 30 (fst (actualizar_timestamps (instant 2025 7 5 18 0 0) 30))) = Waiting
   \<and> job_row (sample_lib Map.empty) (Some 8) (Some 9) (instant 2025 7 6 0 30 0)
        (config_row 30 (fst (actualizar_timestamps (instant 2025 7 5 18 0 0) 30))) = Due"
  by code_simp

text \<open>
  Claim C10, as amended. For a row with a positive interval whose cell of the last execution
  holds a string that \<open>fromisoformat\<close> rejects once every \<open>Z\<close> is removed, \<open>_parse_iso\<close> returns
  \<open>None\<close> and the row is due at every tick.
\<close>

theorem unparsable_last_execution_is_due:
  assumes "0 < fst (row_schedule L col_int col_last r)"
    and "cell_of col_last r = Some c"
    and "py_or (cvalue c) (display_value c) = PStr s"
    and "datetime_fromisoformat L (filter (\<lambda>x. x \<noteq> CHR ''Z'') s) = None"
  shows "parse_iso L (PStr s) = None
       \<and> snd (row_schedule L col_int col_last r) = None
       \<and> (\<forall>now. job_row L col_int col_last now r = Due)"
proof -
  have p: "parse_iso L (PStr s) = None"
    using assms(4) by (simp add: parse_iso_def)
  have u: "snd (row_schedule L col_int col_last r) = None"
    using assms(2,3) p by (simp add: row_schedule_last)
  obtain n where n: "row_schedule L col_int col_last r = (n, None)"
    using u by (cases "row_schedule L col_int col_last r") simp
  with assms(1) have "job_row L col_int col_last now r = Due" for now
    by (simp add: job_row_def Let_def)
  with p u show ?thesis by blast
qed

theorem unparsable_last_execution_is_due_witness:
  "parse_iso (sample_lib Map.empty) (PStr ''ayer'') = None
   \<and> job_row (sample_lib Map.empty) (Some 8) (Some 9) (instant 2025 7 5 18 30 0)
        (config_row 30 ''ayer'') = Due"
proof -
  let ?L = "sample_lib Map.empty"
  let ?c = "\<lparr>column_id = 9, cvalue = PStr ''ayer'', display_value = PStr ''ayer''\<rparr>"
  have 1: "0 < fst (row_schedule ?L (Some 8) (Some 9) (config_row 30 ''ayer''))" by code_simp
  have 2: "cell_of (Some 9) (config_row 30 ''ayer'') = Some ?c" by code_simp
  have 3: "py_or (cvalue ?c) (display_value ?c) = PStr ''ayer''" by code_simp
  have 4: "datetime_fromisoformat ?L (filter (\<lambda>x. x \<noteq> CHR ''Z'') ''ayer'') = None" by code_simp
  from unparsable_last_execution_is_due [OF 1 2 3 4] show ?thesis by blast
qed

text \<open>
  A string that is no ISO-8601 timestamp, with two \<open>Z\<close> at its end, parses once they are
  removed: the parser returns a timestamp and the row waits.
\<close>

theorem stray_z_timestamp_parses:
  "datetime_fromisoformat (sample_lib Map.empty) ''2099-01-01T00:00:00ZZ'' = None
   \<and> parse_iso (sample_lib Map.empty) (PStr ''2099-01-01T00:00:00ZZ'')
       = Some \<lparr>wall = instant 2099 1 1 0 0 0, tzinfo = Some MX_TZ\<rparr>
   \<and> job_row (sample_lib Map.empty) (Some 8) (Some 9) (instant 2025 7 5 18 30 0)
        (config_row 30 ''2099-01-01T00:00:00ZZ'') = Waiting"
  by code_simp

subsection \<open>Fetch aggregator\<close>

lemma zip_map_same: "zip xs (map f xs) = map (\<lambda>x. (x, f x)) xs"
  by (induction xs) simp_all

lemma result_dict_lookup:
  "distinct (map K ts) \<Longrightarrow> t \<in> set ts \<Longrightarrow>
     foldl (\<lambda>m (t, res). m(K t \<mapsto> V res)) m0 (map (\<lambda>x. (x, F x)) ts) (K t) = Some (V (F t))"
proof (induction ts rule: rev_induct)
  case Nil
  then show ?case by simp
next
  case (snoc x ts)
  show ?case
  proof (cases "t = x")
    case True
    then show ?thesis by simp
  next
    case False
    from False snoc.prems have t: "t \<in> set ts" by simp
    from snoc.prems have d: "distinct (map K ts)" by simp
    from snoc.prems have "K x \<notin> K ` set ts" by simp
    with t have "K t \<noteq> K x" by (metis imageI)
    with snoc.IH [OF d t] show ?thesis by simp
  qed
qed

lemma result_dict_other:
  "k \<notin> K ` set ts \<Longrightarrow>
     foldl (\<lambda>m (t, res). m(K t \<mapsto> V res)) m0 (map (\<lambda>x. (x, F x)) ts) k = m0 k"
  by (induction ts rule: rev_induct) auto

text \<open>
  Claim C4, as amended. When the labels of the attempted accounts are pairwise different
  (as keys of a dict), the rows are read without an exception, and either nothing is pushed
  or every push returns, the aggregator returns a dict: it holds for every attempted
  account, under its label, the exception of its fetch or the number of invoices fetched,
  and nothing else. The entry of an account is a function of the outcome of its own fetch.
\<close>

theorem fetch_failure_isolation:
  assumes "prepare_rows L id_fila cfg = Inr tasks"
    and "distinct (map (\<lambda>t. py_key (etiqueta t)) tasks)"
    and "push_mode \<longrightarrow>
           push_all push
             (zip tasks (map (\<lambda>t. fetch (task_url t) (task_token t) (task_filtro t)) tasks))
           = None"
  shows "\<exists>m. traer_facturas_por_empresas L fetch push cfg id_fila push_mode = Inr m
           \<and> (\<forall>t\<in>set tasks.
                 m (py_key (etiqueta t))
                 = Some (result_entry (fetch (task_url t) (task_token t) (task_filtro t))))
           \<and> (\<forall>k. k \<notin> (\<lambda>t. py_key (etiqueta t)) ` set tasks \<longrightarrow> m k = None)"
proof -
  let ?F = "\<lambda>t. fetch (task_url t) (task_token t) (task_filtro t)"
  let ?K = "\<lambda>t. py_key (etiqueta t)"
  let ?m = "foldl (\<lambda>m (t, res). m(?K t \<mapsto> result_entry res)) Map.empty
              (map (\<lambda>x. (x, ?F x)) tasks)"
  have r: "traer_facturas_por_empresas L fetch push cfg id_fila push_mode = Inr ?m"
    using assms(1,3)
    by (cases push_mode) (simp_all add: traer_facturas_por_empresas_def Let_def zip_map_same)
  have a: "?m (?K t) = Some (result_entry (?F t))" if "t \<in> set tasks" for t
    using result_dict_lookup [where K = ?K and V = result_entry and F = ?F, OF assms(2) that] .
  have b: "?m k = None" if "k \<notin> ?K ` set tasks" for k
    using result_dict_other [where K = ?K and V = result_entry and F = ?F, OF that] by simp
  from r a b show ?thesis by blast
qed

theorem fetch_failure_isolation_witness:
  "\<exists>m. traer_facturas_por_empresas (sample_lib Map.empty) (fetch_but ''t2'') push_ok
          [account_row ''1'' ''Uno'' ''t1'', account_row ''2'' ''Dos'' ''t2'',
           account_row ''3'' ''Tres'' ''t3''] PNone False = Inr m
      \<and> m (PStr ''Uno'') = Some (Count 3)
      \<and> m (PStr ''Dos'') = Some (Captured ReadTimeout)
      \<and> m (PStr ''Tres'') = Some (Count 3)"
proof -
  let ?L = "sample_lib Map.empty"
  let ?cfg = "[account_row ''1'' ''Uno'' ''t1'', account_row ''2'' ''Dos'' ''t2'',
           account_row ''3'' ''Tres'' ''t3'']"
  let ?ts = "[account_task ''Uno'' ''t1'', account_task ''Dos'' ''t2'', account_task ''Tres'' ''t3'']"
  have 1: "prepare_rows ?L PNone ?cfg = Inr ?ts" by code_simp
  have 2: "distinct (map (\<lambda>t. py_key (etiqueta t)) ?ts)" by code_simp
  from fetch_failure_isolation [where fetch = "fetch_but ''t2''" and push = push_ok
      and push_mode = False, OF 1 2]
  obtain m where m: "traer_facturas_por_empresas ?L (fetch_but ''t2'') push_ok ?cfg PNone False = Inr m"
    and e: "\<forall>t\<in>set ?ts. m (py_key (etiqueta t))
              = Some (result_entry (fetch_but ''t2'' (task_url t) (task_token t) (task_filtro t)))"
    by auto
  from e have "m (py_key (etiqueta (account_task ''Uno'' ''t1'')))
      = Some (result_entry (fetch_but ''t2'' (task_url (account_task ''Uno'' ''t1''))
           (task_token (account_task ''Uno'' ''t1'')) (task_filtro (account_task ''Uno'' ''t1''))))"
    by simp
  then have u: "m (PStr ''Uno'') = Some (Count 3)"
    by (simp add: account_task_def fetch_but_def result_entry_def)
  from e have "m (py_key (etiqueta (account_task ''Dos'' ''t2'')))
      = Some (result_entry (fetch_but ''t2'' (task_url (account_task ''Dos'' ''t2''))
           (task_token (account_task ''Dos'' ''t2'')) (task_filtro (account_task ''Dos'' ''t2''))))"
    by simp
  then have d: "m (PStr ''Dos'') = Some (Captured ReadTimeout)"
    by (simp add: account_task_def fetch_but_def result_entry_def)
  from e have "m (py_key (etiqueta (account_task ''Tres'' ''t3'')))
      = Some (result_entry (fetch_but ''t2'' (task_url (account_task ''Tres'' ''t3''))
           (task_token (account_task ''Tres'' ''t3'')) (task_filtro (account_task ''Tres'' ''t3''))))"
    by simp
  then have t: "m (PStr ''Tres'') = Some (Count 3)"
    by (simp add: account_task_def fetch_but_def result_entry_def)
  from m u d t show ?thesis by blast
qed

text \<open>
  Two accounts with the same label: the first times out, the second succeeds. Both are
  attempted, and the dict holds one entry, the count of the second; the exception of the
  first is nowhere in it.
\<close>

theorem same_label_hides_failure:
  "prepare_rows (sample_lib Map.empty) PNone
     [account_row ''1'' ''ACME'' ''t1'', account_row ''2'' ''ACME'' ''t2'']
   = Inr [account_task ''ACME'' ''t1'', account_task ''ACME'' ''t2'']
   \<and> projl (fetch_but ''t1'' (task_url (account_task ''ACME'' ''t1'')) (PStr ''t1'') [])
       = ReadTimeout
   \<and> \<not> isl (traer_facturas_por_empresas (sample_lib Map.empty) (fetch_but ''t1'') push_ok
        [account_row ''1'' ''ACME'' ''t1'', account_row ''2'' ''ACME'' ''t2''] PNone False)
   \<and> projr (traer_facturas_por_empresas (sample_lib Map.empty) (fetch_but ''t1'') push_ok
        [account_row ''1'' ''ACME'' ''t1'', account_row ''2'' ''ACME'' ''t2''] PNone False)
       (PStr ''ACME'') = Some (Count 3)
   \<and> projr (traer_facturas_por_empresas (sample_lib Map.empty) (fetch_but ''t1'') push_ok
        [account_row ''1'' ''ACME'' ''t1'', account_row ''2'' ''ACME'' ''t2''] PNone False)
       (PStr ''ID-1'') = None"
  by code_simp

subsection \<open>Writing a batch to the store\<close>

lemma set_cell_hit:
  "\<exists>c\<in>set cs. column_id c = columnId oc \<Longrightarrow>
     set_cell render oc cs =
       map (\<lambda>c. if column_id c = columnId oc
                 then c\<lparr>cvalue := ovalue oc, display_value := render (ovalue oc)\<rparr> else c) cs"
  unfolding set_cell_def by (rule if_P)

lemma set_cell_miss:
  "\<not> (\<exists>c\<in>set cs. column_id c = columnId oc) \<Longrightarrow>
     set_cell render oc cs =
       cs @ [\<lparr>column_id = columnId oc, cvalue = ovalue oc, display_value = render (ovalue oc)\<rparr>]"
  unfolding set_cell_def by (rule if_not_P)

lemma set_cell_cases:
  assumes "c' \<in> set (set_cell render oc cs)"
  shows "(c' \<in> set cs \<and> column_id c' \<noteq> columnId oc)
       \<or> (column_id c' = columnId oc \<and> cvalue c' = ovalue oc)"
proof (cases "\<exists>c\<in>set cs. column_id c = columnId oc")
  case True
  from assms obtain c where c: "c \<in> set cs"
    and e: "c' = (if column_id c = columnId oc
                  then c\<lparr>cvalue := ovalue oc, display_value := render (ovalue oc)\<rparr> else c)"
    unfolding set_cell_hit [OF True] set_map by blast
  show ?thesis
  proof (cases "column_id c = columnId oc")
    case True
    with e show ?thesis by simp
  next
    case False
    with e c show ?thesis by simp
  qed
next
  case False
  from assms have "c' \<in> set cs
      \<or> c' = \<lparr>column_id = columnId oc, cvalue = ovalue oc, display_value = render (ovalue oc)\<rparr>"
    unfolding set_cell_miss [OF False] by auto
  then show ?thesis
  proof
    assume "c' \<in> set cs"
    with False show ?thesis by blast
  next
    assume "c' = \<lparr>column_id = columnId oc, cvalue = ovalue oc,
                   display_value = render (ovalue oc)\<rparr>"
    then show ?thesis by simp
  qed
qed

lemma set_cell_keeps:
  assumes "c \<in> set cs" and "column_id c \<noteq> columnId oc"
  shows "c \<in> set (set_cell render oc cs)"
proof (cases "\<exists>c\<in>set cs. column_id c = columnId oc")
  case True
  let ?f = "\<lambda>c. if column_id c = columnId oc
                then c\<lparr>cvalue := ovalue oc, display_value := render (ovalue oc)\<rparr> else c"
  from assms(2) have "?f c = c" by simp
  moreover from assms(1) have "?f c \<in> ?f ` set cs" by (rule imageI)
  ultimately have "c \<in> ?f ` set cs" by simp
  then show ?thesis unfolding set_cell_hit [OF True] set_map .
next
  case False
  from assms(1) show ?thesis unfolding set_cell_miss [OF False] by simp
qed

lemma set_cell_has: "\<exists>c'\<in>set (set_cell render oc cs). column_id c' = columnId oc"
proof (cases "\<exists>c\<in>set cs. column_id c = columnId oc")
  case True
  then obtain c where c: "c \<in> set cs" "column_id c = columnId oc" by blast
  let ?f = "\<lambda>c. if column_id c = columnId oc
                then c\<lparr>cvalue := ovalue oc, display_value := render (ovalue oc)\<rparr> else c"
  from c(1) have "?f c \<in> ?f ` set cs" by (rule imageI)
  then have m: "?f c \<in> set (set_cell render oc cs)" unfolding set_cell_hit [OF True] set_map .
  from c(2) have "column_id (?f c) = columnId oc" by simp
  with m show ?thesis by blast
next
  case False
  show ?thesis unfolding set_cell_miss [OF False] by simp
qed

lemma set_cell_establish:
  assumes "columnId oc = cid" and "ovalue oc = v"
  shows "column_holds cid v (set_cell render oc cs)"
proof -
  from set_cell_has [of render oc cs] assms(1)
  have e: "\<exists>c\<in>set (set_cell render oc cs). column_id c = cid" by simp
  have "cvalue c' = v" if "c' \<in> set (set_cell render oc cs)" "column_id c' = cid" for c'
    using set_cell_cases [OF that(1)] that(2) assms by auto
  with e show ?thesis unfolding column_holds_def by simp
qed

lemma set_cell_preserve:
  assumes "column_holds cid v cs" and "columnId oc \<noteq> cid"
  shows "column_holds cid v (set_cell render oc cs)"
proof -
  from assms(1) obtain c where c: "c \<in> set cs" "column_id c = cid"
    and a: "\<forall>c\<in>set cs. column_id c = cid \<longrightarrow> cvalue c = v"
    unfolding column_holds_def by blast
  from c assms(2) have "c \<in> set (set_cell render oc cs)" by (intro set_cell_keeps) simp_all
  with c(2) have e: "\<exists>c\<in>set (set_cell render oc cs). column_id c = cid" by (rule_tac bexI)
  have "cvalue c' = v" if "c' \<in> set (set_cell render oc cs)" "column_id c' = cid" for c'
    using set_cell_cases [OF that(1)] that(2) assms(2) a by auto
  with e show ?thesis unfolding column_holds_def by simp
qed


lemma write_cells_Cons:
  "write_cells render (oc # ocs) cs = write_cells render ocs (set_cell render oc cs)"
  by (simp add: write_cells_def)

lemma write_cells_preserve:
  "column_holds cid v cs \<Longrightarrow> \<forall>oc\<in>set ocs. columnId oc = cid \<longrightarrow> ovalue oc = v \<Longrightarrow>
     column_holds cid v (write_cells render ocs cs)"
proof (induction ocs arbitrary: cs)
  case Nil
  then show ?case by (simp add: write_cells_def)
next
  case (Cons oc ocs)
  have "column_holds cid v (set_cell render oc cs)"
  proof (cases "columnId oc = cid")
    case True
    with Cons.prems(2) show ?thesis by (simp add: set_cell_establish)
  next
    case False
    with Cons.prems(1) show ?thesis by (simp add: set_cell_preserve)
  qed
  with Cons.IH Cons.prems(2) show ?case by (simp add: write_cells_Cons)
qed

lemma write_cells_establish:
  "\<exists>oc\<in>set ocs. columnId oc = cid \<Longrightarrow> \<forall>oc\<in>set ocs. columnId oc = cid \<longrightarrow> ovalue oc = v \<Longrightarrow>
     column_holds cid v (write_cells render ocs cs)"
proof (induction ocs arbitrary: cs)
  case Nil
  then show ?case by simp
next
  case (Cons oc ocs)
  show ?case
  proof (cases "columnId oc = cid")
    case True
    with Cons.prems(2) have "column_holds cid v (set_cell render oc cs)"
      by (simp add: set_cell_establish)
    with Cons.prems(2) show ?thesis
      by (simp add: write_cells_Cons write_cells_preserve)
  next
    case False
    with Cons.prems have "\<exists>oc\<in>set ocs. columnId oc = cid"
      and "\<forall>oc\<in>set ocs. columnId oc = cid \<longrightarrow> ovalue oc = v" by auto
    with Cons.IH show ?thesis by (simp add: write_cells_Cons)
  qed
qed

lemma fst_scan_cell:
  "fst (scan_cell L uc sc st c) =
     (if col_match uc c \<and> truthy (cvalue c) then Some (strip (py_str L (cvalue c))) else fst st)"
  by (cases st) (simp add: scan_cell_def)

lemma scan_cells_uuid:
  "fst (foldl (scan_cell L uc sc) st cs) =
     (case rev (filter (\<lambda>c. col_match uc c \<and> truthy (cvalue c)) cs) of
        [] \<Rightarrow> fst st
      | c # _ \<Rightarrow> Some (strip (py_str L (cvalue c))))"
proof (induction cs rule: rev_induct)
  case Nil
  then show ?case by simp
next
  case (snoc c cs)
  then show ?case by (simp add: fst_scan_cell)
qed

lemma column_holds_has_uuid:
  assumes "column_holds cid v (cells r)" and "cid \<noteq> 0" and "truthy v"
    and "strip (py_str L v) \<noteq> []"
  shows "has_uuid L (Some cid) sc (strip (py_str L v)) r"
proof -
  let ?P = "\<lambda>c. col_match (Some cid) c \<and> truthy (cvalue c)"
  from assms(1) obtain c0 where c0: "c0 \<in> set (cells r)" "column_id c0 = cid"
    and all: "\<forall>c\<in>set (cells r). column_id c = cid \<longrightarrow> cvalue c = v"
    by (auto simp: column_holds_def)
  from c0 all have "cvalue c0 = v" by simp
  with c0 assms(2,3) have "?P c0" by (simp add: col_match_def truthy_id_def)
  with c0(1) have "c0 \<in> set (filter ?P (cells r))" by simp
  then have ne: "rev (filter ?P (cells r)) \<noteq> []" by (metis empty_iff empty_set rev_is_Nil_conv)
  then obtain c cs where c: "rev (filter ?P (cells r)) = c # cs"
    by (cases "rev (filter ?P (cells r))") simp_all
  then have "c \<in> set (filter ?P (cells r))" by (metis list.set_intros(1) set_rev)
  then have "c \<in> set (cells r)" "column_id c = cid"
    by (simp_all add: col_match_def)
  with all have "cvalue c = v" by simp
  with c have "fst (scan_row L (Some cid) sc r) = Some (strip (py_str L v))"
    by (simp add: scan_row_def scan_cells_uuid)
  with assms(4) show ?thesis by (simp add: has_uuid_def)
qed

lemma build_cells_Cons:
  "build_cells L cmap fac ((src, d) # rules) =
     (case cmap (slug L d) of
        None \<Rightarrow> []
      | Some cid \<Rightarrow>
          if cid = 0 \<or> dict_get fac src = PNone then []
          else [\<lparr>columnId = cid,
                 ovalue = (if startswith (str_lower src) ''date''
                           then iso L (PStr (py_str L (dict_get fac src)))
                           else dict_get fac src)\<rparr>])
     @ build_cells L cmap fac rules"
  by (simp add: Let_def split: option.splits)

lemma build_cells_source:
  "oc \<in> set (build_cells L cmap fac rules) \<Longrightarrow>
     \<exists>src d. (src, d) \<in> set rules \<and> cmap (slug L d) = Some (columnId oc)
       \<and> ovalue oc = (if startswith (str_lower src) ''date''
                      then iso L (PStr (py_str L (dict_get fac src))) else dict_get fac src)"
proof (induction rules)
  case Nil
  then show ?case by simp
next
  case (Cons a rules)
  obtain src d where a: "a = (src, d)" by (cases a)
  show ?case
  proof (cases "oc \<in> set (build_cells L cmap fac rules)")
    case True
    from Cons.IH [OF this] obtain s1 d1 where
      "(s1, d1) \<in> set rules" "cmap (slug L d1) = Some (columnId oc)"
      "ovalue oc = (if startswith (str_lower s1) ''date''
                      then iso L (PStr (py_str L (dict_get fac s1))) else dict_get fac s1)"
      by blast
    then show ?thesis by (intro exI [of _ s1] exI [of _ d1]) simp
  next
    case False
    with Cons.prems have "cmap (slug L d) = Some (columnId oc)
      \<and> ovalue oc = (if startswith (str_lower src) ''date''
                      then iso L (PStr (py_str L (dict_get fac src))) else dict_get fac src)"
      unfolding a build_cells_Cons by (auto split: option.splits if_splits)
    then show ?thesis unfolding a by (intro exI [of _ src] exI [of _ d]) simp
  qed
qed

lemma build_cells_hit:
  "(src, d) \<in> set rules \<Longrightarrow> cmap (slug L d) = Some cid \<Longrightarrow> cid \<noteq> 0 \<Longrightarrow>
     dict_get fac src \<noteq> PNone \<Longrightarrow> \<exists>oc\<in>set (build_cells L cmap fac rules). columnId oc = cid"
proof (induction rules)
  case Nil
  then show ?case by simp
next
  case (Cons a rules)
  obtain s' d' where a: "a = (s', d')" by (cases a)
  show ?case
  proof (cases "a = (src, d)")
    case True
    with Cons.prems show ?thesis by (simp add: build_cells_Cons del: build_cells.simps)
  next
    case False
    with Cons.prems have "(src, d) \<in> set rules" by simp
    from Cons.IH [OF this Cons.prems(2,3,4)] show ?thesis
      unfolding a build_cells_Cons by auto
  qed
qed

lemma uuid_key_not_date: "startswith (str_lower ''UUID'') ''date'' = False"
  by code_simp

lemma build_cells_uuid:
  assumes "map_of rules ''UUID'' = Some dst" and "cmap (slug L dst) = Some cid" and "cid \<noteq> 0"
    and "dict_get fac ''UUID'' \<noteq> PNone"
    and "\<forall>(src, d)\<in>set rules. cmap (slug L d) = Some cid \<longrightarrow> src = ''UUID''"
  shows "(\<exists>oc\<in>set (build_cells L cmap fac rules). columnId oc = cid)
       \<and> (\<forall>oc\<in>set (build_cells L cmap fac rules).
             columnId oc = cid \<longrightarrow> ovalue oc = dict_get fac ''UUID'')"
proof -
  from assms(1) have "(''UUID'', dst) \<in> set rules" by (rule map_of_SomeD)
  from build_cells_hit [where cmap = cmap and L = L and fac = fac, OF this assms(2,3,4)]
  have 1: "\<exists>oc\<in>set (build_cells L cmap fac rules). columnId oc = cid" .
  have 2: "ovalue oc = dict_get fac ''UUID''"
    if "oc \<in> set (build_cells L cmap fac rules)" "columnId oc = cid" for oc
  proof -
    from build_cells_source [OF that(1)] obtain src d where
      sd: "(src, d) \<in> set rules" "cmap (slug L d) = Some (columnId oc)"
      and v: "ovalue oc = (if startswith (str_lower src) ''date''
                      then iso L (PStr (py_str L (dict_get fac src))) else dict_get fac src)"
      by blast
    from sd(2) that(2) have "cmap (slug L d) = Some cid" by simp
    with sd(1) assms(5) have "src = ''UUID''" by auto
    with v show ?thesis by (simp add: uuid_key_not_date)
  qed
  from 1 2 show ?thesis by simp
qed

lemma uuid_val_present:
  assumes "uuid_val L fac \<noteq> []"
  shows "truthy (dict_get fac ''UUID'') \<and> uuid_val L fac = strip (py_str L (dict_get fac ''UUID''))"
  using assms by (cases "truthy (dict_get fac ''UUID'')") (simp_all add: uuid_val_def py_or_def strip_Nil)

lemma apply_update_ids: "map row_id (apply_update render u rs) = map row_id rs"
  unfolding apply_update_def by (induction rs) simp_all

lemma apply_updates_Cons:
  "apply_updates render (u # us) rs = apply_updates render us (apply_update render u rs)"
  by (simp add: apply_updates_def)

lemma apply_updates_ids: "map row_id (apply_updates render us rs) = map row_id rs"
proof (induction us arbitrary: rs)
  case Nil
  then show ?case by (simp add: apply_updates_def)
next
  case (Cons u us)
  then show ?case by (simp add: apply_updates_Cons apply_update_ids)
qed

lemma apply_update_other:
  assumes "r \<in> set rs" and "row_id r \<noteq> upd_id u"
  shows "r \<in> set (apply_update render u rs)"
proof -
  let ?f = "\<lambda>r. if row_id r = upd_id u
               then r\<lparr>cells := write_cells render (upd_cells u) (cells r)\<rparr> else r"
  from assms(2) have "?f r = r" by simp
  moreover from assms(1) have "?f r \<in> ?f ` set rs" by (rule imageI)
  ultimately have "r \<in> ?f ` set rs" by simp
  then show ?thesis unfolding apply_update_def set_map .
qed

lemma apply_update_same:
  assumes "r \<in> set rs" and "row_id r = upd_id u"
  shows "r\<lparr>cells := write_cells render (upd_cells u) (cells r)\<rparr> \<in> set (apply_update render u rs)"
proof -
  let ?f = "\<lambda>r. if row_id r = upd_id u
               then r\<lparr>cells := write_cells render (upd_cells u) (cells r)\<rparr> else r"
  from assms(2) have "?f r = r\<lparr>cells := write_cells render (upd_cells u) (cells r)\<rparr>" by simp
  moreover from assms(1) have "?f r \<in> ?f ` set rs" by (rule imageI)
  ultimately have "r\<lparr>cells := write_cells render (upd_cells u) (cells r)\<rparr> \<in> ?f ` set rs"
    by simp
  then show ?thesis unfolding apply_update_def set_map .
qed

lemma apply_updates_unchanged:
  "r \<in> set rs \<Longrightarrow> row_id r \<notin> upd_id ` set us \<Longrightarrow> r \<in> set (apply_updates render us rs)"
proof (induction us arbitrary: rs)
  case Nil
  then show ?case by (simp add: apply_updates_def)
next
  case (Cons u us)
  from Cons.prems(2) have a: "row_id r \<noteq> upd_id u" and b: "row_id r \<notin> upd_id ` set us"
    by simp_all
  from apply_update_other [OF Cons.prems(1) a]
  have "r \<in> set (apply_update render u rs)" .
  from Cons.IH [OF this b] show ?case by (simp add: apply_updates_Cons)
qed

lemma apply_updates_written:
  "distinct (map upd_id us) \<Longrightarrow> u \<in> set us \<Longrightarrow> r \<in> set rs \<Longrightarrow> row_id r = upd_id u \<Longrightarrow>
     r\<lparr>cells := write_cells render (upd_cells u) (cells r)\<rparr> \<in> set (apply_updates render us rs)"
proof (induction us arbitrary: rs)
  case Nil
  then show ?case by simp
next
  case (Cons a us)
  from Cons.prems(1) have na: "upd_id a \<notin> upd_id ` set us" and d: "distinct (map upd_id us)"
    by simp_all
  show ?case
  proof (cases "u = a")
    case True
    let ?r = "r\<lparr>cells := write_cells render (upd_cells u) (cells r)\<rparr>"
    from apply_update_same [OF Cons.prems(3,4)]
    have m: "?r \<in> set (apply_update render a rs)" unfolding True .
    from Cons.prems(4) na have "row_id ?r \<notin> upd_id ` set us" unfolding True by simp
    from apply_updates_unchanged [OF m this] show ?thesis by (simp add: apply_updates_Cons)
  next
    case False
    with Cons.prems(2) have u: "u \<in> set us" by simp
    then have "upd_id u \<in> upd_id ` set us" by (rule imageI)
    with na have "upd_id u \<noteq> upd_id a" by metis
    with Cons.prems(4) have "row_id r \<noteq> upd_id a" by simp
    from apply_update_other [OF Cons.prems(3) this]
    have "r \<in> set (apply_update render a rs)" .
    from Cons.IH [OF d u this Cons.prems(4)] show ?thesis by (simp add: apply_updates_Cons)
  qed
qed

subsection \<open>A second run after the writes of the first\<close>

lemma resolve_row_source:
  assumes "resolve_row u s k sg = Some rid"
  shows "u k = Some rid \<or> s (sig_key sg) = Some rid"
  using assms by (auto simp: resolve_row_def Let_def truthy_id_def split: if_splits option.splits)

lemma target_row_is_row:
  assumes "index_rows L uc sc (Map.empty, Map.empty) rs = Inr (u, s)"
    and "target_row L u s f = Some rid"
  shows "rid \<in> row_id ` set rs \<and> rid \<noteq> 0"
proof -
  from assms(2) obtain sg where r: "resolve_row u s (uuid_val L f) sg = Some rid" and z: "rid \<noteq> 0"
    by (auto simp: target_row_def split: sum.splits option.splits if_splits)
  from resolve_row_source [OF r] have "\<exists>P. last_row_id P rs = Some rid"
  proof
    assume "u (uuid_val L f) = Some rid"
    with index_rows_uuid [OF assms(1), of "uuid_val L f"]
    have "last_row_id (has_uuid L uc sc (uuid_val L f)) rs = Some rid"
      by (simp split: option.splits)
    then show ?thesis by (intro exI)
  next
    assume "s (sig_key sg) = Some rid"
    with index_rows_sig [OF assms(1), of "sig_key sg"]
    have "last_row_id (has_sig L uc sc (sig_key sg)) rs = Some rid"
      by (simp split: option.splits)
    then show ?thesis by (intro exI)
  qed
  then obtain P where "last_row_id P rs = Some rid" ..
  from last_row_id_mem [OF this] obtain r where "r \<in> set rs" "row_id r = rid" by auto
  then have "rid \<in> row_id ` set rs" by (metis imageI)
  with z show ?thesis by simp
qed

lemma uuid_lookup_after:
  assumes "index_rows L uc sc (Map.empty, Map.empty) rs = Inr (u, s)"
    and "r \<in> set rs" and "has_uuid L uc sc k r" and "\<forall>r\<in>set rs. row_id r \<noteq> 0"
  shows "\<exists>rid. u k = Some rid \<and> rid \<noteq> 0"
proof -
  from last_row_id_ex [of r rs "has_uuid L uc sc k", OF assms(2,3)]
  obtain rid where l: "last_row_id (has_uuid L uc sc k) rs = Some rid" by auto
  from last_row_id_mem [OF l] obtain r' where "r' \<in> set rs" "row_id r' = rid" by auto
  with assms(4) have "rid \<noteq> 0" by auto
  moreover from index_rows_uuid [OF assms(1), of k] l have "u k = Some rid" by simp
  ultimately show ?thesis by simp
qed

lemma target_row_by_uuid:
  assumes "uuid_val L f \<noteq> []" and "fac_signature L f = Inr sg"
    and "u (uuid_val L f) = Some rid" and "rid \<noteq> 0"
  shows "target_row L u s f = Some rid"
  using assms by (simp add: target_row_def resolve_row_def truthy_id_def)

lemma apply_inserts_old: "r \<in> set rs \<Longrightarrow> r \<in> set (apply_inserts render ids ins rs)"
  by (simp add: apply_inserts_def)

lemma apply_inserts_new:
  assumes "length ids = length ins" and "n \<in> set ins"
  shows "\<exists>i\<in>set ids. \<lparr>row_id = i, cells = write_cells render (ins_cells n) []\<rparr>
            \<in> set (apply_inserts render ids ins rs)"
proof -
  from in_set_impl_in_set_zip2 [OF assms] obtain i where z: "(i, n) \<in> set (zip ids ins)"
    by blast
  then have i: "i \<in> set ids" by (rule set_zip_leftD)
  let ?g = "\<lambda>(i, n). \<lparr>row_id = i, cells = write_cells render (ins_cells n) []\<rparr>"
  from z have "?g (i, n) \<in> ?g ` set (zip ids ins)" by (rule imageI)
  then have "\<lparr>row_id = i, cells = write_cells render (ins_cells n) []\<rparr>
      \<in> set (apply_inserts render ids ins rs)"
    by (simp add: apply_inserts_def)
  with i show ?thesis by (rule_tac bexI)
qed

lemma apply_inserts_ids:
  "length ids = length ins \<Longrightarrow>
     map row_id (apply_inserts render ids ins rs) = map row_id rs @ ids"
proof -
  assume l: "length ids = length ins"
  have "map (row_id \<circ> (\<lambda>(i, n). \<lparr>row_id = i, cells = write_cells render (ins_cells n) []\<rparr>))
          (zip ids ins) = map fst (zip ids ins)"
    by (rule map_cong) auto
  also have "\<dots> = ids" using l by simp
  finally show ?thesis by (simp add: apply_inserts_def)
qed

lemma inserted_member:
  assumes "reconcile L cmap rules u s ([], []) facs = Inr (ins, ups)"
    and "f \<in> set facs" and "build_cells L cmap f rules \<noteq> []" and "target_row L u s f = None"
  shows "\<lparr>toBottom = True, ins_cells = build_cells L cmap f rules\<rparr> \<in> set ins"
proof -
  let ?g = "\<lambda>f. \<lparr>toBottom = True, ins_cells = build_cells L cmap f rules\<rparr>"
  let ?A = "filter (\<lambda>f. build_cells L cmap f rules \<noteq> [] \<and> target_row L u s f = None) facs"
  from reconcile_result [OF assms(1)] have i: "ins = map ?g ?A" by simp
  from assms(2-4) have "f \<in> set ?A" by simp
  then have "?g f \<in> ?g ` set ?A" by (rule imageI)
  then show ?thesis unfolding i set_map .
qed

lemma updated_member:
  assumes "reconcile L cmap rules u s ([], []) facs = Inr (ins, ups)"
    and "f \<in> set facs" and "build_cells L cmap f rules \<noteq> []" and "target_row L u s f = Some rid"
  shows "\<lparr>upd_id = rid, upd_cells = build_cells L cmap f rules\<rparr> \<in> set ups"
proof -
  let ?g = "\<lambda>f. \<lparr>upd_id = the (target_row L u s f), upd_cells = build_cells L cmap f rules\<rparr>"
  let ?A = "filter (\<lambda>f. build_cells L cmap f rules \<noteq> [] \<and> target_row L u s f \<noteq> None) facs"
  from reconcile_result [OF assms(1)] have i: "ups = map ?g ?A" by simp
  from assms(2-4) have "f \<in> set ?A" by simp
  then have "?g f \<in> ?g ` set ?A" by (rule imageI)
  moreover from assms(4) have "?g f = \<lparr>upd_id = rid, upd_cells = build_cells L cmap f rules\<rparr>"
    by simp
  ultimately show ?thesis unfolding i set_map by simp
qed

lemma update_source:
  assumes "reconcile L cmap rules u s ([], []) facs = Inr (ins, ups)" and "x \<in> set ups"
  shows "\<exists>f\<in>set facs. target_row L u s f = Some (upd_id x)"
proof -
  let ?g = "\<lambda>f. \<lparr>upd_id = the (target_row L u s f), upd_cells = build_cells L cmap f rules\<rparr>"
  let ?A = "filter (\<lambda>f. build_cells L cmap f rules \<noteq> [] \<and> target_row L u s f \<noteq> None) facs"
  from reconcile_result [OF assms(1)] have i: "ups = map ?g ?A" by simp
  from assms(2) obtain f where f: "f \<in> set ?A" and x: "x = ?g f"
    unfolding i set_map by (rule imageE)
  from f have m: "f \<in> set facs" and "target_row L u s f \<noteq> None" by simp_all
  then obtain rid where r: "target_row L u s f = Some rid" by auto
  with x have "upd_id x = rid" by simp
  with r m show ?thesis by (rule_tac bexI) simp_all
qed

lemma second_run_all_updates:
  assumes "reconcile L cmap rules u s ([], []) facs = Inr (ins, ups)"
    and "\<forall>f\<in>set facs. build_cells L cmap f rules \<noteq> [] \<longrightarrow> target_row L u s f \<noteq> None"
  shows "ins = [] \<and> map upd_cells ups =
           map (\<lambda>f. build_cells L cmap f rules) (filter (\<lambda>f. build_cells L cmap f rules \<noteq> []) facs)"
proof -
  let ?c = "\<lambda>f. build_cells L cmap f rules"
  from assms(2) have e: "filter (\<lambda>f. ?c f \<noteq> [] \<and> target_row L u s f = None) facs = []"
    by (auto simp: filter_empty_conv)
  from assms(2) have a: "filter (\<lambda>f. ?c f \<noteq> [] \<and> target_row L u s f \<noteq> None) facs
      = filter (\<lambda>f. ?c f \<noteq> []) facs"
    by (intro filter_cong) auto
  from reconcile_result [OF assms(1)] e a show ?thesis by (simp add: comp_def)
qed

text \<open>
  Claim C3, as amended. The first run returns its batches and the store applies them: new
  rows get fresh identifiers that are not 0, and no two updates of the batch name the same
  row. Every invoice has a UUID that is not empty once stripped, the rules map \<open>UUID\<close> to a
  column of the sheet and no other rule writes to that column. Then a second run on the
  resulting sheet, when it returns, inserts nothing: every invoice that maps to a cell is an
  update.
\<close>

theorem second_run_updates_only:
  assumes run1: "push_to_sheet L (Some sh) facturas rules_json = Inr (inserts, updates)"
    and run2: "push_to_sheet L (Some (after_push render ids (inserts, updates) sh)) facturas
                 rules_json = Inr (inserts2, updates2)"
    and present: "\<forall>fac\<in>set facturas. uuid_val L fac \<noteq> []"
    and unique: "distinct (map (uuid_val L) facturas)"
    and rule: "map_of (push_rules L rules_json) ''UUID'' = Some dst"
    and col: "col_map L (columns sh) (slug L dst) = Some ucid" and colnz: "ucid \<noteq> 0"
    and only: "\<forall>(src, d)\<in>set (push_rules L rules_json).
                 col_map L (columns sh) (slug L d) = Some ucid \<longrightarrow> src = ''UUID''"
    and targets: "distinct (map upd_id updates)"
    and len: "length ids = length inserts" and idnz: "0 \<notin> set ids"
    and fresh: "set ids \<inter> row_id ` set (rows sh) = {}"
    and rownz: "\<forall>r\<in>set (rows sh). row_id r \<noteq> 0"
  shows "inserts2 = []
       \<and> map upd_cells updates2 =
           map (mapped_cells L sh rules_json)
             (filter (\<lambda>fac. mapped_cells L sh rules_json fac \<noteq> []) facturas)"
proof -
  let ?cm = "col_map L (columns sh)"
  let ?sh' = "after_push render ids (inserts, updates) sh"
  let ?rows1 = "apply_inserts render ids inserts (rows sh)"
  let ?rows' = "apply_updates render updates ?rows1"
  have cols: "columns ?sh' = columns sh" and rows': "rows ?sh' = ?rows'"
    by (simp_all add: after_push_def)
  from push_to_sheet_result [OF run1] obtain rules u1 s1 where
    rj1: "\<exists>rj. resolve_rules L rules_json = Inr rj \<and> rule_items rj = Inr rules"
    and ix1: "index_rows L (?cm (slug_rule L rules ''UUID''))
              [?cm (slug_rule L rules ''Date''), ?cm (slug_rule L rules ''RFC''),
               ?cm (slug_rule L rules ''Total''), ?cm (slug_rule L rules ''CFDIUse'')]
              (Map.empty, Map.empty) (rows sh) = Inr (u1, s1)"
    and rec1: "reconcile L ?cm rules u1 s1 ([], []) facturas = Inr (inserts, updates)"
    and mc: "\<And>f. mapped_cells L sh rules_json f = build_cells L ?cm f rules"
    by blast
  from push_to_sheet_result [OF run2] obtain rules2 u2 s2 where
    rj2: "\<exists>rj. resolve_rules L rules_json = Inr rj \<and> rule_items rj = Inr rules2"
    and ix2': "index_rows L (col_map L (columns ?sh') (slug_rule L rules2 ''UUID''))
              [col_map L (columns ?sh') (slug_rule L rules2 ''Date''),
               col_map L (columns ?sh') (slug_rule L rules2 ''RFC''),
               col_map L (columns ?sh') (slug_rule L rules2 ''Total''),
               col_map L (columns ?sh') (slug_rule L rules2 ''CFDIUse'')]
              (Map.empty, Map.empty) (rows ?sh') = Inr (u2, s2)"
    and rec2': "reconcile L (col_map L (columns ?sh')) rules2 u2 s2 ([], []) facturas
                 = Inr (inserts2, updates2)"
    by blast
  from rj1 rj2 have same: "rules2 = rules" by auto
  from rj1 have pr: "push_rules L rules_json = rules" by (auto simp: push_rules_def)
  from rule pr have uc: "?cm (slug_rule L rules ''UUID'') = Some ucid"
    using col by (simp add: slug_rule_def)
  let ?sc = "[?cm (slug_rule L rules ''Date''), ?cm (slug_rule L rules ''RFC''),
               ?cm (slug_rule L rules ''Total''), ?cm (slug_rule L rules ''CFDIUse'')]"
  from ix1 have ix1: "index_rows L (Some ucid) ?sc (Map.empty, Map.empty) (rows sh) = Inr (u1, s1)"
    unfolding uc .
  from ix2' have ix2: "index_rows L (Some ucid) ?sc (Map.empty, Map.empty) ?rows' = Inr (u2, s2)"
    unfolding cols rows' same uc .
  from rec2' have rec2: "reconcile L ?cm rules u2 s2 ([], []) facturas = Inr (inserts2, updates2)"
    unfolding cols same .
  have upd_old: "upd_id x \<in> row_id ` set (rows sh)" if "x \<in> set updates" for x
  proof -
    from update_source [OF rec1 that] obtain f where "target_row L u1 s1 f = Some (upd_id x)"
      by blast
    from target_row_is_row [OF ix1 this] show ?thesis by simp
  qed
  have ids': "map row_id ?rows' = map row_id (rows sh) @ ids"
    by (simp add: apply_updates_ids apply_inserts_ids [OF len])
  have nz': "\<forall>r\<in>set ?rows'. row_id r \<noteq> 0"
  proof
    fix r assume "r \<in> set ?rows'"
    then have "row_id r \<in> set (map row_id ?rows')" by simp
    then have "row_id r \<in> row_id ` set (rows sh) \<or> row_id r \<in> set ids"
      unfolding ids' by auto
    with rownz idnz show "row_id r \<noteq> 0" by auto
  qed
  have hit: "target_row L u2 s2 f \<noteq> None"
    if f: "f \<in> set facturas" and ne: "build_cells L ?cm f rules \<noteq> []" for f
  proof -
    let ?v = "dict_get f ''UUID''"
    let ?bc = "build_cells L ?cm f rules"
    from present f have un: "uuid_val L f \<noteq> []" by simp
    from uuid_val_present [OF un] have tv: "truthy ?v"
      and uv: "uuid_val L f = strip (py_str L ?v)" by simp_all
    from tv have vn: "?v \<noteq> PNone" by auto
    from rule pr have rule': "map_of rules ''UUID'' = Some dst" by simp
    from only pr have only': "\<forall>(src, d)\<in>set rules. ?cm (slug L d) = Some ucid \<longrightarrow> src = ''UUID''"
      by simp
    from build_cells_uuid [where cmap = ?cm and L = L and fac = f, OF rule' col colnz vn only']
    have ex: "\<exists>oc\<in>set ?bc. columnId oc = ucid"
      and al: "\<forall>oc\<in>set ?bc. columnId oc = ucid \<longrightarrow> ovalue oc = ?v" by simp_all
    from reconcile_signatures [OF rec1 f] obtain sg where sg: "fac_signature L f = Inr sg" ..
    have "\<exists>r\<in>set ?rows'. column_holds ucid ?v (cells r)"
    proof (cases "target_row L u1 s1 f")
      case None
      from inserted_member [OF rec1 f ne None]
      have "\<lparr>toBottom = True, ins_cells = ?bc\<rparr> \<in> set inserts" .
      from apply_inserts_new [OF len this, of render "rows sh"] obtain i where i: "i \<in> set ids"
        and m: "\<lparr>row_id = i, cells = write_cells render ?bc []\<rparr> \<in> set ?rows1" by auto
      have "i \<notin> upd_id ` set updates"
      proof
        assume "i \<in> upd_id ` set updates"
        then obtain x where "x \<in> set updates" "i = upd_id x" by (rule imageE)
        with upd_old have "i \<in> row_id ` set (rows sh)" by simp
        with i fresh show False by auto
      qed
      then have "row_id \<lparr>row_id = i, cells = write_cells render ?bc []\<rparr> \<notin> upd_id ` set updates"
        by simp
      from apply_updates_unchanged [OF m this]
      have m': "\<lparr>row_id = i, cells = write_cells render ?bc []\<rparr> \<in> set ?rows'" .
      from write_cells_establish [OF ex al, of render "[]"]
      have "column_holds ucid ?v (cells \<lparr>row_id = i, cells = write_cells render ?bc []\<rparr>)"
        by simp
      with m' show ?thesis by (rule_tac bexI)
    next
      case (Some rid)
      from updated_member [OF rec1 f ne Some]
      have um: "\<lparr>upd_id = rid, upd_cells = ?bc\<rparr> \<in> set updates" .
      from target_row_is_row [OF ix1 Some] have "rid \<in> row_id ` set (rows sh)" by simp
      then obtain r0 where r0: "r0 \<in> set (rows sh)" and rid: "rid = row_id r0" by (rule imageE)
      from r0 have r1: "r0 \<in> set ?rows1" by (rule apply_inserts_old)
      from rid have e: "row_id r0 = upd_id \<lparr>upd_id = rid, upd_cells = ?bc\<rparr>" by simp
      from apply_updates_written [OF targets um r1 e, of render]
      have m': "r0\<lparr>cells := write_cells render ?bc (cells r0)\<rparr> \<in> set ?rows'" by simp
      from write_cells_establish [OF ex al, of render "cells r0"]
      have "column_holds ucid ?v (cells (r0\<lparr>cells := write_cells render ?bc (cells r0)\<rparr>))"
        by simp
      with m' show ?thesis by (rule_tac bexI)
    qed
    then obtain r where r: "r \<in> set ?rows'" and ch: "column_holds ucid ?v (cells r)" by blast
    from un uv have "strip (py_str L ?v) \<noteq> []" by simp
    from column_holds_has_uuid [OF ch colnz tv this, of ?sc]
    have "has_uuid L (Some ucid) ?sc (uuid_val L f) r" unfolding uv .
    from uuid_lookup_after [OF ix2 r this nz'] obtain rid2 where
      "u2 (uuid_val L f) = Some rid2" "rid2 \<noteq> 0" by blast
    from target_row_by_uuid [where u = u2 and s = s2, OF un sg this] show ?thesis by simp
  qed
  then have "\<forall>f\<in>set facturas. build_cells L ?cm f rules \<noteq> [] \<longrightarrow> target_row L u2 s2 f \<noteq> None"
    by simp
  from second_run_all_updates [OF rec2 this] mc show ?thesis by simp
qed

theorem second_run_updates_only_witness:
  "\<not> isl (push_to_sheet (sample_lib Map.empty) (Some example_sheet) example_batch PNone)
   \<and> length (fst (projr (push_to_sheet (sample_lib Map.empty) (Some example_sheet)
        example_batch PNone))) = 1
   \<and> \<not> isl (push_to_sheet (sample_lib Map.empty)
        (Some (after_push no_display [12]
           (projr (push_to_sheet (sample_lib Map.empty) (Some example_sheet) example_batch PNone))
           example_sheet))
        example_batch PNone)
   \<and> fst (projr (push_to_sheet (sample_lib Map.empty)
        (Some (after_push no_display [12]
           (projr (push_to_sheet (sample_lib Map.empty) (Some example_sheet) example_batch PNone))
           example_sheet))
        example_batch PNone)) = []
   \<and> map upd_id (snd (projr (push_to_sheet (sample_lib Map.empty)
        (Some (after_push no_display [12]
           (projr (push_to_sheet (sample_lib Map.empty) (Some example_sheet) example_batch PNone))
           example_sheet))
        example_batch PNone))) = [11, 12]"
proof -
  let ?L = "sample_lib Map.empty"
  let ?r1 = "push_to_sheet ?L (Some example_sheet) example_batch PNone"
  let ?b = "projr ?r1"
  let ?r2 = "push_to_sheet ?L (Some (after_push no_display [12] ?b example_sheet))
               example_batch PNone"
  let ?b2 = "projr ?r2"
  have n1: "\<not> isl ?r1" by code_simp
  have n2: "\<not> isl ?r2" by code_simp
  from n1 have run1: "?r1 = Inr (fst ?b, snd ?b)" by (cases ?r1) simp_all
  from n2 have "?r2 = Inr (fst ?b2, snd ?b2)" by (cases ?r2) simp_all
  then have run2: "push_to_sheet ?L (Some (after_push no_display [12] (fst ?b, snd ?b)
                      example_sheet)) example_batch PNone = Inr (fst ?b2, snd ?b2)"
    by simp
  have present: "\<forall>fac\<in>set example_batch. uuid_val ?L fac \<noteq> []" by code_simp
  have unique: "distinct (map (uuid_val ?L) example_batch)" by code_simp
  have rule: "map_of (push_rules ?L PNone) ''UUID'' = Some ''UUID''" by code_simp
  have col: "col_map ?L (columns example_sheet) (slug ?L ''UUID'') = Some 1" by code_simp
  have only: "\<forall>(src, d)\<in>set (push_rules ?L PNone).
                 col_map ?L (columns example_sheet) (slug ?L d) = Some 1 \<longrightarrow> src = ''UUID''"
    by code_simp
  have targets: "distinct (map upd_id (snd ?b))" by code_simp
  have len: "length [12::int] = length (fst ?b)" by code_simp
  have idnz: "(0::int) \<notin> set [12]" by simp
  have fresh: "set [12] \<inter> row_id ` set (rows example_sheet) = {}" by code_simp
  have rownz: "\<forall>r\<in>set (rows example_sheet). row_id r \<noteq> 0" by code_simp
  from second_run_updates_only [OF run1 run2 present unique rule col _ only targets len idnz
      fresh rownz]
  have e: "fst ?b2 = []" by simp
  have l1: "length (fst ?b) = 1" by code_simp
  have u2: "map upd_id (snd ?b2) = [11, 12]" by code_simp
  from n1 l1 n2 e u2 show ?thesis by simp
qed

text \<open>
  The sheet has one row, with the UUID of the second invoice and the signature of the
  first. The first run updates that row twice, and the row ends with the cells of the second
  invoice. The second run finds neither the UUID nor the signature of the first invoice and
  inserts it.
\<close>

theorem second_run_inserts_after_clash:
  "map (uuid_val (sample_lib Map.empty)) clash_batch = [''A1'', ''B1'']
   \<and> \<not> isl (push_to_sheet (sample_lib Map.empty) (Some clash_sheet) clash_batch PNone)
   \<and> fst (projr (push_to_sheet (sample_lib Map.empty) (Some clash_sheet) clash_batch PNone)) = []
   \<and> map upd_id (snd (projr (push_to_sheet (sample_lib Map.empty) (Some clash_sheet)
        clash_batch PNone))) = [10, 10]
   \<and> \<not> isl (push_to_sheet (sample_lib Map.empty)
        (Some (after_push no_display []
           (projr (push_to_sheet (sample_lib Map.empty) (Some clash_sheet) clash_batch PNone))
           clash_sheet))
        clash_batch PNone)
   \<and> fst (projr (push_to_sheet (sample_lib Map.empty)
        (Some (after_push no_display []
           (projr (push_to_sheet (sample_lib Map.empty) (Some clash_sheet) clash_batch PNone))
           clash_sheet))
        clash_batch PNone))
      = [\<lparr>toBottom = True,
          ins_cells = [\<lparr>columnId = 1, ovalue = PStr ''A1''\<rparr>,
                       \<lparr>columnId = 2, ovalue = PStr ''2025-01-01''\<rparr>,
                       \<lparr>columnId = 3, ovalue = PStr ''X''\<rparr>,
                       \<lparr>columnId = 4, ovalue = PFloat (Finite 1)\<rparr>,
                       \<lparr>columnId = 5, ovalue = PStr ''G01''\<rparr>]\<rparr>]"
  by code_simp

end
